(* ===== verification/Prelude.thy ===== *)
theory Prelude
  imports Main "HOL-Library.Word" "HOL-Library.List_Lexorder"
begin

text \<open>
  Shared vocabulary of the development: the machine types of the Rust source, the error type of
  \<^verbatim>\<open>src/src/error.rs\<close>, the propagation of errors (the \<^verbatim>\<open>?\<close> operator), byte buffers, the number
  formats of \<^verbatim>\<open>format!\<close>, and the facts about words, lists and results that the components share.

  \<^item> \<open>u8\<close>, \<open>u16\<close>, \<open>u32\<close>, \<open>i32\<close>, \<open>i64\<close> are words of that width. A Rust \<^verbatim>\<open>as\<close> cast between
    equally wide integers is the identity on the word; a signed reading is \<open>sint\<close>.
  \<^item> \<open>usize\<close> values are \<open>nat\<close>; a cast to and from \<open>usize\<close> goes through a 64-bit word.
  \<^item> A \<^verbatim>\<open>String\<close> or \<^verbatim>\<open>&str\<close> is the list of its UTF-8 bytes; \<^verbatim>\<open>len()\<close> is the length of that list.
\<close>

unbundle bit_operations_syntax

named_theorems res_simps \<open>rewriting of results: the \<^verbatim>\<open>?\<close> operator on concrete outcomes\<close>
named_theorems cast_simps \<open>casts between the integer types of the source\<close>
named_theorems codec_simps \<open>decoders applied to the encodings they invert\<close>
named_theorems wire_defs \<open>definitions of the field encoders\<close>

section \<open>Machine types\<close>

type_synonym u8 = "8 word"
type_synonym u16 = "16 word"
type_synonym u32 = "32 word"
type_synonym u64 = "64 word"
type_synonym i8 = "8 word"
type_synonym i32 = "32 word"
type_synonym i64 = "64 word"
type_synonym bytes = "u8 list"
type_synonym str = "u8 list"
type_synonym uuid = "u8 list"

text \<open>\<^verbatim>\<open>x as usize\<close> for an \<^verbatim>\<open>i32\<close>: sign extension to 64 bits, read unsigned.\<close>

definition i32_as_usize :: "i32 \<Rightarrow> nat" where
  "i32_as_usize v = unat (scast v :: 64 word)"

text \<open>\<^verbatim>\<open>n as i32\<close> and \<^verbatim>\<open>n as u16\<close> for a \<^verbatim>\<open>usize\<close>: truncation.\<close>

definition usize_as_i32 :: "nat \<Rightarrow> i32" where
  "usize_as_i32 n = word_of_nat n"

definition usize_as_u16 :: "nat \<Rightarrow> u16" where
  "usize_as_u16 n = word_of_nat n"

text \<open>A Rust string or byte-string literal with ASCII characters only.\<close>

definition str :: "string \<Rightarrow> str" where
  "str s = map of_char s"

text \<open>The section sign (U+00A7) that opens Minecraft colour codes.\<close>

definition section_sign :: str where
  "section_sign = [0xC2, 0xA7]"

section \<open>Errors\<close>

text \<open>The kinds of \<^verbatim>\<open>std::io::ErrorKind\<close> the source names, and one for every other kind.\<close>

datatype io_kind = UnexpectedEof | InvalidData | TimedOut | WriteZero | NotConnected | OtherKind nat

datatype proxy_error =
    Io io_kind str
  | VarIntOverflow
  | PacketTooLarge nat
  | InvalidPacketId i32
  | InvalidConnectionState i32
  | CryptoError str
  | AuthenticationFailed str
  | BackendConnectionFailed str
  | ScriptError str
  | ConfigError str

type_synonym 'a res = "proxy_error + 'a"

text \<open>The \<^verbatim>\<open>?\<close> operator: go on with the value, return early with the error.\<close>

definition bindE :: "'e + 'a \<Rightarrow> ('a \<Rightarrow> 'e + 'b) \<Rightarrow> 'e + 'b" where
  "bindE r f = (case r of Inl e \<Rightarrow> Inl e | Inr x \<Rightarrow> f x)"

text \<open>\<^verbatim>\<open>.ok()\<close>: forget which error it was.\<close>

definition ok :: "'e + 'a \<Rightarrow> 'a option" where
  "ok r = (case r of Inl _ \<Rightarrow> None | Inr x \<Rightarrow> Some x)"

definition is_ok :: "'e + 'a \<Rightarrow> bool" where
  "is_ok r = (case r of Inl _ \<Rightarrow> False | Inr _ \<Rightarrow> True)"

section \<open>Number formats\<close>

definition digit_char :: "nat \<Rightarrow> u8" where
  "digit_char d = (if d < 10 then 0x30 + word_of_nat d else 0x61 + word_of_nat (d - 10))"

definition upper_digit_char :: "nat \<Rightarrow> u8" where
  "upper_digit_char d = (if d < 10 then 0x30 + word_of_nat d else 0x41 + word_of_nat (d - 10))"

text \<open>\<open>radix b dg n\<close>: the digits of \<open>n\<close> in base \<open>b\<close>, most significant first, \<open>n = 0\<close> as one zero.\<close>

function radix :: "nat \<Rightarrow> (nat \<Rightarrow> u8) \<Rightarrow> nat \<Rightarrow> str" where
  "radix b dg n = (if b < 2 \<or> n < b then [dg n] else radix b dg (n div b) @ [dg (n mod b)])"
  by pat_completeness auto
termination
  by (relation "measure (\<lambda>(b, dg, n). n)") auto

declare radix.simps [simp del]

lemma radix_not_Nil [simp]: "radix b dg n \<noteq> []"
  by (subst radix.simps) simp

lemma radix_less: "n < b \<Longrightarrow> radix b dg n = [dg n]"
  by (subst radix.simps) simp

text \<open>\<^verbatim>\<open>{}\<close> of an unsigned and of a signed number, \<^verbatim>\<open>{:#x}\<close> of an \<^verbatim>\<open>i32\<close> and \<^verbatim>\<open>{:02X}\<close>.\<close>

definition dec_nat :: "nat \<Rightarrow> str" where
  "dec_nat n = radix 10 digit_char n"

definition dec_i32 :: "i32 \<Rightarrow> str" where
  "dec_i32 v = (if sint v < 0 then str ''-'' @ dec_nat (nat (- sint v)) else dec_nat (nat (sint v)))"

definition hex_alt :: "i32 \<Rightarrow> str" where
  "hex_alt v = str ''0x'' @ radix 16 digit_char (unat v)"

definition hex_02X :: "nat \<Rightarrow> str" where
  "hex_02X n = (let s = radix 16 upper_digit_char n in if length s < 2 then str ''0'' @ s else s)"

text \<open>\<^verbatim>\<open>hex::encode\<close>: two lower-case digits per byte.\<close>

definition hex_byte :: "u8 \<Rightarrow> str" where
  "hex_byte b = [digit_char (unat b div 16), digit_char (unat b mod 16)]"

definition hex_encode :: "bytes \<Rightarrow> str" where
  "hex_encode bs = concat (map hex_byte bs)"

text \<open>The messages of the errors (\<^verbatim>\<open>#[error(..)]\<close>). The text kept with an \<open>Io\<close> error is its own message.\<close>

fun display_error :: "proxy_error \<Rightarrow> str" where
  "display_error (Io k m) = str ''I/O error: '' @ m"
| "display_error VarIntOverflow = str ''VarInt exceeds maximum allowed length''"
| "display_error (PacketTooLarge n) =
     str ''Packet size '' @ dec_nat n @ str '' exceeds configured maximum limit''"
| "display_error (InvalidPacketId v) = str ''Invalid or unrecognized packet ID: '' @ hex_alt v"
| "display_error (InvalidConnectionState v) = str ''Invalid connection state: '' @ dec_i32 v"
| "display_error (CryptoError m) = str ''Cryptographic error: '' @ m"
| "display_error (AuthenticationFailed m) = str ''Authentication failed: '' @ m"
| "display_error (BackendConnectionFailed m) = str ''Backend connection failed: '' @ m"
| "display_error (ScriptError m) = str ''Script error: '' @ m"
| "display_error (ConfigError m) = str ''Configuration error: '' @ m"

section \<open>ASCII and prefixes\<close>

definition is_ascii_digit :: "u8 \<Rightarrow> bool" where
  "is_ascii_digit b \<longleftrightarrow> 0x30 \<le> b \<and> b \<le> 0x39"

definition is_ascii_upper :: "u8 \<Rightarrow> bool" where
  "is_ascii_upper b \<longleftrightarrow> 0x41 \<le> b \<and> b \<le> 0x5A"

definition is_ascii_lower :: "u8 \<Rightarrow> bool" where
  "is_ascii_lower b \<longleftrightarrow> 0x61 \<le> b \<and> b \<le> 0x7A"

definition is_ascii_alphanumeric :: "u8 \<Rightarrow> bool" where
  "is_ascii_alphanumeric b \<longleftrightarrow> is_ascii_digit b \<or> is_ascii_upper b \<or> is_ascii_lower b"

definition ascii_lower :: "u8 \<Rightarrow> u8" where
  "ascii_lower b = (if is_ascii_upper b then b + 0x20 else b)"

definition to_ascii_lowercase :: "str \<Rightarrow> str" where
  "to_ascii_lowercase s = map ascii_lower s"

definition eq_ignore_ascii_case :: "str \<Rightarrow> str \<Rightarrow> bool" where
  "eq_ignore_ascii_case a b \<longleftrightarrow> to_ascii_lowercase a = to_ascii_lowercase b"

text \<open>\<^verbatim>\<open>starts_with\<close> and \<^verbatim>\<open>strip_prefix\<close> on strings.\<close>

fun strip_prefix :: "'a list \<Rightarrow> 'a list \<Rightarrow> 'a list option" where
  "strip_prefix [] s = Some s"
| "strip_prefix (p # ps) [] = None"
| "strip_prefix (p # ps) (c # s) = (if p = c then strip_prefix ps s else None)"

definition starts_with :: "'a list \<Rightarrow> 'a list \<Rightarrow> bool" where
  "starts_with s p \<longleftrightarrow> strip_prefix p s \<noteq> None"

section \<open>Results\<close>

lemma bindE_Inr [simp, res_simps]: "bindE (Inr x) f = f x"
  by (simp add: bindE_def)

lemma bindE_Inl [simp, res_simps]: "bindE (Inl e) f = Inl e"
  by (simp add: bindE_def)

lemma bindE_eq_Inr_iff: "bindE r f = Inr y \<longleftrightarrow> (\<exists>x. r = Inr x \<and> f x = Inr y)"
  by (cases r) auto

lemma bindE_eq_Inl_iff: "bindE r f = Inl e \<longleftrightarrow> r = Inl e \<or> (\<exists>x. r = Inr x \<and> f x = Inl e)"
  by (cases r) auto

lemma bindE_split: "P (bindE r f) \<longleftrightarrow> (\<forall>e. r = Inl e \<longrightarrow> P (Inl e)) \<and> (\<forall>x. r = Inr x \<longrightarrow> P (f x))"
  by (cases r) auto

lemma bindE_split_asm:
  "P (bindE r f) \<longleftrightarrow> \<not> ((\<exists>e. r = Inl e \<and> \<not> P (Inl e)) \<or> (\<exists>x. r = Inr x \<and> \<not> P (f x)))"
  by (cases r) auto

lemmas bindE_splits = bindE_split bindE_split_asm

lemma bindE_assoc: "bindE (bindE r f) g = bindE r (\<lambda>x. bindE (f x) g)"
  by (cases r) auto

lemma bindE_cong [fundef_cong]:
  "r = r' \<Longrightarrow> (\<And>x. r' = Inr x \<Longrightarrow> f x = f' x) \<Longrightarrow> bindE r f = bindE r' f'"
  by (cases r') auto

lemma ok_simps [simp, res_simps]: "ok (Inr x) = Some x" "ok (Inl e) = None"
  by (simp_all add: ok_def)

lemma is_ok_simps [simp, res_simps]: "is_ok (Inr x)" "\<not> is_ok (Inl e)"
  by (simp_all add: is_ok_def)

lemma ok_eq_Some_iff: "ok r = Some x \<longleftrightarrow> r = Inr x"
  by (cases r) auto

section \<open>Casts\<close>

lemma uint_scast_i32: "uint (scast v :: 64 word) = sint (v :: i32) mod 2 ^ 64"
proof -
  have "(scast v :: 64 word) = word_of_int (sint v)"
    by (fact scast_eq)
  then show ?thesis
    by (simp only: unsigned_of_int take_bit_eq_mod) simp
qed

lemma i32_as_usize_nonneg [cast_simps]: "0 \<le> sint v \<Longrightarrow> i32_as_usize v = nat (sint v)"
proof -
  assume nn: "0 \<le> sint v"
  have ub: "sint v < 2 ^ 31"
    using sint_lt [of v] by simp
  have "uint (scast v :: 64 word) = sint v"
    unfolding uint_scast_i32 using nn ub by simp
  then show ?thesis
    by (simp only: i32_as_usize_def unat_eq_nat_uint)
qed

lemma i32_as_usize_neg: "sint v < 0 \<Longrightarrow> i32_as_usize v = nat (2 ^ 64 + sint v)"
proof -
  assume neg: "sint v < 0"
  have lb: "- (2 ^ 31) \<le> sint v"
    using sint_ge [of v] by simp
  have "sint v mod 2 ^ 64 = (2 ^ 64 + sint v) mod 2 ^ 64"
    by simp
  also have "\<dots> = 2 ^ 64 + sint v"
    using neg lb by (intro mod_pos_pos_trivial) auto
  finally show ?thesis
    by (simp only: i32_as_usize_def unat_eq_nat_uint uint_scast_i32)
qed

lemma sint_usize_as_i32 [cast_simps]: "n < 2 ^ 31 \<Longrightarrow> sint (usize_as_i32 n) = int n"
  unfolding usize_as_i32_def
  by (simp add: signed_of_nat signed_take_bit_int_eq_self)

lemma i32_as_usize_of_nat [cast_simps]: "n < 2 ^ 31 \<Longrightarrow> i32_as_usize (usize_as_i32 n) = n"
  by (simp add: cast_simps)

lemma usize_as_i32_not_neg [cast_simps]: "n < 2 ^ 31 \<Longrightarrow> \<not> sint (usize_as_i32 n) < 0"
  by (simp add: cast_simps)

lemma usize_as_i32_eq_0 [cast_simps]: "n < 2 ^ 31 \<Longrightarrow> usize_as_i32 n = 0 \<longleftrightarrow> n = 0"
proof
  assume n: "n < 2 ^ 31" and z: "usize_as_i32 n = 0"
  have "int n = sint (usize_as_i32 n)" using n by (simp only: sint_usize_as_i32)
  also have "\<dots> = 0" by (simp add: z)
  finally show "n = 0" by simp
qed (simp add: usize_as_i32_def)

lemma usize_as_i32_inj: "n < 2 ^ 31 \<Longrightarrow> m < 2 ^ 31 \<Longrightarrow> usize_as_i32 n = usize_as_i32 m \<longleftrightarrow> n = m"
  by (metis i32_as_usize_of_nat)

lemma unat_usize_as_u16 [cast_simps]: "n < 2 ^ 16 \<Longrightarrow> unat (usize_as_u16 n) = n"
  unfolding usize_as_u16_def by (simp add: unat_of_nat)

lemma length_str [simp]: "length (str s) = length s"
  by (simp add: str_def)

lemma str_append: "str (s @ t) = str s @ str t"
  by (simp add: str_def)

lemma of_char_u8_eq_iff: "(of_char c :: u8) = of_char d \<longleftrightarrow> c = d"
proof
  have u: "unat (of_char x :: u8) = of_char x" for x
    using unat_of_nat [of "of_char x :: nat", where 'a = 8] by (simp add: of_nat_of_char)
  assume "(of_char c :: u8) = of_char d"
  then have "(of_char c :: nat) = of_char d"
    by (metis u)
  then show "c = d" by simp
qed simp

lemma str_eq_iff [simp]: "str s = str t \<longleftrightarrow> s = t"
  by (simp add: str_def inj_map_eq_map inj_def of_char_u8_eq_iff)

lemma drop_is_suffix [simp]: "\<exists>used. xs = used @ drop n xs"
  by (metis append_take_drop_id)

section \<open>Prefixes\<close>

lemma strip_prefix_append [simp]: "strip_prefix p (p @ s) = Some s"
  by (induction p) auto

lemma strip_prefix_Some_iff: "strip_prefix p s = Some r \<longleftrightarrow> s = p @ r"
  by (induction p s rule: strip_prefix.induct) auto

lemma starts_with_iff: "starts_with s p \<longleftrightarrow> (\<exists>r. s = p @ r)"
  by (auto simp: starts_with_def strip_prefix_Some_iff)

lemma starts_with_empty [simp]: "starts_with s []"
  by (simp add: starts_with_def)

end
