(* ===== verification/Field_Codec.thy ===== *)
theory Field_Codec
  imports Prelude
begin

text \<open>
  The contract between a field encoder and its decoder. A decoder takes the bytes that are left in
  the cursor and returns the value with the bytes after it, or the error. The components interpret
  these locales on their own encoders and decoders: the integers in \<open>Varint\<close>, the strings and fixed-size
  fields in \<open>Buffers\<close>, the composite fields in the packet theories.

  \<open>decode_n\<close> is the loop \<^verbatim>\<open>for _ in 0..count\<close> that the packets with arrays run over an element decoder.
\<close>

fun decode_n :: "(bytes \<Rightarrow> ('a \<times> bytes) res) \<Rightarrow> nat \<Rightarrow> bytes \<Rightarrow> ('a list \<times> bytes) res" where
  "decode_n dec 0 buf = Inr ([], buf)"
| "decode_n dec (Suc n) buf =
     bindE (dec buf) (\<lambda>(x, buf). bindE (decode_n dec n buf) (\<lambda>(xs, buf). Inr (x # xs, buf)))"

lemma decode_n_length: "decode_n dec n buf = Inr (xs, rest) \<Longrightarrow> length xs = n"
  by (induction n arbitrary: buf xs rest) (auto simp: bindE_eq_Inr_iff)

locale field_codec =
  fixes enc :: "'a \<Rightarrow> bytes"
    and dec :: "bytes \<Rightarrow> ('a \<times> bytes) res"
    and wf :: "'a \<Rightarrow> bool"
  assumes dec_enc: "wf x \<Longrightarrow> dec (enc x @ rest) = Inr (x, rest)"
begin

lemma prefix_free: "wf x \<Longrightarrow> wf y \<Longrightarrow> enc x @ r = enc y @ s \<Longrightarrow> x = y \<and> r = s"
  by (metis dec_enc sum.inject(2) prod.inject)

lemma enc_inj: "wf x \<Longrightarrow> wf y \<Longrightarrow> enc x = enc y \<Longrightarrow> x = y"
  using prefix_free [of x y "[]" "[]"] by simp

lemma dec_enc_list:
  "\<forall>x \<in> set xs. wf x \<Longrightarrow> decode_n dec (length xs) (concat (map enc xs) @ rest) = Inr (xs, rest)"
  by (induction xs) (auto simp: dec_enc)

lemma dec_enc_exact: "wf x \<Longrightarrow> dec (enc x) = Inr (x, [])"
  using dec_enc [of x "[]"] by simp

end

text \<open>A decoder that always makes progress: it never succeeds without consuming a byte.\<close>

locale progress_codec = field_codec +
  assumes dec_progress: "dec buf = Inr (x, rest) \<Longrightarrow> length rest < length buf"
begin

lemma dec_n_bound: "decode_n dec n buf = Inr (xs, rest) \<Longrightarrow> length xs + length rest \<le> length buf"
proof (induction n arbitrary: buf xs rest)
  case 0
  then show ?case by simp
next
  case (Suc n)
  then obtain x buf' ys where "dec buf = Inr (x, buf')" "decode_n dec n buf' = Inr (ys, rest)" "xs = x # ys"
    by (auto simp: bindE_eq_Inr_iff)
  with Suc.IH dec_progress show ?case by fastforce
qed

lemma enc_not_Nil: "wf x \<Longrightarrow> enc x \<noteq> []"
  using dec_progress [of "enc x" x "[]"] dec_enc_exact [of x] by auto

end

end
