(* ===== verification/Varint.thy ===== *)
theory Varint
  imports Field_Codec
begin

text \<open>
  \<^verbatim>\<open>src/src/protocol/varint.rs\<close>: the variable-length integers every other wire format is built from.
  The in-memory loops are shared by the 32-bit and the 64-bit variant, as the source repeats one loop
  body with other constants: \<open>mx\<close> is the number of bytes allowed, \<open>hi\<close> the mask of the bits that
  must be clear in the last byte.

  The lemmas show that encoding and decoding are inverse to each other, that the decoder reads at
  most \<open>mx\<close> bytes, that an encoding is never longer than that, is the shortest one the decoder
  accepts, and has the length \<open>varint_size\<close> announces. The two error outcomes of the decoder are
  characterised exactly.
\<close>

section \<open>Bits of the bytes of a variable-length integer\<close>

lemma bit_0x80_int: "bit (0x80 :: int) n \<longleftrightarrow> n = 7"
proof -
  have "(0x80 :: int) = 2 ^ 7" by simp
  then show ?thesis by (simp only: bit_exp_iff) auto
qed

lemma bit_0x7F_int: "bit (0x7F :: int) n \<longleftrightarrow> n < 7"
proof -
  have "(0x7F :: int) = mask 7" by (simp add: mask_eq_exp_minus_1)
  then show ?thesis by (simp only: bit_mask_iff) auto
qed

lemma unat_drop_bit_7: "unat (drop_bit 7 (temp :: 'a::len word)) = unat temp div 128"
proof -
  have "unat (drop_bit 7 temp) = drop_bit 7 (unat temp)"
    by (fact unat_drop_bit_eq)
  also have "\<dots> = unat temp div 128"
    by (simp add: drop_bit_eq_div)
  finally show ?thesis .
qed

lemma and_not_127_eq_0_iff: "(temp :: 'a::len word) AND NOT 0x7F = 0 \<longleftrightarrow> unat temp < 128"
proof -
  have "temp AND NOT 0x7F = temp AND NOT (mask 7)"
    by (simp add: mask_eq_exp_minus_1)
  also have "\<dots> = push_bit 7 (drop_bit 7 temp)"
    by (intro bit_word_eqI) (auto simp: bit_simps not_less)
  finally have "temp AND NOT 0x7F = 0 \<longleftrightarrow> push_bit 7 (drop_bit 7 temp) = 0"
    by (simp only:)
  also have "\<dots> \<longleftrightarrow> drop_bit 7 temp = 0"
  proof
    assume z: "push_bit 7 (drop_bit 7 temp) = 0"
    show "drop_bit 7 temp = 0"
    proof (rule bit_word_eqI)
      fix n
      have "\<not> bit (push_bit 7 (drop_bit 7 temp)) (n + 7)"
        unfolding z by simp
      then show "bit (drop_bit 7 temp) n = bit 0 n"
        using bit_imp_le_length [of temp "7 + n"] by (auto simp: bit_simps add.commute)
    qed
  qed simp
  also have "\<dots> \<longleftrightarrow> unat (drop_bit 7 temp) = 0"
    by (simp only: unat_eq_zero)
  also have "\<dots> \<longleftrightarrow> unat temp < 128"
    by (simp only: unat_drop_bit_7 div_eq_0_iff) simp
  finally show ?thesis .
qed

lemma and_m128_eq_0_iff: "(temp :: 'a::len word) AND - 128 = 0 \<longleftrightarrow> unat temp < 128"
  using and_not_127_eq_0_iff [of temp] by simp

section \<open>Definitions\<close>

text \<open>The body of \<^verbatim>\<open>decode_varint\<close> and \<^verbatim>\<open>decode_varlong\<close>: the buffer is the list that is left.
  \<^verbatim>\<open>wrapping_shl\<close> reduces the shift distance by the width of the word.\<close>

fun decode_var_loop ::
  "str \<Rightarrow> nat \<Rightarrow> u8 \<Rightarrow> 'a::len word \<Rightarrow> nat \<Rightarrow> nat \<Rightarrow> bytes \<Rightarrow> ('a word \<times> bytes) res" where
  "decode_var_loop eof mx hi val position bytes_read [] = Inl (Io UnexpectedEof eof)"
| "decode_var_loop eof mx hi val position bytes_read (b # buf) =
     (if bytes_read + 1 = mx \<and> b AND hi \<noteq> 0 then Inl VarIntOverflow
      else let val' = val OR push_bit (position mod LENGTH('a)) (ucast (b AND 0x7F)) in
        if b AND 0x80 = 0 then Inr (val', buf)
        else if mx \<le> bytes_read + 1 then Inl VarIntOverflow
        else decode_var_loop eof mx hi val' (position + 7) (bytes_read + 1) buf)"

definition decode_varint :: "bytes \<Rightarrow> (i32 \<times> bytes) res" where
  "decode_varint buf =
     decode_var_loop (str ''unexpected end of buffer while decoding VarInt'') 5 0xF0 0 0 0 buf"

definition decode_varlong :: "bytes \<Rightarrow> (i64 \<times> bytes) res" where
  "decode_varlong buf =
     decode_var_loop (str ''unexpected end of buffer while decoding VarLong'') 10 0xFE 0 0 0 buf"

text \<open>The loop of \<^verbatim>\<open>encode_varint\<close> and \<^verbatim>\<open>encode_varlong\<close>; the result is what it appends.\<close>

function encode_var_loop :: "'a::len word \<Rightarrow> bytes" where
  "encode_var_loop temp =
     (if temp AND NOT 0x7F = 0 then [ucast temp]
      else ucast ((temp AND 0x7F) OR 0x80) # encode_var_loop (drop_bit 7 temp))"
  by pat_completeness auto
termination
  by (relation "measure unat") (auto simp: and_m128_eq_0_iff unat_drop_bit_7)

definition encode_varint :: "i32 \<Rightarrow> bytes" where
  "encode_varint v = encode_var_loop v"

definition encode_varlong :: "i64 \<Rightarrow> bytes" where
  "encode_varlong v = encode_var_loop v"

definition varint_size :: "i32 \<Rightarrow> nat" where
  "varint_size v =
     (if v \<le> 0x7F then 1
      else if v \<le> 0x3FFF then 2
      else if v \<le> 0x1FFFFF then 3
      else if v \<le> 0x0FFFFFFF then 4
      else 5)"

section \<open>Decoding inverts encoding\<close>

lemma bit_small: "unat (w :: 'a::len word) < 2 ^ k \<Longrightarrow> k \<le> n \<Longrightarrow> \<not> bit w n"
proof -
  assume a: "unat w < 2 ^ k" "k \<le> n"
  then have "unat w < 2 ^ n"
    by (meson less_le_trans one_le_numeral power_increasing)
  then have "\<not> bit (unat w) n"
    by (simp add: bit_iff_odd)
  then show ?thesis
    by (simp add: bit_unsigned_iff)
qed

lemma last_byte:
  assumes "unat (temp :: 'a::len word) < 128" and "8 \<le> LENGTH('a)"
  shows "(ucast temp :: 8 word) AND 0x80 = 0"
    and "(ucast ((ucast temp :: 8 word) AND 0x7F) :: 'a word) = temp"
proof -
  have nb: "\<not> bit temp n" if "7 \<le> n" for n
    using assms(1) that by (intro bit_small [where k = 7]) auto
  have nb': "bit temp n \<Longrightarrow> n < 7" for n
    using nb by (metis not_less)
  show "(ucast temp :: 8 word) AND 0x80 = 0"
    by (rule bit_word_eqI) (auto simp: bit_simps bit_0x80_int nb)
  show "(ucast ((ucast temp :: 8 word) AND 0x7F) :: 'a word) = temp"
    by (intro bit_word_eqI) (auto simp: bit_simps bit_0x7F_int dest: nb')
qed

lemma more_byte:
  assumes "8 \<le> LENGTH('a::len)"
  shows "(ucast (((temp :: 'a word) AND 0x7F) OR 0x80) :: 8 word) AND 0x80 \<noteq> 0"
    and "(ucast ((ucast ((temp AND 0x7F) OR 0x80) :: 8 word) AND 0x7F) :: 'a word) = take_bit 7 temp"
proof -
  have "bit ((ucast ((temp AND 0x7F) OR 0x80) :: 8 word) AND 0x80) 7"
    using assms by (auto simp: bit_simps bit_0x80_int)
  then show "(ucast ((temp AND 0x7F) OR 0x80) :: 8 word) AND 0x80 \<noteq> 0"
    by auto
  show "(ucast ((ucast ((temp AND 0x7F) OR 0x80) :: 8 word) AND 0x7F) :: 'a word) = take_bit 7 temp"
    using assms by (intro bit_word_eqI) (auto simp: bit_simps bit_0x80_int bit_0x7F_int)
qed

lemma or_push_split:
  "(v :: 'a::len word) OR push_bit p (take_bit 7 t) OR push_bit (p + 7) (drop_bit 7 t) = v OR push_bit p t"
proof (rule bit_word_eqI)
  fix n
  show "bit (v OR push_bit p (take_bit 7 t) OR push_bit (p + 7) (drop_bit 7 t)) n = bit (v OR push_bit p t) n"
  proof (cases "p + 7 \<le> n")
    case True
    then have "7 + (n - (p + 7)) = n - p" by simp
    then show ?thesis using True by (auto simp: bit_simps)
  next
    case False
    then show ?thesis by (auto simp: bit_simps)
  qed
qed

declare encode_var_loop.simps [simp del]

lemma encode_var_loop_last: "unat temp < 128 \<Longrightarrow> encode_var_loop temp = [ucast temp]"
  by (subst encode_var_loop.simps) (simp add: and_m128_eq_0_iff)

lemma encode_var_loop_more: "\<not> unat temp < 128 \<Longrightarrow>
    encode_var_loop temp = ucast ((temp AND 0x7F) OR 0x80) # encode_var_loop (drop_bit 7 temp)"
  by (subst encode_var_loop.simps) (simp add: and_m128_eq_0_iff)

definition hi_ok :: "nat \<Rightarrow> u8 \<Rightarrow> 'a::len itself \<Rightarrow> bool" where
  "hi_ok mx hi t \<longleftrightarrow> 8 \<le> LENGTH('a) \<and> 7 * (mx - 1) < LENGTH('a) \<and> LENGTH('a) \<le> 7 * mx
     \<and> hi = NOT (mask (LENGTH('a) - 7 * (mx - 1)))"

lemma next_group_bound:
  assumes "7 * (k + 1) < l" and "n < 2 ^ (l - 7 * k)"
  shows "n div 128 < (2 :: nat) ^ (l - 7 * (k + 1))"
proof -
  have "l - 7 * k = (l - 7 * (k + 1)) + 7" using assms(1) by simp
  then have "(2 :: nat) ^ (l - 7 * k) = 2 ^ (l - 7 * (k + 1)) * 2 ^ 7" by (simp only: power_add)
  with assms(2) have "n < 2 ^ (l - 7 * (k + 1)) * 2 ^ 7" by (simp only:)
  then have "n div 2 ^ 7 < 2 ^ (l - 7 * (k + 1))" by (rule less_mult_imp_div_less)
  then show ?thesis by simp
qed

lemma last_group_clear:
  fixes temp :: "'a::len word"
  assumes "hi_ok mx hi TYPE('a)" and "unat temp < 2 ^ (LENGTH('a) - 7 * (mx - 1))"
  shows "(ucast temp :: u8) AND hi = 0"
proof -
  have "\<not> bit temp n" if "LENGTH('a) - 7 * (mx - 1) \<le> n" for n
    using that assms(2) by (intro bit_small) auto
  with assms(1) show ?thesis
    by (intro bit_word_eqI) (auto simp: hi_ok_def bit_simps not_less)
qed

lemma decode_encode_loop:
  fixes temp v :: "'a::len word"
  assumes ok: "hi_ok mx hi TYPE('a)"
    and "k < mx" and "unat temp < 2 ^ (LENGTH('a) - 7 * k)"
  shows "decode_var_loop eof mx hi v (7 * k) k (encode_var_loop temp @ rest) =
      Inr (v OR push_bit (7 * k) temp, rest)"
  using assms(2,3)
proof (induction temp arbitrary: v k rule: encode_var_loop.induct)
  case (1 temp)
  let ?L = "LENGTH('a)"
  from ok have len: "8 \<le> ?L" and mxb: "7 * (mx - 1) < ?L" "?L \<le> 7 * mx"
    and hi: "hi = NOT (mask (?L - 7 * (mx - 1)))"
    by (auto simp: hi_ok_def)
  have pos: "7 * k mod ?L = 7 * k"
    using mxb "1.prems"(1) by (intro mod_less) linarith
  show ?case
  proof (cases "unat temp < 128")
    case True
    have "(ucast temp :: u8) AND hi = 0" if "k + 1 = mx"
      using "1.prems"(2) that by (intro last_group_clear [OF ok]) (metis diff_add_inverse2)
    with True len show ?thesis
      by (simp add: encode_var_loop_last last_byte pos)
  next
    case False
    have k: "k + 1 < mx"
    proof (rule ccontr)
      assume "\<not> k + 1 < mx"
      with "1.prems"(1) have "k = mx - 1" by simp
      with mxb have "?L - 7 * k \<le> 7" by simp
      with "1.prems"(2) have "unat temp < 2 ^ 7"
        by (meson less_le_trans one_le_numeral power_increasing)
      with False show False by simp
    qed
    have "k + 1 \<le> mx - 1" using k by simp
    then have "7 * (k + 1) < ?L" using mxb(1) by (meson le_less_trans mult_le_mono2)
    then have "unat temp div 128 < 2 ^ (?L - 7 * (k + 1))" using "1.prems"(2) by (rule next_group_bound)
    then have IH: "decode_var_loop eof mx hi v' (7 * (k + 1)) (k + 1)
          (encode_var_loop (drop_bit 7 temp) @ rest) =
        Inr (v' OR push_bit (7 * (k + 1)) (drop_bit 7 temp), rest)" for v'
      using "1.IH" [of "k + 1" v'] False k by (simp only: and_not_127_eq_0_iff unat_drop_bit_7 simp_thms True_implies_equals)
    show ?thesis
      unfolding encode_var_loop_more [OF False]
      using k IH [of "v OR push_bit (7 * k) (take_bit 7 temp)"] or_push_split [of v "7 * k" temp]
      by (simp add: Let_def more_byte [OF len] pos add.commute or.assoc)
  qed
qed

lemma hi_ok_varint: "hi_ok 5 0xF0 TYPE(32)"
  by (simp add: hi_ok_def mask_eq_exp_minus_1)

lemma hi_ok_varlong: "hi_ok 10 0xFE TYPE(64)"
  by (simp add: hi_ok_def mask_eq_exp_minus_1)

lemma decode_varint_encode [codec_simps]: "decode_varint (encode_varint v @ rest) = Inr (v, rest)"
  using decode_encode_loop [OF hi_ok_varint, of 0 v _ 0 rest] unsigned_less [of v]
  by (simp add: decode_varint_def encode_varint_def)

lemma decode_varlong_encode [codec_simps]: "decode_varlong (encode_varlong v @ rest) = Inr (v, rest)"
  using decode_encode_loop [OF hi_ok_varlong, of 0 v _ 0 rest] unsigned_less [of v]
  by (simp add: decode_varlong_def encode_varlong_def)

section \<open>Lengths\<close>

lemma length_encode_var_loop:
  "length (encode_var_loop temp) \<le> n \<longleftrightarrow> 1 \<le> n \<and> unat temp < 2 ^ (7 * n)"
proof (induction n arbitrary: temp)
  case 0
  show ?case by (subst encode_var_loop.simps) auto
next
  case (Suc n)
  show ?case
  proof (cases "unat temp < 128")
    case True
    moreover have "(128 :: nat) \<le> 2 ^ (7 * Suc n)"
      using power_increasing [of 7 "7 * Suc n" "2 :: nat"] by simp
    ultimately show ?thesis by (simp add: encode_var_loop_last)
  next
    case False
    have "unat temp div 2 ^ 7 < 2 ^ (7 * n) \<longleftrightarrow> unat temp < 2 ^ (7 * n) * 2 ^ 7"
      by (rule div_less_iff_less_mult) simp
    then have "unat temp div 128 < 2 ^ (7 * n) \<longleftrightarrow> unat temp < 2 ^ (7 * Suc n)"
      by (simp add: power_add mult.commute)
    moreover have "n = 0 \<Longrightarrow> \<not> unat temp < 2 ^ (7 * Suc n)"
      using False by simp
    ultimately show ?thesis
      using False Suc.IH [of "drop_bit 7 temp"]
      by (cases n) (auto simp: encode_var_loop_more unat_drop_bit_7)
  qed
qed

lemma encode_var_loop_not_Nil [simp]: "encode_var_loop temp \<noteq> []"
  by (subst encode_var_loop.simps) simp

lemma length_encode_varint: "length (encode_varint v) = varint_size v"
proof -
  have le: "length (encode_varint v) \<le> n \<longleftrightarrow> 1 \<le> n \<and> unat v < 2 ^ (7 * n)" for n
    by (simp add: encode_varint_def length_encode_var_loop)
  have "unat v < 2 ^ LENGTH(32)"
    by (rule unsigned_less)
  then have "unat v < 2 ^ 35"
    by simp
  then show ?thesis
    using le [of 0] le [of 1] le [of 2] le [of 3] le [of 4] le [of 5]
    unfolding varint_size_def word_le_nat_alt
    by (cases "length (encode_varint v)") (simp_all, presburger)
qed

lemma varint_size_bounds: "1 \<le> varint_size v" "varint_size v \<le> 5"
  by (auto simp: varint_size_def)

lemma encode_varint_0 [simp]: "encode_varint 0 = [0]"
  by (simp add: encode_varint_def encode_var_loop_last)

lemma decode_varint_0 [codec_simps]: "decode_varint (0 # rest) = Inr (0, rest)"
  using decode_varint_encode [of 0 rest] by simp

text \<open>The last byte of an encoding of two or more bytes is not zero: the remark that
  \<^verbatim>\<open>inject_proxy_commands_into_declare_commands\<close> relies on.\<close>

lemma last_encode_var_loop:
  assumes "8 \<le> LENGTH('a::len)" and "temp \<noteq> (0 :: 'a word)"
  shows "last (encode_var_loop temp) \<noteq> 0"
  using assms(2)
proof (induction temp rule: encode_var_loop.induct)
  case (1 temp)
  show ?case
  proof (cases "unat temp < 128")
    case True
    then have "ucast ((ucast temp :: u8) AND 0x7F) = temp"
      using assms(1) by (rule last_byte)
    with "1.prems" have "(ucast temp :: u8) \<noteq> 0"
      by (metis and_zero_eq unsigned_0 bit.conj_zero_left)
    with True show ?thesis by (simp add: encode_var_loop_last)
  next
    case False
    then have "unat (drop_bit 7 temp) \<noteq> 0"
      by (simp add: unat_drop_bit_7 div_eq_0_iff)
    then have "drop_bit 7 temp \<noteq> 0" by (metis unsigned_0)
    with "1.IH" False show ?thesis
      by (simp only: encode_var_loop_more [OF False] and_not_127_eq_0_iff last.simps
          encode_var_loop_not_Nil if_False simp_thms True_implies_equals)
  qed
qed

section \<open>What the decoder consumes\<close>

lemma decode_var_loop_consumes:
  assumes "decode_var_loop eof mx hi v p k buf = Inr (v', rest)" and "k < mx"
  shows "\<exists>used. buf = used @ rest \<and> used \<noteq> [] \<and> k + length used \<le> mx"
  using assms
proof (induction buf arbitrary: v p k)
  case Nil
  then show ?case by simp
next
  case (Cons b buf)
  show ?case
  proof (cases "b AND 0x80 = 0")
    case True
    with Cons.prems have "rest = buf" by (simp add: Let_def split: if_splits)
    with Cons.prems(2) show ?thesis by (intro exI [of _ "[b]"]) simp
  next
    case False
    with Cons.prems obtain w where "k + 1 < mx"
      and "decode_var_loop eof mx hi w (p + 7) (k + 1) buf = Inr (v', rest)"
      by (auto simp: Let_def split: if_splits)
    from Cons.IH [OF this(2,1)] obtain used
      where "buf = used @ rest" "k + 1 + length used \<le> mx" by auto
    then show ?thesis by (intro exI [of _ "b # used"]) simp
  qed
qed

lemma decode_var_loop_length:
  "decode_var_loop eof mx hi v p k buf = Inr (v', rest) \<Longrightarrow> k < mx \<Longrightarrow> length rest < length buf"
  by (drule (1) decode_var_loop_consumes) auto

lemma decode_varint_length: "decode_varint buf = Inr (v, rest) \<Longrightarrow> length rest < length buf"
  unfolding decode_varint_def by (erule decode_var_loop_length) simp

lemma decode_varlong_length: "decode_varlong buf = Inr (v, rest) \<Longrightarrow> length rest < length buf"
  unfolding decode_varlong_def by (erule decode_var_loop_length) simp

section \<open>The two errors, exactly\<close>

definition continues :: "u8 \<Rightarrow> bool" where
  "continues b \<longleftrightarrow> b AND 0x80 \<noteq> 0"

lemma continues_hi:
  assumes "hi AND 0x80 = (0x80 :: u8)" and "continues b"
  shows "b AND hi \<noteq> 0"
proof
  assume "b AND hi = 0"
  then have "b AND (hi AND 0x80) = 0"
    by (simp add: and.assoc [symmetric])
  with assms show False by (simp add: continues_def)
qed

lemma decode_var_loop_eof:
  assumes "k < mx" and "hi AND 0x80 = (0x80 :: u8)"
  shows "decode_var_loop eof mx hi v p k buf = Inl (Io UnexpectedEof eof) \<longleftrightarrow>
      k + length buf < mx \<and> (\<forall>b \<in> set buf. continues b)"
  using assms(1)
proof (induction buf arbitrary: v p k)
  case Nil
  then show ?case by simp
next
  case (Cons b buf)
  then show ?case
    using continues_hi [OF assms(2), of b] by (auto simp: Let_def continues_def)
qed

lemma decode_var_loop_overflow:
  assumes "k < mx" and "hi AND 0x80 = (0x80 :: u8)"
  shows "decode_var_loop eof mx hi v p k buf = Inl VarIntOverflow \<longleftrightarrow>
      mx \<le> k + length buf \<and> (\<forall>b \<in> set (take (mx - 1 - k) buf). continues b)
      \<and> buf ! (mx - 1 - k) AND hi \<noteq> 0"
  using assms(1)
proof (induction buf arbitrary: v p k)
  case Nil
  then show ?case by simp
next
  case (Cons b buf)
  show ?case
  proof (cases "k + 1 = mx")
    case True
    then have "mx - 1 - k = 0" by simp
    with True continues_hi [OF assms(2), of b] show ?thesis
      by (auto simp: Let_def continues_def)
  next
    case False
    with Cons.prems have k: "k + 1 < mx" "mx - 1 - k = Suc (mx - 1 - (k + 1))" by auto
    with Cons.IH [of "k + 1"] show ?thesis
      by (auto simp: Let_def continues_def)
  qed
qed

lemma decode_var_loop_errors:
  "decode_var_loop eof mx hi v p k buf = Inl e \<Longrightarrow> e = Io UnexpectedEof eof \<or> e = VarIntOverflow"
  by (induction buf arbitrary: v p k) (auto simp: Let_def split: if_splits)

text \<open>Unless the buffer runs out, bytes that come later do not change the outcome.\<close>

lemma decode_var_loop_more_input:
  "decode_var_loop eof mx hi v p k buf \<noteq> Inl (Io UnexpectedEof eof) \<Longrightarrow>
   decode_var_loop eof mx hi v p k (buf @ more) =
     (case decode_var_loop eof mx hi v p k buf of Inl e \<Rightarrow> Inl e | Inr (v', rest) \<Rightarrow> Inr (v', rest @ more))"
  by (induction buf arbitrary: v p k) (auto simp: Let_def)

lemma decode_varint_cut_off:
  assumes "encode_varint v = a @ b" and "b \<noteq> []"
  shows "decode_varint a = Inl (Io UnexpectedEof (str ''unexpected end of buffer while decoding VarInt''))"
proof (rule ccontr)
  assume "\<not> ?thesis"
  then have "decode_varint (a @ b) = (case decode_varint a of Inl e \<Rightarrow> Inl e | Inr (v', rest) \<Rightarrow> Inr (v', rest @ b))"
    unfolding decode_varint_def by (rule decode_var_loop_more_input)
  moreover have "decode_varint (a @ b) = Inr (v, [])"
    using decode_varint_encode [of v "[]"] assms(1) by simp
  ultimately show False
    using assms(2) by (auto split: sum.splits)
qed

section \<open>An encoding is the shortest the decoder accepts\<close>

lemma unat_less_if_bits: "(\<And>n. m \<le> n \<Longrightarrow> \<not> bit w n) \<Longrightarrow> unat (w :: 'a::len word) < 2 ^ m"
proof -
  assume a: "\<And>n. m \<le> n \<Longrightarrow> \<not> bit w n"
  have "take_bit m w = w"
    by (rule bit_word_eqI) (use a leI in \<open>auto simp: bit_take_bit_iff\<close>)
  then have "unat w = take_bit m (unat w)"
    by (metis unsigned_take_bit_eq)
  then show ?thesis
    by (metis take_bit_nat_less_exp)
qed

lemma decode_var_loop_value:
  fixes v v' :: "'a::len word"
  assumes "decode_var_loop eof mx hi v (7 * k) k buf = Inr (v', rest)"
    and "k < mx" and "7 * (mx - 1) < LENGTH('a)" and "\<And>n. 7 * k \<le> n \<Longrightarrow> \<not> bit v n"
    and "7 * (k + (length buf - length rest)) \<le> n"
  shows "\<not> bit v' n"
  using assms(1,2,4,5)
proof (induction buf arbitrary: v k n)
  case Nil
  then show ?case by simp
next
  case (Cons b buf)
  let ?w = "v OR push_bit (7 * k) (ucast (b AND 0x7F))"
  have pos: "7 * k mod LENGTH('a) = 7 * k"
    using assms(3) Cons.prems(2) by (intro mod_less) linarith
  have w: "\<not> bit ?w n" if "7 * (k + 1) \<le> n" for n
    using that Cons.prems(3) [of n] by (auto simp: bit_simps bit_0x7F_int)
  show ?case
  proof (cases "b AND 0x80 = 0")
    case True
    with Cons.prems(1) have "rest = buf" "v' = ?w"
      by (auto simp: Let_def pos split: if_splits)
    with w Cons.prems(4) show ?thesis by simp
  next
    case False
    with Cons.prems(1,2) have k: "k + 1 < mx"
      and d: "decode_var_loop eof mx hi ?w (7 * (k + 1)) (k + 1) buf = Inr (v', rest)"
      by (auto simp: Let_def pos add.commute split: if_splits)
    have "length rest < length buf"
      using d k by (rule decode_var_loop_length)
    with Cons.prems(4) have "7 * (k + 1 + (length buf - length rest)) \<le> n" by simp
    with Cons.IH [OF d k w] show ?thesis by blast
  qed
qed

lemma decode_varint_shortest:
  assumes "decode_varint buf = Inr (v, rest)"
  shows "\<exists>used. buf = used @ rest \<and> varint_size v \<le> length used \<and> length used \<le> 5"
proof -
  from assms have d: "decode_var_loop (str ''unexpected end of buffer while decoding VarInt'') 5 0xF0
      0 (7 * 0) 0 buf = Inr (v, rest)"
    by (simp add: decode_varint_def)
  from decode_var_loop_consumes [OF d] obtain used
    where u: "buf = used @ rest" "used \<noteq> []" "length used \<le> 5" by auto
  have "unat v < 2 ^ (7 * length used)"
    by (rule unat_less_if_bits, rule decode_var_loop_value [OF d]) (auto simp: u)
  with u(2) have "length (encode_varint v) \<le> length used"
    by (simp add: encode_varint_def length_encode_var_loop Suc_le_eq)
  with u show ?thesis by (auto simp: length_encode_varint)
qed

section \<open>The contracts\<close>

interpretation varint: progress_codec encode_varint decode_varint "\<lambda>_. True"
  by unfold_locales (auto simp: codec_simps dest: decode_varint_length)

interpretation varlong: progress_codec encode_varlong decode_varlong "\<lambda>_. True"
  by unfold_locales (auto simp: codec_simps dest: decode_varlong_length)

section \<open>Properties\<close>

text \<open>C23. Decoding a VarInt that starts with an encoding gives back the encoded number and leaves exactly
  what follows it; the same holds of VarLongs. Encodings are at most 5 and 10 bytes long.\<close>

theorem varint_roundtrip:
  "decode_varint (encode_varint v @ rest) = Inr (v, rest) \<and> length (encode_varint v) \<le> 5
   \<and> decode_varlong (encode_varlong w @ rest) = Inr (w, rest) \<and> length (encode_varlong w) \<le> 10"
proof -
  have "unat w < 2 ^ LENGTH(64)" by (rule unsigned_less)
  then have "length (encode_varlong w) \<le> 10"
    by (simp add: encode_varlong_def length_encode_var_loop)
  then show ?thesis
    using varint_size_bounds(2) [of v] by (simp add: codec_simps length_encode_varint)
qed

text \<open>C24. The outcomes of \<^verbatim>\<open>decode_varint\<close> are settled by the first five bytes: it fails with
  \<^verbatim>\<open>UnexpectedEof\<close> exactly when fewer than five bytes are left and every one of them announces another,
  with \<^verbatim>\<open>VarIntOverflow\<close> exactly when four bytes announce another and the fifth has one of its upper four
  bits set, and with no other error.\<close>

theorem decode_varint_errors:
  "(decode_varint buf = Inl (Io UnexpectedEof (str ''unexpected end of buffer while decoding VarInt''))
      \<longleftrightarrow> length buf < 5 \<and> list_all continues buf)
   \<and> (decode_varint buf = Inl VarIntOverflow
      \<longleftrightarrow> 5 \<le> length buf \<and> list_all continues (take 4 buf) \<and> buf ! 4 AND 0xF0 \<noteq> 0)
   \<and> (is_ok (decode_varint buf)
      \<longleftrightarrow> decode_varint buf \<notin> {Inl VarIntOverflow,
            Inl (Io UnexpectedEof (str ''unexpected end of buffer while decoding VarInt''))})"
proof -
  have ok: "is_ok (decode_varint buf) \<longleftrightarrow> decode_varint buf \<notin> {Inl VarIntOverflow,
            Inl (Io UnexpectedEof (str ''unexpected end of buffer while decoding VarInt''))}"
    unfolding decode_varint_def
    using decode_var_loop_errors [of "str ''unexpected end of buffer while decoding VarInt''" 5 "0xF0" "0 :: i32" 0 0 buf]
    by (cases "decode_var_loop (str ''unexpected end of buffer while decoding VarInt'') 5 0xF0 (0 :: i32) 0 0 buf") auto
  show ?thesis
    unfolding ok
    by (simp add: decode_varint_def decode_var_loop_eof decode_var_loop_overflow list_all_iff)
qed

text \<open>\<^verbatim>\<open>varint_size\<close> is the length of the encoding, and no sequence of bytes the decoder accepts for a
  number is shorter than that.\<close>

theorem varint_size_is_minimal:
  "length (encode_varint v) = varint_size v
   \<and> (decode_varint buf = Inr (v, rest) \<longrightarrow>
        (\<exists>used. buf = used @ rest \<and> varint_size v \<le> length used \<and> length used \<le> 5))"
  using length_encode_varint decode_varint_shortest by blast

theorem varint_size_is_minimal_witness:
  "decode_varint [0x80, 0x00, 0x2A] = Inr (0, [0x2A])
   \<and> (\<exists>used. [0x80, 0x00, 0x2A :: u8] = used @ [0x2A] \<and> varint_size 0 \<le> length used \<and> length used \<le> 5)"
proof -
  have "decode_varint [0x80, 0x00, 0x2A] = Inr (0, [0x2A])"
    by (simp add: decode_varint_def Let_def)
  with varint_size_is_minimal [of 0 "[0x80, 0x00, 0x2A]" "[0x2A]"] show ?thesis by blast
qed

end
