(* ===== verification/Buffers.thy ===== *)
theory Buffers
  imports Varint
begin

text \<open>
  The buffer operations of the packet code: UTF-8 as \<^verbatim>\<open>std::str::from_utf8\<close> and
  \<^verbatim>\<open>String::from_utf8_lossy\<close> read it, the fixed-width fields of \<^verbatim>\<open>bytes::{Buf, BufMut}\<close> (big endian),
  and the length-prefixed fields every packet repeats: a VarInt length, a check of the bytes that are
  left, the bytes, and for strings a check that they are UTF-8. A cursor is the list of the bytes left.
\<close>

unbundle bit_operations_syntax

section \<open>UTF-8\<close>

definition is_continuation :: "u8 \<Rightarrow> bool" where
  "is_continuation b \<longleftrightarrow> 0x80 \<le> b \<and> b \<le> 0xBF"

text \<open>The range of the second byte, which excludes overlong forms, surrogates and code points above
  \<^verbatim>\<open>U+10FFFF\<close>.\<close>

definition second_ok :: "u8 \<Rightarrow> u8 \<Rightarrow> bool" where
  "second_ok b c \<longleftrightarrow>
     (if b = 0xE0 then 0xA0 \<le> c \<and> c \<le> 0xBF
      else if b = 0xED then 0x80 \<le> c \<and> c \<le> 0x9F
      else if b = 0xF0 then 0x90 \<le> c \<and> c \<le> 0xBF
      else if b = 0xF4 then 0x80 \<le> c \<and> c \<le> 0x8F
      else is_continuation c)"

text \<open>\<open>utf8_first b bs\<close>: how many bytes of \<open>bs\<close> follow \<open>b\<close> in the character it starts (\<open>Inr\<close>), or in the
  longest part of one that is cut off or broken (\<open>Inl\<close>).\<close>

definition utf8_first :: "u8 \<Rightarrow> bytes \<Rightarrow> nat + nat" where
  "utf8_first b bs =
     (if b < 0x80 then Inr 0
      else if 0xC2 \<le> b \<and> b \<le> 0xDF then
        (case bs of c # _ \<Rightarrow> if is_continuation c then Inr 1 else Inl 0 | [] \<Rightarrow> Inl 0)
      else if 0xE0 \<le> b \<and> b \<le> 0xEF then
        (case bs of c # bs' \<Rightarrow>
           if second_ok b c then (case bs' of d # _ \<Rightarrow> if is_continuation d then Inr 2 else Inl 1 | [] \<Rightarrow> Inl 1)
           else Inl 0
         | [] \<Rightarrow> Inl 0)
      else if 0xF0 \<le> b \<and> b \<le> 0xF4 then
        (case bs of c # bs' \<Rightarrow>
           if second_ok b c then
             (case bs' of d # bs'' \<Rightarrow>
                if is_continuation d then
                  (case bs'' of e # _ \<Rightarrow> if is_continuation e then Inr 3 else Inl 2 | [] \<Rightarrow> Inl 2)
                else Inl 1
              | [] \<Rightarrow> Inl 1)
           else Inl 0
         | [] \<Rightarrow> Inl 0)
      else Inl 0)"

function utf8_valid :: "bytes \<Rightarrow> bool" where
  "utf8_valid [] = True"
| "utf8_valid (b # bs) = (case utf8_first b bs of Inl _ \<Rightarrow> False | Inr n \<Rightarrow> utf8_valid (drop n bs))"
  by pat_completeness auto
termination
  by (relation "measure length") auto

text \<open>\<^verbatim>\<open>String::from_utf8_lossy\<close>: every broken part becomes one \<^verbatim>\<open>U+FFFD\<close>.\<close>

function from_utf8_lossy :: "bytes \<Rightarrow> str" where
  "from_utf8_lossy [] = []"
| "from_utf8_lossy (b # bs) =
     (case utf8_first b bs of
        Inl n \<Rightarrow> [0xEF, 0xBF, 0xBD] @ from_utf8_lossy (drop n bs)
      | Inr n \<Rightarrow> b # take n bs @ from_utf8_lossy (drop n bs))"
  by pat_completeness auto
termination
  by (relation "measure length") auto

section \<open>Fixed-width fields\<close>

definition put_u16 :: "u16 \<Rightarrow> bytes" where
  "put_u16 v = [ucast (drop_bit 8 v), ucast v]"

definition put_bool :: "bool \<Rightarrow> bytes" where
  "put_bool b = [if b then 1 else 0]"

definition put_i32 :: "i32 \<Rightarrow> bytes" where
  "put_i32 v = [ucast (drop_bit 24 v), ucast (drop_bit 16 v), ucast (drop_bit 8 v), ucast v]"

definition put_i64 :: "i64 \<Rightarrow> bytes" where
  "put_i64 v = put_i32 (ucast (drop_bit 32 v)) @ put_i32 (ucast v)"

text \<open>The readers are partial: \<^verbatim>\<open>get_u8\<close> and its relatives panic on a short buffer, so the code checks
  \<^verbatim>\<open>remaining()\<close> first. The check and the read are one function here, with the error of the check.\<close>

definition get_u8 :: "str \<Rightarrow> bytes \<Rightarrow> (u8 \<times> bytes) res" where
  "get_u8 msg buf = (case buf of b # rest \<Rightarrow> Inr (b, rest) | [] \<Rightarrow> Inl (Io UnexpectedEof msg))"

definition get_u16 :: "str \<Rightarrow> bytes \<Rightarrow> (u16 \<times> bytes) res" where
  "get_u16 msg buf =
     (case buf of a # b # rest \<Rightarrow> Inr (push_bit 8 (ucast a) OR ucast b, rest)
      | _ \<Rightarrow> Inl (Io UnexpectedEof msg))"

definition be32 :: "u8 \<Rightarrow> u8 \<Rightarrow> u8 \<Rightarrow> u8 \<Rightarrow> i32" where
  "be32 a b c d = push_bit 24 (ucast a) OR push_bit 16 (ucast b) OR push_bit 8 (ucast c) OR ucast d"

definition get_i32 :: "str \<Rightarrow> bytes \<Rightarrow> (i32 \<times> bytes) res" where
  "get_i32 msg buf =
     (case buf of a # b # c # d # rest \<Rightarrow> Inr (be32 a b c d, rest)
      | _ \<Rightarrow> Inl (Io UnexpectedEof msg))"

definition get_i64 :: "str \<Rightarrow> bytes \<Rightarrow> (i64 \<times> bytes) res" where
  "get_i64 msg buf =
     (case buf of a # b # c # d # e # f # g # h # rest \<Rightarrow>
        Inr (push_bit 32 (ucast (be32 a b c d)) OR ucast (be32 e f g h), rest)
      | _ \<Rightarrow> Inl (Io UnexpectedEof msg))"

definition get_bytes :: "str \<Rightarrow> nat \<Rightarrow> bytes \<Rightarrow> (bytes \<times> bytes) res" where
  "get_bytes msg n buf =
     (if length buf < n then Inl (Io UnexpectedEof msg) else Inr (take n buf, drop n buf))"

section \<open>Length-prefixed fields\<close>

definition put_prefixed :: "bytes \<Rightarrow> bytes" where
  "put_prefixed bs = encode_varint (usize_as_i32 (length bs)) @ bs"

text \<open>\<^verbatim>\<open>let len = decode_varint(..)?; if len < 0 || remaining < len as usize { Err }\<close>, then the slice.\<close>

definition take_prefixed :: "str \<Rightarrow> bytes \<Rightarrow> (bytes \<times> bytes) res" where
  "take_prefixed msg buf =
     bindE (decode_varint buf) (\<lambda>(len, buf).
       if sint len < 0 \<or> length buf < i32_as_usize len then Inl (Io UnexpectedEof msg)
       else Inr (take (i32_as_usize len) buf, drop (i32_as_usize len) buf))"

definition from_utf8 :: "str \<Rightarrow> bytes \<Rightarrow> str res" where
  "from_utf8 msg bs = (if utf8_valid bs then Inr bs else Inl (Io InvalidData msg))"

definition take_string :: "str \<Rightarrow> str \<Rightarrow> bytes \<Rightarrow> (str \<times> bytes) res" where
  "take_string eof bad buf =
     bindE (take_prefixed eof buf) (\<lambda>(bs, buf). bindE (from_utf8 bad bs) (\<lambda>s. Inr (s, buf)))"

text \<open>The lengths the prefix can carry: \<^verbatim>\<open>as i32\<close> keeps lengths below \<open>2\<^sup>31\<close>.\<close>

definition fits_i32 :: "bytes \<Rightarrow> bool" where
  "fits_i32 bs \<longleftrightarrow> length bs < 2 ^ 31"

definition wf_string :: "str \<Rightarrow> bool" where
  "wf_string s \<longleftrightarrow> fits_i32 s \<and> utf8_valid s"

definition wf_uuid :: "uuid \<Rightarrow> bool" where
  "wf_uuid u \<longleftrightarrow> length u = 16"

section \<open>Facts about UTF-8\<close>

lemma utf8_first_Inr_le: "utf8_first b bs = Inr n \<Longrightarrow> n \<le> length bs"
  by (auto simp: utf8_first_def split: if_splits list.splits)

lemma utf8_first_Inl_le: "utf8_first b bs = Inl n \<Longrightarrow> n \<le> length bs"
  by (auto simp: utf8_first_def split: if_splits list.splits)

lemma utf8_first_append: "utf8_first b bs = Inr n \<Longrightarrow> utf8_first b (bs @ cs) = Inr n"
  by (auto simp: utf8_first_def split: if_splits list.splits)

lemma utf8_first_take: "utf8_first b bs = Inr n \<Longrightarrow> utf8_first b (take n bs) = Inr n"
  by (auto simp: utf8_first_def split: if_splits list.splits)

lemma utf8_valid_append: "utf8_valid xs \<Longrightarrow> utf8_valid ys \<Longrightarrow> utf8_valid (xs @ ys)"
proof (induction xs rule: utf8_valid.induct)
  case 1
  then show ?case by simp
next
  case (2 b bs)
  from "2.prems"(1) obtain n where n: "utf8_first b bs = Inr n" "utf8_valid (drop n bs)"
    by (auto split: sum.splits)
  then have "utf8_valid (drop n bs @ ys)"
    using "2.IH" "2.prems"(2) by blast
  then show ?case
    using utf8_first_Inr_le [OF n(1)] utf8_first_append [OF n(1), of ys] by simp
qed

lemma utf8_first_ascii: "b < 0x80 \<Longrightarrow> utf8_first b bs = Inr 0"
  by (simp add: utf8_first_def)

lemma utf8_valid_ascii: "\<forall>b \<in> set bs. b < 0x80 \<Longrightarrow> utf8_valid bs"
  by (induction bs) (auto simp: utf8_first_ascii)

lemma from_utf8_lossy_valid: "utf8_valid (from_utf8_lossy bs)"
proof (induction bs rule: from_utf8_lossy.induct)
  case 1
  show ?case by simp
next
  case (2 b bs)
  show ?case
  proof (cases "utf8_first b bs")
    case (Inl n)
    have "utf8_valid ([0xEF, 0xBF, 0xBD] @ from_utf8_lossy (drop n bs))"
      using "2.IH"(1) [OF Inl] by (intro utf8_valid_append) (simp_all add: utf8_first_def second_ok_def is_continuation_def)
    with Inl show ?thesis by simp
  next
    case (Inr n)
    have "utf8_first b (take n bs) = Inr n"
      using Inr by (rule utf8_first_take)
    then have "utf8_valid (b # take n bs)"
      using utf8_first_Inr_le [OF Inr] by simp
    then have "utf8_valid ((b # take n bs) @ from_utf8_lossy (drop n bs))"
      using "2.IH"(2) [OF Inr] by (rule utf8_valid_append)
    with Inr show ?thesis by simp
  qed
qed

lemma from_utf8_lossy_id: "utf8_valid bs \<Longrightarrow> from_utf8_lossy bs = bs"
  by (induction bs rule: utf8_valid.induct) (auto split: sum.splits)

lemma ascii_char_less: "k < 128 \<Longrightarrow> (word_of_nat k :: u8) < 0x80"
  by (simp add: word_less_nat_alt unat_of_nat)

section \<open>Field contracts\<close>

lemma get_u8_Cons [simp, codec_simps]: "get_u8 msg (b # rest) = Inr (b, rest)"
  by (simp add: get_u8_def)

lemma get_u8_put_bool [codec_simps]: "get_u8 msg (put_bool b @ rest) = Inr (if b then 1 else 0, rest)"
  by (simp add: put_bool_def)

lemma put_u16_recombine: "push_bit 8 (ucast (ucast (drop_bit 8 v) :: u8)) OR ucast (ucast v :: u8) = (v :: u16)"
  by (rule bit_word_eqI) (auto simp: bit_simps)

lemma get_u16_put [codec_simps]: "get_u16 msg (put_u16 v @ rest) = Inr (v, rest)"
  by (simp add: get_u16_def put_u16_def put_u16_recombine)

lemma be32_recombine: "be32 (ucast (drop_bit 24 v)) (ucast (drop_bit 16 v)) (ucast (drop_bit 8 v)) (ucast v) = v"
proof (rule bit_word_eqI)
  fix n
  assume "n < LENGTH(32)"
  then consider "n < 8" | "8 \<le> n \<and> n < 16" | "16 \<le> n \<and> n < 24" | "24 \<le> n \<and> n < 32"
    by fastforce
  then show "bit (be32 (ucast (drop_bit 24 v)) (ucast (drop_bit 16 v)) (ucast (drop_bit 8 v)) (ucast v)) n = bit v n"
    unfolding be32_def by cases (auto simp: bit_simps)
qed

lemma get_i32_put [codec_simps]: "get_i32 msg (put_i32 v @ rest) = Inr (v, rest)"
  by (simp add: get_i32_def put_i32_def be32_recombine)

lemma put_i64_recombine: "push_bit 32 (ucast (ucast (drop_bit 32 v) :: i32)) OR ucast (ucast v :: i32) = (v :: i64)"
  by (rule bit_word_eqI) (auto simp: bit_simps)

lemma get_i64_put [codec_simps]: "get_i64 msg (put_i64 v @ rest) = Inr (v, rest)"
  by (simp add: get_i64_def put_i64_def put_i32_def be32_recombine put_i64_recombine)

lemma get_bytes_append [codec_simps]: "length bs = n \<Longrightarrow> get_bytes msg n (bs @ rest) = Inr (bs, rest)"
  by (auto simp: get_bytes_def)

lemma take_prefixed_put [codec_simps]:
  "fits_i32 bs \<Longrightarrow> take_prefixed msg (put_prefixed bs @ rest) = Inr (bs, rest)"
  by (simp add: take_prefixed_def put_prefixed_def fits_i32_def codec_simps cast_simps)

lemma take_string_put [codec_simps]:
  "wf_string s \<Longrightarrow> take_string eof bad (put_prefixed s @ rest) = Inr (s, rest)"
  by (simp add: take_string_def wf_string_def from_utf8_def codec_simps)

lemma take_prefixed_progress: "take_prefixed msg buf = Inr (bs, rest) \<Longrightarrow> length rest < length buf"
  by (auto simp: take_prefixed_def bindE_eq_Inr_iff split: if_splits dest!: decode_varint_length)

lemma take_string_progress: "take_string eof bad buf = Inr (s, rest) \<Longrightarrow> length rest < length buf"
  by (auto simp: take_string_def bindE_eq_Inr_iff dest!: take_prefixed_progress)

lemma take_string_valid: "take_string eof bad buf = Inr (s, rest) \<Longrightarrow> utf8_valid s"
  by (auto simp: take_string_def bindE_eq_Inr_iff from_utf8_def split: if_splits)

lemma get_u16_progress: "get_u16 msg buf = Inr (v, rest) \<Longrightarrow> length rest < length buf"
  by (auto simp: get_u16_def split: list.splits)

lemma get_i32_progress: "get_i32 msg buf = Inr (v, rest) \<Longrightarrow> length rest < length buf"
  by (auto simp: get_i32_def split: list.splits)

lemma get_i64_progress: "get_i64 msg buf = Inr (v, rest) \<Longrightarrow> length rest < length buf"
  by (auto simp: get_i64_def split: list.splits)

interpretation u16_field: progress_codec put_u16 "get_u16 msg" "\<lambda>_. True"
  by unfold_locales (auto simp: codec_simps dest: get_u16_progress)

interpretation i32_field: progress_codec put_i32 "get_i32 msg" "\<lambda>_. True"
  by unfold_locales (auto simp: codec_simps dest: get_i32_progress)

interpretation i64_field: progress_codec put_i64 "get_i64 msg" "\<lambda>_. True"
  by unfold_locales (auto simp: codec_simps dest: get_i64_progress)

interpretation prefixed_field: progress_codec put_prefixed "take_prefixed msg" fits_i32
  by unfold_locales (auto simp: codec_simps dest: take_prefixed_progress)

interpretation string_field: progress_codec put_prefixed "take_string eof bad" wf_string
  by unfold_locales (auto simp: codec_simps dest: take_string_progress)

end
