(* ===== verification/Text.thy ===== *)
theory Text
  imports Buffers
begin

text \<open>
  String operations of the standard library on UTF-8 bytes: \<^verbatim>\<open>trim\<close> (with the Unicode white space characters, in
  their UTF-8 form), \<^verbatim>\<open>contains\<close> on lists of strings, and joining.
\<close>

definition whitespace_chars :: "str list" where
  "whitespace_chars =
     [[0x09], [0x0A], [0x0B], [0x0C], [0x0D], [0x20], [0xC2, 0x85], [0xC2, 0xA0], [0xE1, 0x9A, 0x80],
      [0xE2, 0x80, 0x80], [0xE2, 0x80, 0x81], [0xE2, 0x80, 0x82], [0xE2, 0x80, 0x83], [0xE2, 0x80, 0x84],
      [0xE2, 0x80, 0x85], [0xE2, 0x80, 0x86], [0xE2, 0x80, 0x87], [0xE2, 0x80, 0x88], [0xE2, 0x80, 0x89],
      [0xE2, 0x80, 0x8A], [0xE2, 0x80, 0xA8], [0xE2, 0x80, 0xA9], [0xE2, 0x80, 0xAF], [0xE2, 0x81, 0x9F],
      [0xE3, 0x80, 0x80]]"

text \<open>Remove prefixes from a set of non-empty strings as long as there is one.\<close>

function strip_all :: "str list \<Rightarrow> str \<Rightarrow> str" where
  "strip_all ws s =
     (case find (\<lambda>w. w \<noteq> [] \<and> starts_with s w) ws of
        None \<Rightarrow> s
      | Some w \<Rightarrow> strip_all ws (drop (length w) s))"
  by pat_completeness auto
termination
  by (relation "measure (\<lambda>(ws, s). length s)") (auto simp: find_Some_iff starts_with_iff)

declare strip_all.simps [simp del]

definition trim_start :: "str \<Rightarrow> str" where
  "trim_start s = strip_all whitespace_chars s"

definition trim_end :: "str \<Rightarrow> str" where
  "trim_end s = rev (strip_all (map rev whitespace_chars) (rev s))"

definition trim :: "str \<Rightarrow> str" where
  "trim s = trim_end (trim_start s)"

section \<open>Facts\<close>

lemma strip_all_suffix: "\<exists>p. s = p @ strip_all ws s"
proof (induction ws s rule: strip_all.induct)
  case (1 ws s)
  show ?case
  proof (cases "find (\<lambda>w. w \<noteq> [] \<and> starts_with s w) ws")
    case None
    then show ?thesis by (subst strip_all.simps) simp
  next
    case (Some w)
    then have "starts_with s w" by (auto simp: find_Some_iff)
    then obtain r where r: "s = w @ r" by (auto simp: starts_with_iff)
    from "1.IH" [OF Some] obtain p where "r = p @ strip_all ws r" using r by auto
    with Some r show ?thesis by (subst strip_all.simps) (auto intro: exI [of _ "w @ p"])
  qed
qed

lemma strip_all_done: "w \<in> set ws \<Longrightarrow> w \<noteq> [] \<Longrightarrow> \<not> starts_with (strip_all ws s) w"
proof (induction ws s rule: strip_all.induct)
  case (1 ws s)
  show ?case
  proof (cases "find (\<lambda>w. w \<noteq> [] \<and> starts_with s w) ws")
    case None
    with "1.prems" have "\<not> starts_with s w" by (auto simp: find_None_iff)
    with None show ?thesis by (subst strip_all.simps) simp
  next
    case (Some w')
    from "1.IH" [OF Some "1.prems"] Some show ?thesis by (subst strip_all.simps) simp
  qed
qed

lemma strip_all_id: "(\<And>w. w \<in> set ws \<Longrightarrow> w \<noteq> [] \<Longrightarrow> \<not> starts_with s w) \<Longrightarrow> strip_all ws s = s"
  by (subst strip_all.simps) (auto split: option.split simp: find_Some_iff)

lemma trim_infix: "\<exists>p q. s = p @ trim s @ q"
proof -
  obtain p where p: "s = p @ trim_start s"
    using strip_all_suffix [of s whitespace_chars] by (auto simp: trim_start_def)
  obtain q where "rev (trim_start s) = q @ strip_all (map rev whitespace_chars) (rev (trim_start s))"
    using strip_all_suffix by blast
  then have "trim_start s = trim s @ rev q"
    by (metis rev_append rev_rev_ident trim_def trim_end_def)
  with p show ?thesis by metis
qed

end
