(* ===== verification/Packet.thy ===== *)
theory Packet
  imports Buffers
begin

text \<open>
  \<^verbatim>\<open>src/src/protocol/packet.rs\<close>: the unparsed packet, its frame, and the test for the plugin channels the
  proxy keeps to itself.

  The locale \<open>packet_codec\<close> is the contract of the packet types: what a type's \<^verbatim>\<open>encode\<close> writes its
  \<^verbatim>\<open>decode\<close> reads back, and \<^verbatim>\<open>decode\<close> refuses every packet with another identifier by naming that
  identifier. Each packet type of the protocol theories interprets it.
\<close>

record raw_packet =
  rp_id :: i32
  payload :: bytes

definition RawPacket :: "i32 \<Rightarrow> bytes \<Rightarrow> raw_packet" where
  "RawPacket i p = \<lparr>rp_id = i, payload = p\<rparr>"

definition frame :: "raw_packet \<Rightarrow> bytes" where
  "frame p =
     (let id_len = varint_size (rp_id p);
          total_length = id_len + length (payload p)
      in encode_varint (usize_as_i32 total_length) @ encode_varint (rp_id p) @ payload p)"

definition is_protected_plugin_channel :: "raw_packet \<Rightarrow> bool" where
  "is_protected_plugin_channel packet =
     (case decode_varint (payload packet) of
        Inl _ \<Rightarrow> False
      | Inr (len, cursor) \<Rightarrow>
          if 0 < sint len \<and> sint len \<le> 128 \<and> i32_as_usize len \<le> length cursor then
            (let channel = take (i32_as_usize len) cursor in
             if utf8_valid channel then
               (let lower = to_ascii_lowercase channel in
                lower = str ''velocity:player_info'' \<or> lower = str ''bungeecord:main''
                \<or> lower = str ''bungee:main'' \<or> lower = str ''bungeecord'')
             else False)
          else False)"

text \<open>What the frame can carry: the length of identifier and payload is a positive \<^verbatim>\<open>i32\<close>.\<close>

definition wire_length :: "raw_packet \<Rightarrow> nat" where
  "wire_length p = varint_size (rp_id p) + length (payload p)"

lemma RawPacket_simps [simp]: "rp_id (RawPacket i p) = i" "payload (RawPacket i p) = p"
  by (simp_all add: RawPacket_def)

lemma RawPacket_eta [simp]: "RawPacket (rp_id p) (payload p) = p"
  by (simp add: RawPacket_def)

lemma RawPacket_self: "rp_id p = i \<Longrightarrow> RawPacket i (payload p) = p"
  by auto

lemma RawPacket_eq_iff [simp]: "RawPacket i p = RawPacket j q \<longleftrightarrow> i = j \<and> p = q"
  by (simp add: RawPacket_def)

lemma raw_packet_eqI: "rp_id p = rp_id q \<Longrightarrow> payload p = payload q \<Longrightarrow> p = (q :: raw_packet)"
  by (metis RawPacket_eta)

lemma frame_eq: "frame p = put_prefixed (encode_varint (rp_id p) @ payload p)"
  by (simp add: frame_def put_prefixed_def length_encode_varint Let_def)

text \<open>The contract of a packet type whose decoder accepts a set of identifiers.\<close>

locale packet_family =
  fixes encode :: "'a \<Rightarrow> raw_packet"
    and decode :: "raw_packet \<Rightarrow> 'a res"
    and accepts :: "i32 \<Rightarrow> bool"
    and wf :: "'a \<Rightarrow> bool"
  assumes encode_accepted: "accepts (rp_id (encode x))"
    and decode_encode: "wf x \<Longrightarrow> decode (encode x) = Inr x"
    and decode_refused: "\<not> accepts (rp_id p) \<Longrightarrow> decode p = Inl (InvalidPacketId (rp_id p))"
begin

lemma decode_accepted: "decode p = Inr x \<Longrightarrow> accepts (rp_id p)"
  using decode_refused [of p] by fastforce

lemma encode_inj: "wf x \<Longrightarrow> wf y \<Longrightarrow> encode x = encode y \<Longrightarrow> x = y"
  using decode_encode by (metis sum.inject(2))

end

text \<open>A packet type with one identifier.\<close>

locale packet_codec =
  fixes encode :: "'a \<Rightarrow> raw_packet"
    and decode :: "raw_packet \<Rightarrow> 'a res"
    and pid :: i32
    and wf :: "'a \<Rightarrow> bool"
  assumes encode_id: "rp_id (encode x) = pid"
    and decode_inverts: "wf x \<Longrightarrow> decode (encode x) = Inr x"
    and decode_wrong_id: "rp_id p \<noteq> pid \<Longrightarrow> decode p = Inl (InvalidPacketId (rp_id p))"

sublocale packet_codec \<subseteq> packet_family encode decode "\<lambda>i. i = pid" wf
  by unfold_locales (auto simp: encode_id decode_inverts decode_wrong_id)

context packet_codec
begin

lemma decode_id: "decode p = Inr x \<Longrightarrow> rp_id p = pid"
  by (rule decode_accepted)

lemma encode_payload_inj: "wf x \<Longrightarrow> wf y \<Longrightarrow> payload (encode x) = payload (encode y) \<Longrightarrow> x = y"
  by (intro encode_inj raw_packet_eqI) (simp_all add: encode_id)

end

section \<open>Protected channels\<close>

definition protected_channels :: "str set" where
  "protected_channels = {str ''velocity:player_info'', str ''bungeecord:main'', str ''bungee:main'', str ''bungeecord''}"

lemma protected_names_valid: "c \<in> protected_channels \<Longrightarrow> utf8_valid c \<and> c \<noteq> [] \<and> length c \<le> 128"
  by (auto simp: protected_channels_def str_def utf8_first_def of_char_def)

lemma ascii_lower_ge: "0x80 \<le> ascii_lower b \<longleftrightarrow> 0x80 \<le> b"
proof (cases "is_ascii_upper b")
  case True
  then have u: "0x41 \<le> unat b" "unat b \<le> 0x5A"
    by (auto simp: is_ascii_upper_def word_le_nat_alt)
  then have "unat (b + 0x20) = unat b + 0x20"
    by (subst unat_add_lem [THEN iffD1]) auto
  with True u show ?thesis by (simp add: ascii_lower_def word_le_nat_alt)
qed (simp add: ascii_lower_def)

lemma to_ascii_lowercase_ascii:
  assumes "list_all (\<lambda>b. b < 0x80) (to_ascii_lowercase s)"
  shows "utf8_valid s"
proof (rule utf8_valid_ascii)
  show "\<forall>b \<in> set s. b < 0x80"
    using assms ascii_lower_ge by (auto simp: to_ascii_lowercase_def list_all_iff not_le [symmetric])
qed

lemma protected_names_ascii: "c \<in> protected_channels \<Longrightarrow> list_all (\<lambda>b. b < 0x80) c"
  by (auto simp: protected_channels_def str_def of_char_def)

lemma is_protected_put_prefixed:
  assumes "fits_i32 c"
  shows "is_protected_plugin_channel (RawPacket i (put_prefixed c @ rest)) \<longleftrightarrow>
      to_ascii_lowercase c \<in> protected_channels"
proof -
  have len: "length c < 2 ^ 31" using assms by (simp add: fits_i32_def)
  have low: "length (to_ascii_lowercase c) = length c" by (simp add: to_ascii_lowercase_def)
  have "utf8_valid c \<and> c \<noteq> [] \<and> length c \<le> 128" if "to_ascii_lowercase c \<in> protected_channels"
    using that protected_names_valid [OF that] to_ascii_lowercase_ascii protected_names_ascii [OF that] low
    by auto
  then show ?thesis
    using len by (auto simp: is_protected_plugin_channel_def put_prefixed_def codec_simps cast_simps
        Let_def protected_channels_def)
qed

end
