(* ===== verification/Connection.thy ===== *)
theory Connection
  imports Packet
begin

text \<open>
  A connection as the proxy code sees it through \<^verbatim>\<open>AsyncRead\<close> and \<^verbatim>\<open>AsyncWrite\<close>, and the reads of
  \<^verbatim>\<open>src/src/protocol/varint.rs\<close> that go through it.

  A \<open>conn\<close> holds the bytes the peer has sent and the code has not read (\<open>inb\<close>), what comes after them
  (\<open>in_end\<close>: nothing for ever, the end of the stream, or an error), the bytes written so far (\<open>outb\<close>) and
  the fate of the next writes (\<open>wfate\<close>; when the list is used up, writes succeed). An operation returns
  its result and the connection; the result \<open>None\<close> says that it waits for ever, with the connection
  as the wait leaves it, so that a surrounding \<^verbatim>\<open>timeout\<close> or \<^verbatim>\<open>select!\<close> that drops the operation goes on
  from there.
\<close>

unbundle bit_operations_syntax

named_theorems stream_simps \<open>stream operations on connections whose next bytes are known\<close>

datatype in_end = Silent | Eof | Broken io_kind str
datatype wfate = Accept | Fail nat io_kind str | Stall nat

record conn =
  inb :: bytes
  in_end :: in_end
  outb :: bytes
  wfate :: "wfate list"

type_synonym 'a io = "conn \<Rightarrow> 'a res option \<times> conn"

definition returnS :: "'a \<Rightarrow> 's \<Rightarrow> 'a res option \<times> 's" where
  "returnS x c = (Some (Inr x), c)"

definition failS :: "proxy_error \<Rightarrow> 's \<Rightarrow> 'a res option \<times> 's" where
  "failS e c = (Some (Inl e), c)"

text \<open>Sequencing with the \<^verbatim>\<open>?\<close> operator.\<close>

definition bindS ::
  "('s \<Rightarrow> 'a res option \<times> 's) \<Rightarrow> ('a \<Rightarrow> 's \<Rightarrow> 'b res option \<times> 's) \<Rightarrow> 's \<Rightarrow> 'b res option \<times> 's" where
  "bindS m f c =
     (case m c of
        (None, c') \<Rightarrow> (None, c')
      | (Some (Inl e), c') \<Rightarrow> (Some (Inl e), c')
      | (Some (Inr x), c') \<Rightarrow> f x c')"

text \<open>A result computed without the stream.\<close>

definition liftS :: "'a res \<Rightarrow> 's \<Rightarrow> 'a res option \<times> 's" where
  "liftS r c = (Some r, c)"

text \<open>\<^verbatim>\<open>timeout(..).await.map_err(..)??\<close>.\<close>

definition timeoutS ::
  "proxy_error \<Rightarrow> ('s \<Rightarrow> 'a res option \<times> 's) \<Rightarrow> 's \<Rightarrow> 'a res option \<times> 's" where
  "timeoutS e m c = (case m c of (None, c') \<Rightarrow> (Some (Inl e), c') | r \<Rightarrow> r)"

text \<open>\<^verbatim>\<open>let _ = ..\<close>: go on whatever the result is.\<close>

definition ignoreS :: "('s \<Rightarrow> 'a res option \<times> 's) \<Rightarrow> 's \<Rightarrow> unit res option \<times> 's" where
  "ignoreS m c = (case m c of (None, c') \<Rightarrow> (None, c') | (Some _, c') \<Rightarrow> (Some (Inr ()), c'))"

definition at_end :: "str \<Rightarrow> 'a io" where
  "at_end eof c =
     (let c' = c\<lparr>inb := []\<rparr> in
      case in_end c of
        Silent \<Rightarrow> (None, c')
      | Eof \<Rightarrow> (Some (Inl (Io UnexpectedEof eof)), c')
      | Broken k m \<Rightarrow> (Some (Inl (Io k m)), c'))"

definition u8_eof :: str where
  "u8_eof = str ''unexpected end of file''"

definition exact_eof :: str where
  "exact_eof = str ''early eof''"

definition read_u8 :: "u8 io" where
  "read_u8 c =
     (case inb c of
        b # bs \<Rightarrow> (Some (Inr b), c\<lparr>inb := bs\<rparr>)
      | [] \<Rightarrow> at_end u8_eof c)"

definition read_exact :: "nat \<Rightarrow> bytes io" where
  "read_exact n c =
     (if n \<le> length (inb c) then (Some (Inr (take n (inb c))), c\<lparr>inb := drop n (inb c)\<rparr>)
      else at_end exact_eof c)"

definition write_all :: "bytes \<Rightarrow> unit io" where
  "write_all bs c =
     (case wfate c of
        [] \<Rightarrow> (Some (Inr ()), c\<lparr>outb := outb c @ bs\<rparr>)
      | Accept # fs \<Rightarrow> (Some (Inr ()), c\<lparr>outb := outb c @ bs, wfate := fs\<rparr>)
      | Fail n k m # fs \<Rightarrow> (Some (Inl (Io k m)), c\<lparr>outb := outb c @ take n bs, wfate := fs\<rparr>)
      | Stall n # fs \<Rightarrow> (None, c\<lparr>outb := outb c @ take n bs, wfate := fs\<rparr>))"

text \<open>\<^verbatim>\<open>flush\<close> of a TCP stream has nothing to do and succeeds.\<close>

definition flush :: "unit io" where
  "flush c = returnS () c"

section \<open>Reading variable-length integers\<close>

function read_var_loop :: "nat \<Rightarrow> u8 \<Rightarrow> 'a::len word \<Rightarrow> nat \<Rightarrow> nat \<Rightarrow> conn \<Rightarrow> 'a word res option \<times> conn" where
  "read_var_loop mx hi val position bytes_read c =
     (case read_u8 c of
        (None, c') \<Rightarrow> (None, c')
      | (Some (Inl e), c') \<Rightarrow> (Some (Inl e), c')
      | (Some (Inr b), c') \<Rightarrow>
          if bytes_read + 1 = mx \<and> b AND hi \<noteq> 0 then (Some (Inl VarIntOverflow), c')
          else let val' = val OR push_bit (position mod LENGTH('a)) (ucast (b AND 0x7F)) in
            if b AND 0x80 = 0 then (Some (Inr val'), c')
            else if mx \<le> bytes_read + 1 then (Some (Inl VarIntOverflow), c')
            else read_var_loop mx hi val' (position + 7) (bytes_read + 1) c')"
  by pat_completeness auto
termination
  by (relation "measure (\<lambda>(mx, hi, val, position, bytes_read, c). mx - bytes_read)") auto

declare read_var_loop.simps [simp del]

definition read_varint :: "i32 io" where
  "read_varint c = read_var_loop 5 0xF0 0 0 0 c"

definition read_varlong :: "i64 io" where
  "read_varlong c = read_var_loop 10 0xFE 0 0 0 c"

section \<open>Sequencing\<close>

lemma bindS_simps [stream_simps]:
  "m c = (None, c') \<Longrightarrow> bindS m f c = (None, c')"
  "m c = (Some (Inl e), c') \<Longrightarrow> bindS m f c = (Some (Inl e), c')"
  "m c = (Some (Inr x), c') \<Longrightarrow> bindS m f c = f x c'"
  by (simp_all add: bindS_def)

lemma bindS_returnS [simp, stream_simps]: "bindS (returnS x) f c = f x c"
  by (simp add: bindS_def returnS_def)

lemma bindS_failS [simp, stream_simps]: "bindS (failS e) f c = failS e c"
  by (simp add: bindS_def failS_def)

lemma bindS_liftS [simp, stream_simps]:
  "bindS (liftS (Inr x)) f c = f x c" "bindS (liftS (Inl e)) f c = failS e c"
  by (simp_all add: bindS_def liftS_def failS_def)

lemma bindS_eq_Inr_iff:
  "bindS m f c = (Some (Inr y), c') \<longleftrightarrow> (\<exists>x c1. m c = (Some (Inr x), c1) \<and> f x c1 = (Some (Inr y), c'))"
  by (auto simp: bindS_def split: prod.splits option.splits sum.splits)

lemma bindS_assoc: "bindS (bindS m f) g c = bindS m (\<lambda>x. bindS (f x) g) c"
  by (auto simp: bindS_def split: prod.splits option.splits sum.splits)

lemma returnS_eq [simp]: "returnS x c = (Some (Inr y), c') \<longleftrightarrow> x = y \<and> c = c'"
  by (simp add: returnS_def)

lemma failS_eq [simp]: "failS e c \<noteq> (Some (Inr y), c')" "failS e c \<noteq> (None, c')"
  by (simp_all add: failS_def)

lemma timeoutS_Some [stream_simps]: "m c = (Some r, c') \<Longrightarrow> timeoutS e m c = (Some r, c')"
  by (simp add: timeoutS_def)

lemma timeoutS_None [stream_simps]: "m c = (None, c') \<Longrightarrow> timeoutS e m c = (Some (Inl e), c')"
  by (simp add: timeoutS_def)

text \<open>An operation under a timeout always returns.\<close>

lemma timeoutS_returns: "fst (timeoutS e m c) \<noteq> None"
  by (auto simp: timeoutS_def split: prod.splits option.splits)

section \<open>The stream reads what the buffer decoder decodes\<close>

lemma conn_inb_self [simp]: "c\<lparr>inb := inb c\<rparr> = c"
  by (cases c) simp

lemma read_var_loop_decode:
  assumes "k < mx" and "hi AND 0x80 = (0x80 :: u8)"
  shows "read_var_loop mx hi v p k c =
     (case decode_var_loop eof mx hi v p k (inb c) of
        Inr (v', rest) \<Rightarrow> (Some (Inr v'), c\<lparr>inb := rest\<rparr>)
      | Inl VarIntOverflow \<Rightarrow> (Some (Inl VarIntOverflow), c\<lparr>inb := drop (mx - k) (inb c)\<rparr>)
      | Inl _ \<Rightarrow> at_end u8_eof c)"
  using assms(1)
proof (induction "inb c" arbitrary: c v p k)
  case Nil
  then have e: "inb c = []" by simp
  show ?case
    by (subst read_var_loop.simps) (simp add: read_u8_def e at_end_def Let_def split: in_end.splits)
next
  case (Cons b bs)
  then have inb: "inb c = b # bs" by simp
  have at: "at_end u8_eof (c\<lparr>inb := bs\<rparr>) = (at_end u8_eof c :: 'x res option \<times> conn)"
    by (simp add: at_end_def)
  show ?case
  proof (cases "k + 1 = mx")
    case True
    then show ?thesis
      using continues_hi [OF assms(2), of b]
      unfolding inb by (subst read_var_loop.simps) (auto simp: read_u8_def inb Let_def continues_def)
  next
    case False
    with Cons.prems have k: "k + 1 < mx" "mx - k = Suc (mx - (k + 1))" by auto
    show ?thesis
      using Cons.hyps(1) [of "c\<lparr>inb := bs\<rparr>" "k + 1"] k False
      unfolding inb by (subst read_var_loop.simps) (simp add: read_u8_def inb Let_def at split: sum.split proxy_error.split)
  qed
qed

lemma read_varint_decode:
  "read_varint c =
     (case decode_varint (inb c) of
        Inr (v, rest) \<Rightarrow> (Some (Inr v), c\<lparr>inb := rest\<rparr>)
      | Inl VarIntOverflow \<Rightarrow> (Some (Inl VarIntOverflow), c\<lparr>inb := drop 5 (inb c)\<rparr>)
      | Inl _ \<Rightarrow> at_end u8_eof c)"
  unfolding read_varint_def decode_varint_def
  by (subst read_var_loop_decode [where eof = "str ''unexpected end of buffer while decoding VarInt''"])
     (simp_all split: sum.split proxy_error.split)

lemma read_varlong_decode:
  "read_varlong c =
     (case decode_varlong (inb c) of
        Inr (v, rest) \<Rightarrow> (Some (Inr v), c\<lparr>inb := rest\<rparr>)
      | Inl VarIntOverflow \<Rightarrow> (Some (Inl VarIntOverflow), c\<lparr>inb := drop 10 (inb c)\<rparr>)
      | Inl _ \<Rightarrow> at_end u8_eof c)"
  unfolding read_varlong_def decode_varlong_def
  by (subst read_var_loop_decode [where eof = "str ''unexpected end of buffer while decoding VarLong''"])
     (simp_all split: sum.split proxy_error.split)

lemma read_varint_encode [stream_simps]:
  "inb c = encode_varint v @ rest \<Longrightarrow> read_varint c = (Some (Inr v), c\<lparr>inb := rest\<rparr>)"
  by (simp add: read_varint_decode codec_simps)

lemma read_exact_append [stream_simps]:
  "inb c = bs @ rest \<Longrightarrow> length bs = n \<Longrightarrow> read_exact n c = (Some (Inr bs), c\<lparr>inb := rest\<rparr>)"
  by (auto simp: read_exact_def)

section \<open>What the operations keep\<close>

text \<open>Reading never touches what was written, and consumes a prefix of what was there to read.\<close>

definition reads_only :: "'a io \<Rightarrow> bool" where
  "reads_only m \<longleftrightarrow> (\<forall>c. outb (snd (m c)) = outb c \<and> wfate (snd (m c)) = wfate c
      \<and> in_end (snd (m c)) = in_end c \<and> (\<exists>used. inb c = used @ inb (snd (m c))))"

lemma reads_only_read_exact: "reads_only (read_exact n)"
  by (auto simp: reads_only_def read_exact_def at_end_def Let_def split: in_end.splits)

lemma reads_only_read_varint: "reads_only read_varint"
  unfolding reads_only_def
proof
  fix c
  show "outb (snd (read_varint c)) = outb c \<and> wfate (snd (read_varint c)) = wfate c \<and>
      in_end (snd (read_varint c)) = in_end c \<and> (\<exists>used. inb c = used @ inb (snd (read_varint c)))"
    using decode_varint_shortest [of "inb c"]
    by (auto simp: read_varint_decode at_end_def Let_def split: sum.splits prod.splits proxy_error.splits in_end.splits)
qed

lemma reads_only_bindS: "reads_only m \<Longrightarrow> (\<And>x. reads_only (f x)) \<Longrightarrow> reads_only (bindS m f)"
  unfolding reads_only_def bindS_def
  by (auto split: prod.splits option.splits sum.splits) (metis append_assoc snd_conv)+

lemma reads_only_liftS: "reads_only (liftS r)"
  by (simp add: reads_only_def liftS_def)

lemma reads_only_failS: "reads_only (failS e)"
  by (simp add: reads_only_def failS_def)

lemma reads_only_if: "(b \<Longrightarrow> reads_only m) \<Longrightarrow> (\<not> b \<Longrightarrow> reads_only m') \<Longrightarrow> reads_only (if b then m else m')"
  by simp

lemmas reads_only_intros = reads_only_bindS reads_only_liftS reads_only_failS reads_only_if
  reads_only_read_varint reads_only_read_exact

text \<open>Writing never touches what is there to read.\<close>

lemma write_all_keeps: "inb (snd (write_all bs c)) = inb c" "in_end (snd (write_all bs c)) = in_end c"
  by (auto simp: write_all_def split: list.splits wfate.splits)

lemma write_all_ok [stream_simps]:
  "wfate c = [] \<Longrightarrow> write_all bs c = (Some (Inr ()), c\<lparr>outb := outb c @ bs\<rparr>)"
  by (simp add: write_all_def)

lemma write_all_prefix: "\<exists>n. outb (snd (write_all bs c)) = outb c @ take n bs"
  by (auto simp: write_all_def intro: exI [of _ "length bs"] split: list.splits wfate.splits)

end
