(* ===== verification/Codec.thy ===== *)
theory Codec
  imports Connection
begin

text \<open>
  \<^verbatim>\<open>src/src/network/codec.rs\<close>: packets on a connection, with and without zlib compression, and the two packet
  types declared there.

  Zlib (the \<^verbatim>\<open>flate2\<close> crate) is a parameter: \<open>z_compress\<close> is what \<^verbatim>\<open>ZlibEncoder\<close> produces, \<open>z_inflate\<close> the
  bytes a \<^verbatim>\<open>ZlibDecoder\<close> yields, with the error it ends in, if any. \<open>zlib_ok\<close> states what its documentation
  promises: compression succeeds and decoding gives the input back. The JSON text of \<^verbatim>\<open>json!({"text": s})\<close>
  (the \<^verbatim>\<open>serde_json\<close> crate) is the parameter \<open>json_text\<close>.
\<close>

record zlib =
  z_compress :: "bytes \<Rightarrow> bytes res"
  z_inflate :: "bytes \<Rightarrow> bytes \<times> (io_kind \<times> str) option"

definition zlib_ok :: "zlib \<Rightarrow> bool" where
  "zlib_ok z \<longleftrightarrow> (\<forall>bs. \<exists>cs. z_compress z bs = Inr cs \<and> z_inflate z cs = (bs, None))"

text \<open>\<^verbatim>\<open>decoder.take(limit).read_to_end(..)\<close>.\<close>

definition read_limited :: "zlib \<Rightarrow> nat \<Rightarrow> bytes \<Rightarrow> bytes res" where
  "read_limited z limit bs =
     (let (out, err) = z_inflate z bs in
      if limit \<le> length out then Inr (take limit out)
      else case err of Some (k, m) \<Rightarrow> Inl (Io k m) | None \<Rightarrow> Inr out)"

section \<open>Packet types\<close>

definition DEFAULT_MAX_PACKET_SIZE :: nat where
  "DEFAULT_MAX_PACKET_SIZE = 2097152"

record set_compression =
  sc_threshold :: i32

definition set_compression_encode :: "set_compression \<Rightarrow> raw_packet" where
  "set_compression_encode p = RawPacket 0x03 (encode_varint (sc_threshold p))"

definition set_compression_decode :: "raw_packet \<Rightarrow> set_compression res" where
  "set_compression_decode packet =
     (if rp_id packet \<noteq> 0x03 then Inl (InvalidPacketId (rp_id packet))
      else bindE (decode_varint (payload packet)) (\<lambda>(t, _). Inr \<lparr>sc_threshold = t\<rparr>))"

record disconnect =
  dc_reason :: str

definition disconnect_encode_login :: "(str \<Rightarrow> str) \<Rightarrow> disconnect \<Rightarrow> raw_packet" where
  "disconnect_encode_login json_text p = RawPacket 0x00 (put_prefixed (json_text (dc_reason p)))"

text \<open>The network NBT form of a text component: a compound with one string \<^verbatim>\<open>text\<close>. The length field has
  16 bits, and the code casts to it.\<close>

definition nbt_text :: "str \<Rightarrow> bytes" where
  "nbt_text s = [0x0A, 0x08] @ put_u16 4 @ str ''text'' @ put_u16 (usize_as_u16 (length s)) @ s @ [0x00]"

definition disconnect_encode_config :: "(str \<Rightarrow> str) \<Rightarrow> disconnect \<Rightarrow> i32 \<Rightarrow> raw_packet" where
  "disconnect_encode_config json_text p protocol_version =
     (let packet_id = (if sint protocol_version \<ge> 766 then 0x02 else 0x01) in
      if sint protocol_version \<ge> 766 then RawPacket packet_id (nbt_text (dc_reason p))
      else RawPacket packet_id (put_prefixed (json_text (dc_reason p))))"

definition disconnect_encode_play :: "(str \<Rightarrow> str) \<Rightarrow> disconnect \<Rightarrow> raw_packet" where
  "disconnect_encode_play json_text p = RawPacket 0x1B (put_prefixed (json_text (dc_reason p)))"

definition disconnect_encode_for_client :: "(str \<Rightarrow> str) \<Rightarrow> disconnect \<Rightarrow> i32 \<Rightarrow> bool \<Rightarrow> raw_packet" where
  "disconnect_encode_for_client json_text p protocol_version in_configuration_or_play =
     (if \<not> in_configuration_or_play then disconnect_encode_login json_text p
      else if sint protocol_version \<ge> 764 then disconnect_encode_config json_text p protocol_version
      else disconnect_encode_play json_text p)"

section \<open>Reading\<close>

text \<open>The loop that reads the body in chunks of at most 64 KiB.\<close>

function read_body :: "nat \<Rightarrow> bytes \<Rightarrow> conn \<Rightarrow> bytes res option \<times> conn" where
  "read_body remaining body c =
     (if remaining = 0 then (Some (Inr body), c)
      else let chunk_size = min remaining (64 * 1024) in
        case read_exact chunk_size c of
          (Some (Inr chunk), c') \<Rightarrow> read_body (remaining - chunk_size) (body @ chunk) c'
        | (Some (Inl e), c') \<Rightarrow> (Some (Inl e), c')
        | (None, c') \<Rightarrow> (None, c'))"
  by pat_completeness auto
termination
  by (relation "measure (\<lambda>(remaining, body, c). remaining)") auto

declare read_body.simps [simp del]

definition decode_id_payload :: "bytes \<Rightarrow> raw_packet res" where
  "decode_id_payload cursor = bindE (decode_varint cursor) (\<lambda>(i, rest). Inr (RawPacket i rest))"

definition decode_body :: "zlib \<Rightarrow> nat \<Rightarrow> nat option \<Rightarrow> bytes \<Rightarrow> raw_packet res" where
  "decode_body z max_size threshold cursor =
     (case threshold of
        None \<Rightarrow> decode_id_payload cursor
      | Some thresh \<Rightarrow>
          bindE (decode_varint cursor) (\<lambda>(data_length, cursor).
            if sint data_length < 0 \<or> max_size < i32_as_usize data_length
            then Inl (PacketTooLarge (i32_as_usize data_length))
            else if 0 < sint data_length \<and> i32_as_usize data_length < thresh
            then Inl (Io InvalidData (str ''Decompressed data length '' @ dec_i32 data_length
                       @ str '' is smaller than threshold '' @ dec_nat thresh))
            else if data_length = 0 then decode_id_payload cursor
            else let max_allowed = i32_as_usize data_length in
              bindE (read_limited z (max_allowed + 1) cursor) (\<lambda>decompressed.
                if length decompressed \<noteq> max_allowed
                then Inl (Io InvalidData (str ''Decompressed length mismatch: expected '' @ dec_nat max_allowed
                           @ str '' bytes, got '' @ dec_nat (length decompressed)))
                else decode_id_payload decompressed)))"

definition read_packet_with_compression :: "zlib \<Rightarrow> nat \<Rightarrow> nat option \<Rightarrow> raw_packet io" where
  "read_packet_with_compression z max_size threshold =
     bindS read_varint (\<lambda>length.
       if sint length < 0 \<or> max_size < i32_as_usize length then failS (PacketTooLarge (i32_as_usize length))
       else if length = 0 then failS (Io UnexpectedEof (str ''packet length cannot be zero''))
       else bindS (read_body (i32_as_usize length) []) (\<lambda>body. liftS (decode_body z max_size threshold body)))"

definition read_packet :: "zlib \<Rightarrow> nat \<Rightarrow> raw_packet io" where
  "read_packet z max_size = read_packet_with_compression z max_size None"

section \<open>Writing\<close>

definition encode_packet_with_compression :: "zlib \<Rightarrow> raw_packet \<Rightarrow> nat option \<Rightarrow> bytes res" where
  "encode_packet_with_compression z packet threshold =
     (case threshold of
        None \<Rightarrow>
          (let id_len = varint_size (rp_id packet);
               total_length = id_len + length (payload packet)
           in Inr (encode_varint (usize_as_i32 total_length) @ encode_varint (rp_id packet) @ payload packet))
      | Some thresh \<Rightarrow>
          (let id_len = varint_size (rp_id packet);
               uncompressed_len = id_len + length (payload packet)
           in if uncompressed_len < thresh then
                (let total_packet_len = 1 + uncompressed_len
                 in Inr (encode_varint (usize_as_i32 total_packet_len) @ encode_varint 0
                         @ encode_varint (rp_id packet) @ payload packet))
              else
                bindE (z_compress z (encode_varint (rp_id packet) @ payload packet)) (\<lambda>compressed.
                  let data_length = usize_as_i32 uncompressed_len;
                      data_len_size = varint_size data_length;
                      total_packet_len = data_len_size + length compressed
                  in Inr (encode_varint (usize_as_i32 total_packet_len) @ encode_varint data_length @ compressed))))"

definition write_packet_with_compression :: "zlib \<Rightarrow> raw_packet \<Rightarrow> nat option \<Rightarrow> unit io" where
  "write_packet_with_compression z packet threshold =
     bindS (liftS (encode_packet_with_compression z packet threshold)) (\<lambda>buf.
       bindS (write_all buf) (\<lambda>_. flush))"

definition write_packet :: "zlib \<Rightarrow> raw_packet \<Rightarrow> unit io" where
  "write_packet z packet = write_packet_with_compression z packet None"

section \<open>The chunked read is one read\<close>

lemma at_end_after_take: "n \<le> length (inb c) \<Longrightarrow> at_end m (c\<lparr>inb := drop n (inb c)\<rparr>) = at_end m c"
  by (simp add: at_end_def)

lemma read_body_eq:
  "read_body remaining body c =
     (if remaining \<le> length (inb c)
      then (Some (Inr (body @ take remaining (inb c))), c\<lparr>inb := drop remaining (inb c)\<rparr>)
      else at_end exact_eof c)"
proof (induction remaining body c rule: read_body.induct)
  case (1 remaining body c)
  show ?case
  proof (cases "remaining = 0")
    case True
    then show ?thesis by (subst read_body.simps) simp
  next
    case False
    define ch where "ch = min remaining 65536"
    have ch: "ch \<le> remaining" "0 < ch" using False by (auto simp: ch_def)
    show ?thesis
    proof (cases "ch \<le> length (inb c)")
      case True
      let ?c = "c\<lparr>inb := drop ch (inb c)\<rparr>"
      have re: "read_exact ch c = (Some (Inr (take ch (inb c))), ?c)"
        using True by (simp add: read_exact_def)
      have IH: "read_body (remaining - ch) (body @ take ch (inb c)) ?c =
          (if remaining - ch \<le> length (inb ?c)
           then (Some (Inr ((body @ take ch (inb c)) @ take (remaining - ch) (inb ?c))),
                 ?c\<lparr>inb := drop (remaining - ch) (inb ?c)\<rparr>)
           else at_end exact_eof ?c)"
        by (rule "1.IH" [OF False _ re [symmetric]]) (simp_all add: ch_def)
      have "take ch (inb c) @ take (remaining - ch) (drop ch (inb c)) = take remaining (inb c)"
        using ch by (metis le_add_diff_inverse take_add)
      moreover have "remaining - ch \<le> length (inb c) - ch \<longleftrightarrow> remaining \<le> length (inb c)"
        using True ch by linarith
      ultimately show ?thesis
        using False True ch re IH
        by (subst read_body.simps) (simp add: ch_def [symmetric] Let_def at_end_after_take)
    next
      case False
      then have "read_exact ch c = at_end exact_eof c"
        by (simp add: read_exact_def)
      with False ch \<open>remaining \<noteq> 0\<close> show ?thesis
        by (subst read_body.simps) (auto simp: ch_def [symmetric] Let_def at_end_def split: in_end.splits)
    qed
  qed
qed

section \<open>Frames\<close>

lemma frame_read:
  assumes "0 < length body" "length body \<le> max_size" "max_size < 2 ^ 31"
    and "inb c = put_prefixed body @ rest"
  shows "read_packet_with_compression z max_size thr c = liftS (decode_body z max_size thr body) (c\<lparr>inb := rest\<rparr>)"
proof -
  let ?n = "usize_as_i32 (length body)"
  have len: "length body < 2 ^ 31" using assms by simp
  have nz: "?n \<noteq> 0"
    using len assms(1) by (simp add: cast_simps)
  have rv: "read_varint c = (Some (Inr ?n), c\<lparr>inb := body @ rest\<rparr>)"
    using assms(4) by (simp add: put_prefixed_def stream_simps)
  show ?thesis
    using nz len assms(2)
    by (simp add: read_packet_with_compression_def bindS_def rv cast_simps read_body_eq)
qed

lemma decode_id_payload_encode [codec_simps]:
  "decode_id_payload (encode_varint (rp_id p) @ payload p) = Inr p"
  by (simp add: decode_id_payload_def codec_simps)

text \<open>Every frame the encoder builds is a length-prefixed body that the decoder maps back to the packet.\<close>

lemma encode_compressed_frame:
  assumes "zlib_ok z" "wire_length p \<le> max_size" "max_size < 2 ^ 31" "\<not> wire_length p < t"
  shows "\<exists>body. encode_packet_with_compression z p (Some t) = Inr (put_prefixed body) \<and> 0 < length body
      \<and> decode_body z max_size (Some t) body = Inr p"
proof -
  let ?u = "encode_varint (rp_id p) @ payload p" and ?dl = "usize_as_i32 (wire_length p)"
  obtain cs where cs: "z_compress z ?u = Inr cs" "z_inflate z cs = (?u, None)"
    using assms(1) by (auto simp: zlib_ok_def)
  have lt: "wire_length p < 2 ^ 31" using assms by simp
  then have si: "sint ?dl = int (wire_length p)" "i32_as_usize ?dl = wire_length p" by (simp_all add: cast_simps)
  have "0 < wire_length p" using varint_size_bounds(1) [of "rp_id p"] by (simp add: wire_length_def)
  then have "?dl \<noteq> 0" using lt by (simp add: cast_simps)
  moreover have "length ?u = wire_length p" by (simp add: wire_length_def length_encode_varint)
  ultimately have dec: "decode_body z max_size (Some t) (encode_varint ?dl @ cs) = Inr p"
    using assms(2,4) si cs(2) by (simp add: decode_body_def codec_simps Let_def read_limited_def)
  have "encode_packet_with_compression z p (Some t) = Inr (put_prefixed (encode_varint ?dl @ cs))"
    using assms(4) cs(1)
    by (simp add: encode_packet_with_compression_def put_prefixed_def length_encode_varint Let_def wire_length_def)
  with dec varint_size_bounds(1) [of ?dl] show ?thesis
    by (intro exI [of _ "encode_varint ?dl @ cs"]) (simp add: length_encode_varint)
qed

lemma encode_is_frame:
  assumes "zlib_ok z" "wire_length p \<le> max_size" "max_size < 2 ^ 31"
  shows "\<exists>body. encode_packet_with_compression z p thr = Inr (put_prefixed body) \<and> 0 < length body
      \<and> decode_body z max_size thr body = Inr p"
proof -
  let ?u = "encode_varint (rp_id p) @ payload p"
  have u0: "0 < length ?u"
    using varint_size_bounds(1) [of "rp_id p"] by (simp add: length_encode_varint)
  show ?thesis
  proof (cases thr)
    case None
    then show ?thesis
      using u0 by (intro exI [of _ ?u])
        (simp add: encode_packet_with_compression_def put_prefixed_def length_encode_varint decode_body_def codec_simps Let_def)
  next
    case (Some t)
    show ?thesis
    proof (cases "wire_length p < t")
      case True
      have "decode_varint (0 # ?u) = Inr (0, ?u)"
        using decode_varint_encode [of 0 ?u] by simp
      with True Some show ?thesis
        by (intro exI [of _ "encode_varint 0 @ ?u"])
           (simp add: encode_packet_with_compression_def put_prefixed_def length_encode_varint decode_body_def
              codec_simps Let_def wire_length_def cast_simps)
    next
      case False
      from encode_compressed_frame [OF assms this] Some show ?thesis by simp
    qed
  qed
qed

lemma put_prefixed_length: "length body \<le> length (put_prefixed body)"
  by (simp add: put_prefixed_def)

lemma read_packet_encoded:
  assumes "zlib_ok z" and "encode_packet_with_compression z p thr = Inr bs"
    and "wire_length p \<le> max_size" and "length bs \<le> max_size" and "max_size < 2 ^ 31"
    and "inb c = bs @ rest"
  shows "read_packet_with_compression z max_size thr c = (Some (Inr p), c\<lparr>inb := rest\<rparr>)"
proof -
  obtain body where b: "bs = put_prefixed body" "0 < length body" "decode_body z max_size thr body = Inr p"
    using encode_is_frame [OF assms(1,3,5), of thr] assms(2) by auto
  have "length body \<le> max_size"
    using assms(4) put_prefixed_length [of body] b(1) by simp
  from frame_read [OF b(2) this assms(5), of c rest z thr] show ?thesis
    using assms(6) b by (simp add: liftS_def)
qed

lemma read_packet_frame:
  assumes "wire_length p \<le> max_size" "max_size < 2 ^ 31" "inb c = frame p @ rest"
  shows "read_packet z max_size c = (Some (Inr p), c\<lparr>inb := rest\<rparr>)"
proof -
  let ?body = "encode_varint (rp_id p) @ payload p"
  have l: "length ?body = wire_length p" by (simp add: wire_length_def length_encode_varint)
  moreover have "0 < wire_length p"
    using varint_size_bounds(1) [of "rp_id p"] by (simp add: wire_length_def)
  ultimately show ?thesis
    using frame_read [of ?body max_size c rest z None] assms
    by (simp add: read_packet_def frame_eq decode_body_def codec_simps liftS_def)
qed

section \<open>Bounds\<close>

lemma decode_id_payload_length:
  assumes "decode_id_payload bs = Inr p"
  shows "wire_length p \<le> length bs"
proof -
  from assms obtain i rest where d: "decode_varint bs = Inr (i, rest)" "p = RawPacket i rest"
    by (auto simp: decode_id_payload_def bindE_eq_Inr_iff)
  from decode_varint_shortest [OF d(1)] d(2) show ?thesis
    by (auto simp: wire_length_def)
qed

lemma decode_body_length:
  assumes "decode_body z max_size thr body = Inr p" and "length body \<le> max_size"
  shows "wire_length p \<le> max_size"
proof (cases thr)
  case None
  then show ?thesis
    using assms decode_id_payload_length [of body p] by (simp add: decode_body_def)
next
  case (Some t)
  with assms obtain dl cs where d: "decode_varint body = Inr (dl, cs)"
    "\<not> sint dl < 0" "i32_as_usize dl \<le> max_size"
    and r: "if dl = 0 then decode_id_payload cs = Inr p
            else \<exists>out. length out = i32_as_usize dl \<and> decode_id_payload out = Inr p"
    by (auto simp: decode_body_def bindE_eq_Inr_iff Let_def split: if_splits)
  from decode_varint_length [OF d(1)] assms(2) d(3) r show ?thesis
    by (fastforce split: if_splits dest!: decode_id_payload_length)
qed

lemma read_packet_ok_cases:
  assumes "read_packet_with_compression z max_size thr c = (Some (Inr p), c')"
  shows "\<exists>used n. inb c = used @ inb c' \<and> length used \<le> 5 + max_size
      \<and> n \<le> max_size \<and> (\<exists>body. length body = n \<and> decode_body z max_size thr body = Inr p)"
proof -
  from assms obtain v c1 body where
      rv: "read_varint c = (Some (Inr v), c1)"
    and n: "i32_as_usize v \<le> max_size"
    and rb: "read_body (i32_as_usize v) [] c1 = (Some (Inr body), c')"
    and d: "decode_body z max_size thr body = Inr p"
    by (auto simp: read_packet_with_compression_def bindS_eq_Inr_iff liftS_def split: if_splits)
  from rv obtain rest where dv: "decode_varint (inb c) = Inr (v, rest)" "c1 = c\<lparr>inb := rest\<rparr>"
    by (auto simp: read_varint_decode at_end_def Let_def
        split: sum.splits prod.splits proxy_error.splits in_end.splits)
  from decode_varint_shortest [OF dv(1)] obtain u where u: "inb c = u @ rest" "length u \<le> 5" by auto
  from rb have b: "body = take (i32_as_usize v) rest" "c' = c1\<lparr>inb := drop (i32_as_usize v) rest\<rparr>"
      "i32_as_usize v \<le> length rest"
    by (auto simp: read_body_eq dv(2) at_end_def Let_def split: if_splits in_end.splits)
  show ?thesis
    using u b n d
    by (intro exI [of _ "u @ take (i32_as_usize v) rest"] exI [of _ "i32_as_usize v"] conjI exI [of _ body]) auto
qed

section \<open>Reading is passive\<close>

lemma reads_only_read_body: "reads_only (read_body n [])"
proof -
  have "read_body n [] = read_exact n"
    by (rule ext) (simp add: read_body_eq read_exact_def)
  then show ?thesis by (simp add: reads_only_read_exact)
qed

lemma reads_only_read_packet: "reads_only (read_packet_with_compression z max_size thr)"
  unfolding read_packet_with_compression_def
  by (intro reads_only_intros reads_only_read_body)

section \<open>Sequences of packets\<close>

fun write_packets :: "zlib \<Rightarrow> raw_packet list \<Rightarrow> nat option \<Rightarrow> unit io" where
  "write_packets z [] thr = returnS ()"
| "write_packets z (p # ps) thr = bindS (write_packet_with_compression z p thr) (\<lambda>_. write_packets z ps thr)"

fun read_packets :: "zlib \<Rightarrow> nat \<Rightarrow> nat option \<Rightarrow> nat \<Rightarrow> raw_packet list io" where
  "read_packets z mx thr 0 = returnS []"
| "read_packets z mx thr (Suc n) =
     bindS (read_packet_with_compression z mx thr) (\<lambda>p. bindS (read_packets z mx thr n) (\<lambda>ps. returnS (p # ps)))"

definition sendable :: "zlib \<Rightarrow> nat \<Rightarrow> nat option \<Rightarrow> raw_packet \<Rightarrow> bool" where
  "sendable z mx thr p \<longleftrightarrow> wire_length p \<le> mx
     \<and> (\<exists>bs. encode_packet_with_compression z p thr = Inr bs \<and> length bs \<le> mx)"

definition wire :: "zlib \<Rightarrow> nat option \<Rightarrow> raw_packet \<Rightarrow> bytes" where
  "wire z thr p = (case encode_packet_with_compression z p thr of Inr bs \<Rightarrow> bs | Inl _ \<Rightarrow> [])"

lemma sendable_wire: "sendable z mx thr p \<Longrightarrow> encode_packet_with_compression z p thr = Inr (wire z thr p)"
  by (auto simp: sendable_def wire_def)

lemma write_packet_ok:
  "sendable z mx thr p \<Longrightarrow> wfate c = [] \<Longrightarrow>
   write_packet_with_compression z p thr c = (Some (Inr ()), c\<lparr>outb := outb c @ wire z thr p\<rparr>)"
  by (simp add: write_packet_with_compression_def sendable_wire bindS_def liftS_def write_all_def flush_def returnS_def)

lemma write_packets_ok:
  "\<forall>p \<in> set ps. sendable z mx thr p \<Longrightarrow> wfate c = [] \<Longrightarrow>
   write_packets z ps thr c = (Some (Inr ()), c\<lparr>outb := outb c @ concat (map (wire z thr) ps)\<rparr>)"
proof (induction ps arbitrary: c)
  case Nil
  then show ?case by (simp add: returnS_def)
next
  case (Cons p ps)
  then have "write_packet_with_compression z p thr c = (Some (Inr ()), c\<lparr>outb := outb c @ wire z thr p\<rparr>)"
    by (intro write_packet_ok) auto
  with Cons show ?case by (simp add: bindS_def)
qed

lemma read_packets_ok:
  assumes "zlib_ok z" and "mx < 2 ^ 31"
  shows "\<forall>p \<in> set ps. sendable z mx thr p \<Longrightarrow> inb c = concat (map (wire z thr) ps) @ rest \<Longrightarrow>
   read_packets z mx thr (length ps) c = (Some (Inr ps), c\<lparr>inb := rest\<rparr>)"
proof (induction ps arbitrary: c)
  case Nil
  then have "inb c = rest" by simp
  then show ?case by (auto simp: returnS_def)
next
  case (Cons p ps)
  from Cons.prems(1) have s: "sendable z mx thr p" by simp
  then have r: "read_packet_with_compression z mx thr c =
      (Some (Inr p), c\<lparr>inb := concat (map (wire z thr) ps) @ rest\<rparr>)"
    using Cons.prems(2)
    by (intro read_packet_encoded [OF assms(1) sendable_wire [OF s] _ _ assms(2)]) (auto simp: sendable_def wire_def [of z thr p])
  show ?case
    using Cons.prems by (simp add: bindS_def r Cons.IH returnS_def)
qed

section \<open>A read that is dropped half-way\<close>

lemma read_partial_frame:
  assumes "put_prefixed body = a @ b" and "b \<noteq> []" and "inb c = a" and "in_end c = Silent"
    and "length body \<le> max_size" and "max_size < 2 ^ 31" and "0 < length body"
  shows "read_packet_with_compression z max_size thr c = (None, c\<lparr>inb := []\<rparr>)"
proof -
  let ?n = "usize_as_i32 (length body)"
  obtain us where "encode_varint ?n = a @ us \<and> us @ body = b \<or> encode_varint ?n @ us = a \<and> body = us @ b"
    using assms(1) by (auto simp: put_prefixed_def append_eq_append_conv2)
  then consider (head) b' where "encode_varint ?n = a @ b'" "b' \<noteq> []"
    | (body) a' where "a = encode_varint ?n @ a'" "body = a' @ b"
    by (cases "us = []") auto
  then show ?thesis
  proof cases
    case head
    then have "read_varint c = (None, c\<lparr>inb := []\<rparr>)"
      using assms(3,4) by (simp add: read_varint_decode decode_varint_cut_off [OF head] at_end_def)
    then show ?thesis by (simp add: read_packet_with_compression_def bindS_def)
  next
    case body
    have rv: "read_varint c = (Some (Inr ?n), c\<lparr>inb := a'\<rparr>)"
      using assms(3) body by (simp add: stream_simps)
    have len: "length body < 2 ^ 31" using assms by simp
    have "?n \<noteq> 0" "length a' < length body"
      using len assms(2,7) body(2) by (auto simp: cast_simps)
    with len assms(4,5) show ?thesis
      by (simp add: read_packet_with_compression_def bindS_def rv cast_simps read_body_eq at_end_def)
  qed
qed

section \<open>Contracts\<close>

interpretation set_compression: packet_codec set_compression_encode set_compression_decode "0x03" "\<lambda>_. True"
  by unfold_locales (simp_all add: set_compression_encode_def set_compression_decode_def
      decode_varint_encode [of _ "[]", simplified])

context packet_family
begin

text \<open>What one side writes with \<^verbatim>\<open>encode\<close> the other side reads and decodes.\<close>

lemma sent_is_received:
  assumes "zlib_ok z" and "sendable z mx thr (encode x)" and "mx < 2 ^ 31" and "wf x"
    and "inb c = wire z thr (encode x) @ rest"
  shows "bindS (read_packet_with_compression z mx thr) (\<lambda>p. liftS (decode p)) c = (Some (Inr x), c\<lparr>inb := rest\<rparr>)"
proof -
  have "read_packet_with_compression z mx thr c = (Some (Inr (encode x)), c\<lparr>inb := rest\<rparr>)"
    using assms(2) by (intro read_packet_encoded [OF assms(1) sendable_wire [OF assms(2)] _ _ assms(3,5)])
      (auto simp: sendable_def wire_def)
  then show ?thesis
    using decode_encode [OF assms(4)] by (simp add: bindS_def liftS_def)
qed

end

section \<open>The length field of an NBT string\<close>

lemma nbt_text_field:
  "drop 8 (nbt_text s) = put_u16 (usize_as_u16 (length s)) @ s @ [0]"
  by (simp add: nbt_text_def put_u16_def str_def)

lemma unat_usize_as_u16_mod: "unat (usize_as_u16 n) = n mod 65536"
  by (simp add: usize_as_u16_def unat_of_nat)

section \<open>Properties\<close>

text \<open>An instance of the zlib parameter for the witnesses: data is stored as it is.\<close>

definition stored :: zlib where
  "stored = \<lparr>z_compress = Inr, z_inflate = (\<lambda>bs. (bs, None))\<rparr>"

lemma zlib_ok_stored: "zlib_ok stored"
  by (simp add: zlib_ok_def stored_def)

text \<open>C4. Packets written one after the other with \<^verbatim>\<open>write_packet_with_compression\<close> are read by
  \<^verbatim>\<open>read_packet_with_compression\<close> with the same threshold in the same order, unchanged, and the reader stops
  exactly behind the last of them. The packets are those whose frame and uncompressed content fit the
  reader's limit.\<close>

theorem packets_written_are_read:
  assumes "zlib_ok z" and "mx < 2 ^ 31" and "\<forall>p \<in> set ps. sendable z mx thr p" and "wfate a = []"
    and "inb b = drop (length (outb a)) (outb (snd (write_packets z ps thr a))) @ rest"
  shows "fst (write_packets z ps thr a) = Some (Inr ())
    \<and> read_packets z mx thr (length ps) b = (Some (Inr ps), b\<lparr>inb := rest\<rparr>)"
  using assms(5) write_packets_ok [OF assms(3,4)] read_packets_ok [OF assms(1-3), of b rest] by simp

theorem packets_written_are_read_witness:
  "let a = \<lparr>inb = [], in_end = Eof, outb = [], wfate = []\<rparr>;
       ps = [RawPacket 0 [1, 2, 3], RawPacket 5 []]
   in fst (write_packets stored ps (Some 2) a) = Some (Inr ())
      \<and> read_packets stored 2097152 (Some 2) (length ps) (a\<lparr>inb := outb (snd (write_packets stored ps (Some 2) a))\<rparr>)
        = (Some (Inr ps), a)"
proof -
  let ?a = "\<lparr>inb = [], in_end = Eof, outb = [], wfate = []\<rparr>"
  let ?ps = "[RawPacket 0 [1, 2, 3], RawPacket 5 []]"
  let ?b = "?a\<lparr>inb := outb (snd (write_packets stored ?ps (Some 2) ?a))\<rparr>"
  have e5: "encode_varint 5 = [5]"
    by (simp add: encode_varint_def encode_var_loop_last)
  have s: "\<forall>p \<in> set ?ps. sendable stored 2097152 (Some 2) p"
    using varint_size_bounds(2)
    by (simp add: sendable_def wire_length_def encode_packet_with_compression_def Let_def stored_def varint_size_def
        length_encode_varint e5)
  have "fst (write_packets stored ?ps (Some 2) ?a) = Some (Inr ())
      \<and> read_packets stored 2097152 (Some 2) (length ?ps) ?b = (Some (Inr ?ps), ?b\<lparr>inb := []\<rparr>)"
    by (rule packets_written_are_read [OF zlib_ok_stored _ s]) (simp_all del: write_packets.simps)
  then show ?thesis by (simp del: write_packets.simps read_packets.simps add: Let_def)
qed

text \<open>C12. Whatever the peer sends and whatever zlib makes of it, a packet that is read is no longer than the
  limit, also after decompression, at most five bytes more than the limit are taken from the connection,
  and nothing is written to it.\<close>

theorem read_packet_is_bounded:
  assumes "read_packet_with_compression z max_size thr c = (Some (Inr p), c')"
  shows "wire_length p \<le> max_size \<and> outb c' = outb c
    \<and> (\<exists>used. inb c = used @ inb c' \<and> length used \<le> 5 + max_size)"
  using read_packet_ok_cases [OF assms] decode_body_length [of z max_size thr _ p]
    reads_only_read_packet [of z max_size thr] assms
  unfolding reads_only_def by (metis snd_conv)

theorem read_packet_is_bounded_witness:
  "let c = \<lparr>inb = [2, 0, 7, 9], in_end = Eof, outb = [], wfate = []\<rparr>
   in read_packet_with_compression stored 4 None c = (Some (Inr (RawPacket 0 [7])), c\<lparr>inb := [9]\<rparr>)
      \<and> wire_length (RawPacket 0 [7]) \<le> 4"
proof -
  let ?c = "\<lparr>inb = [2, 0, 7, 9], in_end = Eof, outb = [], wfate = []\<rparr>"
  have "put_prefixed [0, 7] = [2, 0, 7]"
    by (simp add: put_prefixed_def encode_varint_def encode_var_loop_last usize_as_i32_def)
  then have "read_packet_with_compression stored 4 None ?c = (Some (Inr (RawPacket 0 [7])), ?c\<lparr>inb := [9]\<rparr>)"
    using decode_varint_encode [of 0 "[7]"]
    by (subst frame_read [of "[0, 7]" _ _ "[9]"]) (simp_all add: decode_body_def decode_id_payload_def liftS_def)
  with read_packet_is_bounded [OF this] show ?thesis unfolding Let_def by blast
qed

text \<open>C25. \<^verbatim>\<open>read_packet_with_compression\<close> cannot be dropped safely: while a frame is incomplete and the peer is
  silent, the read waits with every byte of the frame that has arrived already taken from the connection.
  When a \<^verbatim>\<open>select!\<close> drops it there, those bytes are lost and the next read starts inside the frame.\<close>

theorem dropped_read_loses_bytes:
  assumes "zlib_ok z" and "sendable z mx thr p" and "mx < 2 ^ 31"
    and "wire z thr p = a @ b" and "b \<noteq> []" and "inb c = a" and "in_end c = Silent"
  shows "read_packet_with_compression z mx thr c = (None, c\<lparr>inb := []\<rparr>)"
proof -
  have w: "wire_length p \<le> mx" using assms(2) by (simp add: sendable_def)
  obtain body where b: "encode_packet_with_compression z p thr = Inr (put_prefixed body)" "0 < length body"
    using encode_is_frame [OF assms(1) w assms(3), of thr] by auto
  have "length body \<le> mx" "put_prefixed body = a @ b"
    using assms(2,4) b put_prefixed_length [of body] by (auto simp: sendable_def wire_def)
  then show ?thesis
    using read_partial_frame [of body a b c mx z thr] assms(3,5-7) b(2) by blast
qed

theorem dropped_read_loses_bytes_witness:
  "let c = \<lparr>inb = [2, 0], in_end = Silent, outb = [], wfate = []\<rparr>
   in wire stored None (RawPacket 0 [7]) = [2, 0, 7]
      \<and> read_packet_with_compression stored 100 None c = (None, c\<lparr>inb := []\<rparr>)"
proof -
  have w: "wire stored None (RawPacket 0 [7]) = [2, 0, 7]"
    by (simp add: wire_def encode_packet_with_compression_def Let_def varint_size_def encode_varint_def
        encode_var_loop_last usize_as_i32_def)
  have "sendable stored 100 None (RawPacket 0 [7])"
    using w by (simp add: sendable_def wire_def encode_packet_with_compression_def Let_def varint_size_def wire_length_def)
  from dropped_read_loses_bytes [OF zlib_ok_stored this, of "[2, 0]" "[7]"] w show ?thesis
    by (simp add: Let_def)
qed

text \<open>The 16-bit length in front of the text of an NBT disconnect reason is the length of the text
  exactly when the text is shorter than 65536 bytes; a longer text gets a length that is too small, and the
  reader of the packet takes the rest of the text for tags.\<close>

theorem nbt_text_length_field:
  "\<exists>n. get_u16 m (drop 8 (nbt_text s)) = Inr (n, s @ [0]) \<and> (unat n = length s \<longleftrightarrow> length s < 65536)"
  by (intro exI [of _ "usize_as_u16 (length s)"])
     (simp add: nbt_text_field codec_simps unat_usize_as_u16_mod mod_eq_self_iff_div_eq_0 div_eq_0_iff)

end
