(* ===== verification/Handshake.thy ===== *)
theory Handshake
  imports Codec
begin

text \<open>
  \<^verbatim>\<open>src/src/protocol/handshake.rs\<close>: the states of a connection and the packet that opens it. The lemmas give
  the round trip, the conditions under which a handshake is refused, and the host name the proxy works with.
\<close>

datatype ConnectionState = Handshake | Status | Login | Configuration | Play | Closed

record handshake_packet =
  hs_protocol_version :: i32
  hs_server_address :: str
  hs_server_port :: u16
  hs_next_state :: ConnectionState

definition next_state_of :: "i32 \<Rightarrow> ConnectionState res" where
  "next_state_of raw =
     (if raw = 1 then Inr Status else if raw = 2 then Inr Login else Inl (InvalidConnectionState raw))"

definition handshake_decode :: "raw_packet \<Rightarrow> handshake_packet res" where
  "handshake_decode packet =
     (if rp_id packet \<noteq> 0x00 then Inl (InvalidPacketId (rp_id packet))
      else
        bindE (decode_varint (payload packet)) (\<lambda>(protocol_version, cursor).
        bindE (decode_varint cursor) (\<lambda>(addr_len, cursor).
        if sint addr_len < 0 then Inl (Io InvalidData (str ''negative server_address length''))
        else let n = i32_as_usize addr_len in
        if length cursor < n then Inl (Io UnexpectedEof (str ''unexpected EOF while reading server_address''))
        else
        bindE (from_utf8 (str ''server_address is not valid UTF-8'') (take n cursor)) (\<lambda>server_address.
        bindE (get_u16 (str ''unexpected EOF while reading server_port'') (drop n cursor)) (\<lambda>(server_port, cursor).
        bindE (decode_varint cursor) (\<lambda>(next_state_raw, _).
        bindE (next_state_of next_state_raw) (\<lambda>next_state.
        Inr \<lparr>hs_protocol_version = protocol_version, hs_server_address = server_address,
             hs_server_port = server_port, hs_next_state = next_state\<rparr>)))))))"

definition next_state_val :: "ConnectionState \<Rightarrow> i32" where
  "next_state_val s = (case s of Status \<Rightarrow> 1 | Login \<Rightarrow> 2 | _ \<Rightarrow> 0)"

definition handshake_encode :: "handshake_packet \<Rightarrow> raw_packet" where
  "handshake_encode p =
     RawPacket 0x00
       (encode_varint (hs_protocol_version p) @ put_prefixed (hs_server_address p)
        @ put_u16 (hs_server_port p) @ encode_varint (next_state_val (hs_next_state p)))"

text \<open>\<^verbatim>\<open>split('\0').next()\<close>: the part before the first zero byte.\<close>

definition clean_hostname :: "handshake_packet \<Rightarrow> str" where
  "clean_hostname p = takeWhile (\<lambda>b. b \<noteq> 0) (hs_server_address p)"

definition wf_handshake :: "handshake_packet \<Rightarrow> bool" where
  "wf_handshake p \<longleftrightarrow> wf_string (hs_server_address p) \<and> hs_next_state p \<in> {Status, Login}"

lemma next_state_of_val [codec_simps]: "s \<in> {Status, Login} \<Longrightarrow> next_state_of (next_state_val s) = Inr s"
  by (auto simp: next_state_of_def next_state_val_def)

lemma next_state_of_range: "next_state_of raw = Inr s \<Longrightarrow> s \<in> {Status, Login}"
  by (auto simp: next_state_of_def split: if_splits)

lemma decode_varint_encode_end [codec_simps]: "decode_varint (encode_varint v) = Inr (v, [])"
  using decode_varint_encode [of v "[]"] by simp

interpretation handshake: packet_codec handshake_encode handshake_decode "0x00" wf_handshake
proof
  fix x
  assume "wf_handshake x"
  then show "handshake_decode (handshake_encode x) = Inr x"
    by (simp add: handshake_decode_def handshake_encode_def wf_handshake_def wf_string_def fits_i32_def
        put_prefixed_def codec_simps cast_simps from_utf8_def Let_def)
qed (simp_all add: handshake_encode_def handshake_decode_def)

lemma handshake_decode_wf:
  assumes "handshake_decode p = Inr h"
  shows "utf8_valid (hs_server_address h) \<and> hs_next_state h \<in> {Status, Login}"
  using assms
  by (auto simp: handshake_decode_def bindE_eq_Inr_iff Let_def from_utf8_def split: if_splits
      dest!: next_state_of_range)

lemma clean_hostname_no_nul: "0 \<notin> set (clean_hostname h)"
  by (auto simp: clean_hostname_def dest: set_takeWhileD)

text \<open>A handshake that is decoded names the status or the login state as the next one and has a valid
  UTF-8 address; every such handshake with an address shorter than \<open>2\<^sup>31\<close> bytes is read back from its
  encoding; any other number for the next state is refused with \<^verbatim>\<open>InvalidConnectionState\<close>.\<close>

theorem handshake_accepts:
  "(wf_handshake h \<longrightarrow> handshake_decode (handshake_encode h) = Inr h)
   \<and> (handshake_decode p = Inr h \<longrightarrow> rp_id p = 0 \<and> utf8_valid (hs_server_address h)
        \<and> hs_next_state h \<in> {Status, Login})
   \<and> (wf_string a \<longrightarrow> n \<noteq> 1 \<longrightarrow> n \<noteq> 2 \<longrightarrow>
        handshake_decode (RawPacket 0 (encode_varint v @ put_prefixed a @ put_u16 port @ encode_varint n @ rest))
          = Inl (InvalidConnectionState n))"
proof -
  have "wf_string a \<longrightarrow> n \<noteq> 1 \<longrightarrow> n \<noteq> 2 \<longrightarrow>
        handshake_decode (RawPacket 0 (encode_varint v @ put_prefixed a @ put_u16 port @ encode_varint n @ rest))
          = Inl (InvalidConnectionState n)"
    by (simp add: handshake_decode_def wf_string_def fits_i32_def put_prefixed_def codec_simps cast_simps
        from_utf8_def Let_def next_state_of_def)
  then show ?thesis
    using handshake.decode_encode handshake.decode_id handshake_decode_wf by blast
qed

theorem handshake_accepts_witness:
  "let h = \<lparr>hs_protocol_version = 765, hs_server_address = str ''localhost'', hs_server_port = 25565,
            hs_next_state = Login\<rparr>
   in wf_handshake h \<and> handshake_decode (handshake_encode h) = Inr h
      \<and> handshake_decode (RawPacket 0 (encode_varint 765 @ put_prefixed (str ''localhost'')
           @ put_u16 25565 @ encode_varint 3 @ [])) = Inl (InvalidConnectionState 3)"
proof -
  let ?h = "\<lparr>hs_protocol_version = 765, hs_server_address = str ''localhost'', hs_server_port = 25565,
            hs_next_state = Login\<rparr>"
  have "wf_string (str ''localhost'')"
    by (simp add: wf_string_def fits_i32_def str_def utf8_first_def of_char_def)
  then have "wf_handshake ?h" by (simp add: wf_handshake_def)
  with \<open>wf_string (str ''localhost'')\<close> show ?thesis
    using handshake_accepts [of ?h "handshake_encode ?h" "str ''localhost''" 3 765 25565 "[]"]
    by (simp add: Let_def)
qed

end
