(* ===== verification/Auth.thy ===== *)
theory Auth
  imports Handshake
begin

text \<open>
  \<^verbatim>\<open>src/src/crypto/mojang_auth.rs\<close>, \<^verbatim>\<open>src/src/crypto/mod.rs\<close> and \<^verbatim>\<open>constant_time_eq\<close> of
  \<^verbatim>\<open>src/src/network/listener.rs\<close>: player profiles, the server hash Mojang's session server expects, the
  session query, and the proxy's RSA keys.

  SHA-1, the HTTP client, RSA and \<^verbatim>\<open>Uuid::new_v3\<close> belong to other crates and are parameters. The lemmas show that the
  digest code computes the signed hexadecimal form of the hash read as a two's complement number, that
  percent-encoding is injective and leaves nothing with a meaning in a query, that a profile comes only from
  a successful answer with a body, and that the byte comparison is equality.
\<close>

unbundle bit_operations_syntax

section \<open>Profiles\<close>

record profile_property =
  pp_name :: str
  pp_value :: str
  pp_signature :: "str option"

record player_profile =
  pr_id :: uuid
  pr_name :: str
  pr_properties :: "profile_property list"

section \<open>The server hash\<close>

text \<open>The loop over \<^verbatim>\<open>hash.iter_mut().rev()\<close>: invert each byte and add the carry.\<close>

fun negate_loop :: "bool \<Rightarrow> bytes \<Rightarrow> bytes" where
  "negate_loop carry [] = []"
| "negate_loop carry (byte # bs) =
     (let byte = NOT byte in
      if carry then (let val = byte + 1 in val # negate_loop (val = 0) bs)
      else byte # negate_loop False bs)"

definition mojang_sha1_digest :: "(bytes \<Rightarrow> bytes) \<Rightarrow> str \<Rightarrow> bytes \<Rightarrow> bytes \<Rightarrow> str" where
  "mojang_sha1_digest sha1 server_id shared_secret public_key_der =
     (let hash = sha1 (server_id @ shared_secret @ public_key_der);
          is_negative = (hash ! 0 AND 0x80 \<noteq> 0)
      in if is_negative then
           (let hash = rev (negate_loop True (rev hash));
                trimmed = dropWhile (\<lambda>b. b = 0x30) (hex_encode hash)
            in str ''-'' @ (if trimmed = [] then str ''0'' else trimmed))
         else
           (let trimmed = dropWhile (\<lambda>b. b = 0x30) (hex_encode hash)
            in if trimmed = [] then str ''0'' else trimmed))"

section \<open>The session query\<close>

definition is_unreserved :: "u8 \<Rightarrow> bool" where
  "is_unreserved b \<longleftrightarrow> is_ascii_lower b \<or> is_ascii_upper b \<or> is_ascii_digit b
     \<or> b = 0x2D \<or> b = 0x5F \<or> b = 0x2E \<or> b = 0x7E"

definition urlencoding :: "str \<Rightarrow> str" where
  "urlencoding input =
     concat (map (\<lambda>b. if is_unreserved b then [b] else 0x25 # hex_02X (unat b)) input)"

definition DEFAULT_MOJANG_SESSION_SERVER :: str where
  "DEFAULT_MOJANG_SESSION_SERVER = str ''https://sessionserver.mojang.com/session/minecraft/hasJoined''"

text \<open>What the HTTP client returns: the request fails, or there is a status code with its text, and a body
  that is a profile in JSON or is not.\<close>

datatype http_reply = RequestFailed str | Reply nat str "str + player_profile"

definition verify_session_with_url ::
  "(str \<Rightarrow> http_reply) \<Rightarrow> str \<Rightarrow> str \<Rightarrow> str \<Rightarrow> str \<Rightarrow> player_profile res" where
  "verify_session_with_url get username server_hash client_ip endpoint_url =
     (let separator = (if 0x3F \<in> set endpoint_url then str ''&'' else str ''?'');
          url = endpoint_url @ separator @ str ''username='' @ urlencoding username
                @ str ''&serverId='' @ urlencoding server_hash
      in case get url of
           RequestFailed e \<Rightarrow> Inl (AuthenticationFailed (str ''Session server request failed: '' @ e))
         | Reply status text body \<Rightarrow>
             if status = 204 then
               Inl (AuthenticationFailed (str ''Mojang session server returned 204 No Content (unverified session)''))
             else if \<not> (200 \<le> status \<and> status < 300) then
               Inl (AuthenticationFailed (str ''Mojang session server returned HTTP status '' @ text))
             else case body of
                 Inl e \<Rightarrow> Inl (AuthenticationFailed (str ''Failed to parse session profile JSON: '' @ e))
               | Inr profile \<Rightarrow> Inr profile)"

definition verify_session :: "(str \<Rightarrow> http_reply) \<Rightarrow> str \<Rightarrow> str \<Rightarrow> str \<Rightarrow> player_profile res" where
  "verify_session get username server_hash client_ip =
     verify_session_with_url get username server_hash client_ip DEFAULT_MOJANG_SESSION_SERVER"

text \<open>\<^verbatim>\<open>Uuid::new_v3(&Uuid::NAMESPACE_OID, ..)\<close> is the parameter \<open>new_v3\<close>.\<close>

definition offline_profile :: "(bytes \<Rightarrow> uuid) \<Rightarrow> str \<Rightarrow> player_profile" where
  "offline_profile new_v3 username =
     \<lparr>pr_id = new_v3 (str ''OfflinePlayer:'' @ username), pr_name = username, pr_properties = []\<rparr>"

section \<open>RSA keys\<close>

text \<open>RSA with PKCS\#1 v1.5 padding as the \<^verbatim>\<open>rsa\<close> crate offers it: export of the public key, decryption and
  (randomised) encryption, each with the text of its error.\<close>

record 'k rsa =
  rsa_to_der :: "'k \<Rightarrow> str + bytes"
  rsa_decrypt :: "'k \<Rightarrow> bytes \<Rightarrow> str + bytes"
  rsa_encrypt :: "'k \<Rightarrow> nat \<Rightarrow> bytes \<Rightarrow> str + bytes"

record 'k rsa_key_manager =
  rk_private_key :: "'k option"
  rk_public_key_der :: bytes

definition RsaKeyManager_new :: "'k rsa \<Rightarrow> str + 'k \<Rightarrow> 'k rsa_key_manager res" where
  "RsaKeyManager_new rsa generated =
     (case generated of
        Inl e \<Rightarrow> Inl (CryptoError (str ''Failed to generate RSA keypair: '' @ e))
      | Inr k \<Rightarrow>
          (case rsa_to_der rsa k of
             Inl e \<Rightarrow> Inl (CryptoError (str ''Failed to export public key to DER: '' @ e))
           | Inr der \<Rightarrow> Inr \<lparr>rk_private_key = Some k, rk_public_key_der = der\<rparr>))"

definition RsaKeyManager_zeroize :: "'k rsa_key_manager \<Rightarrow> 'k rsa_key_manager" where
  "RsaKeyManager_zeroize m = m\<lparr>rk_public_key_der := [], rk_private_key := None\<rparr>"

definition RsaKeyManager_decrypt :: "'k rsa \<Rightarrow> 'k rsa_key_manager \<Rightarrow> bytes \<Rightarrow> bytes res" where
  "RsaKeyManager_decrypt rsa m ciphertext =
     (case rk_private_key m of
        None \<Rightarrow> Inl (CryptoError (str ''RSA private key has been zeroized''))
      | Some k \<Rightarrow>
          (case rsa_decrypt rsa k ciphertext of
             Inl e \<Rightarrow> Inl (CryptoError (str ''RSA decryption failed: '' @ e))
           | Inr p \<Rightarrow> Inr p))"

definition RsaKeyManager_encrypt :: "'k rsa \<Rightarrow> 'k rsa_key_manager \<Rightarrow> nat \<Rightarrow> bytes \<Rightarrow> bytes res" where
  "RsaKeyManager_encrypt rsa m rng plaintext =
     (case rk_private_key m of
        None \<Rightarrow> Inl (CryptoError (str ''RSA private key has been zeroized''))
      | Some k \<Rightarrow>
          (case rsa_encrypt rsa k rng plaintext of
             Inl e \<Rightarrow> Inl (CryptoError (str ''RSA encryption failed: '' @ e))
           | Inr c \<Rightarrow> Inr c))"

section \<open>Comparison in constant time\<close>

definition constant_time_eq :: "bytes \<Rightarrow> bytes \<Rightarrow> bool" where
  "constant_time_eq a b =
     (if length a \<noteq> length b then False
      else fold (\<lambda>(x, y) result. result OR (x XOR y)) (zip a b) 0 = 0)"

section \<open>Two's complement\<close>

primrec le_value :: "bytes \<Rightarrow> nat" where
  "le_value [] = 0"
| "le_value (b # bs) = unat b + 256 * le_value bs"

definition be_value :: "bytes \<Rightarrow> nat" where
  "be_value bs = le_value (rev bs)"

lemma le_value_less: "le_value bs < 256 ^ length bs"
proof (induction bs)
  case (Cons b bs)
  have "unat b < 256" using unsigned_less [of b] by simp
  moreover have "le_value bs + 1 \<le> 256 ^ length bs" using Cons by simp
  then have "256 * le_value bs + 256 \<le> 256 * 256 ^ length bs"
    by (metis mult_le_mono2 add_mult_distrib2 mult.right_neutral)
  ultimately show ?case by simp
qed simp

lemma unat_not_u8: "unat (NOT (b :: u8)) = 255 - unat b"
proof -
  have "NOT b = - 1 - b" by (simp add: not_eq_complement)
  moreover have "unat (- 1 - b) = unat (- 1 :: u8) - unat b"
    by (intro unat_sub word_n1_ge)
  ultimately show ?thesis by (simp add: unsigned_minus_1_eq_mask mask_eq_exp_minus_1)
qed

lemma negate_loop_False: "le_value (negate_loop False bs) + le_value bs + 1 = 256 ^ length bs"
proof (induction bs)
  case (Cons b bs)
  have "unat b < 256" using unsigned_less [of b] by simp
  with Cons show ?case by (simp add: Let_def unat_not_u8)
qed simp

lemma negate_loop_True:
  "le_value (negate_loop True bs) = (if le_value bs = 0 then 0 else 256 ^ length bs - le_value bs)"
proof (induction bs)
  case (Cons b bs)
  have ub: "unat b < 256" using unsigned_less [of b] by simp
  have lt: "le_value bs < 256 ^ length bs" by (rule le_value_less)
  show ?case
  proof (cases "b = 0")
    case True
    then have v: "NOT b + 1 = 0" by simp
    show ?thesis
      using Cons lt True unfolding negate_loop.simps Let_def v by auto
  next
    case False
    then have "NOT b + 1 \<noteq> 0"
      by (metis add.commute add.inverse_inverse minus_eq_not_plus_1 neg_equal_0_iff_equal)
    moreover have "unat (NOT b + 1) = 256 - unat b"
    proof -
        have "0 < unat b"
        using False by (simp add: unat_gt_0)
      then have "unat (NOT b) + unat (1 :: u8) < 2 ^ LENGTH(8)"
        using unat_not_u8 [of b] by simp
      then have "unat (NOT b + 1) = unat (NOT b) + unat (1 :: u8)"
        by (rule unat_add_lem [THEN iffD1])
      then show ?thesis
        using ub \<open>0 < unat b\<close> unat_not_u8 [of b] by simp
    qed
    ultimately show ?thesis
      using negate_loop_False [of bs] ub False lt
      by (auto simp: Let_def unat_eq_zero)
  qed
qed simp

lemma length_negate_loop [simp]: "length (negate_loop c bs) = length bs"
  by (induction bs arbitrary: c) (auto simp: Let_def)

section \<open>Hexadecimal digits\<close>

definition nibbles :: "bytes \<Rightarrow> nat list" where
  "nibbles bs = concat (map (\<lambda>b. [unat b div 16, unat b mod 16]) bs)"

definition digits_value :: "nat list \<Rightarrow> nat" where
  "digits_value ds = foldl (\<lambda>v d. 16 * v + d) 0 ds"

lemma digits_value_snoc [simp]: "digits_value (ds @ [d]) = 16 * digits_value ds + d"
  by (simp add: digits_value_def)

lemma nibbles_snoc: "nibbles (bs @ [b]) = (nibbles bs @ [unat b div 16]) @ [unat b mod 16]"
  by (simp add: nibbles_def)

lemma digits_value_nibbles: "digits_value (nibbles bs) = be_value bs"
proof (induction bs rule: rev_induct)
  case Nil
  show ?case by (simp add: digits_value_def nibbles_def be_value_def)
next
  case (snoc b bs)
  have "16 * (16 * be_value bs + unat b div 16) + unat b mod 16 = unat b + 256 * be_value bs"
    by (simp add: algebra_simps)
  with snoc show ?case
    unfolding nibbles_snoc digits_value_snoc by (simp add: be_value_def)
qed

lemma nibbles_less: "d \<in> set (nibbles bs) \<Longrightarrow> d < 16"
proof -
  have "unat (b :: u8) div 16 < 16" for b
    using unsigned_less [of b] by (intro less_mult_imp_div_less) simp
  then show "d \<in> set (nibbles bs) \<Longrightarrow> d < 16" by (auto simp: nibbles_def)
qed

lemma hex_encode_nibbles: "hex_encode bs = map digit_char (nibbles bs)"
  by (induction bs) (auto simp: hex_encode_def nibbles_def hex_byte_def)

lemma less_16_cases: "(d :: nat) < 16 \<Longrightarrow> d \<in> {0, 1, 2, 3, 4, 5, 6, 7, 8, 9, 10, 11, 12, 13, 14, 15}"
  by (simp, presburger)

lemma digit_char_zero_iff: "d < 16 \<Longrightarrow> digit_char d = 0x30 \<longleftrightarrow> d = 0"
  by (drule less_16_cases) (auto simp: digit_char_def)

lemma trimmed_digits:
  "\<forall>d \<in> set ds. d < 16 \<Longrightarrow>
   map digit_char (dropWhile (\<lambda>d. d = 0) ds) =
     (if digits_value ds = 0 then [] else radix 16 digit_char (digits_value ds))"
proof (induction ds rule: rev_induct)
  case Nil
  show ?case by (simp add: digits_value_def)
next
  case (snoc d ds)
  then have d: "d < 16" and ds: "\<forall>x \<in> set ds. x < 16" by auto
  have z: "digits_value ds = 0 \<longleftrightarrow> (\<forall>x \<in> set ds. x = 0)"
  proof -
    have "digits_value ds = 0 \<longleftrightarrow> map digit_char (dropWhile (\<lambda>d. d = 0) ds) = []"
      unfolding snoc.IH [OF ds] by simp
    then show ?thesis by (simp add: dropWhile_eq_Nil_conv)
  qed
  show ?case
  proof (cases "digits_value ds = 0")
    case True
    with z d show ?thesis by (auto simp: dropWhile_append2 radix_less)
  next
    case False
    then obtain x where x: "x \<in> set ds" "x \<noteq> 0" using z by auto
    have "radix 16 digit_char (16 * digits_value ds + d) = radix 16 digit_char (digits_value ds) @ [digit_char d]"
      using False d by (subst radix.simps) auto
    with snoc.IH [OF ds] False x show ?thesis by (simp add: dropWhile_append1)
  qed
qed

lemma dropWhile_map_digits:
  "\<forall>d \<in> set ds. d < 16 \<Longrightarrow> dropWhile (\<lambda>b. b = 0x30) (map digit_char ds) = map digit_char (dropWhile (\<lambda>d. d = 0) ds)"
  by (induction ds) (auto simp: digit_char_zero_iff)

lemma trimmed_hex:
  "dropWhile (\<lambda>b. b = 0x30) (hex_encode bs) =
     (if be_value bs = 0 then [] else radix 16 digit_char (be_value bs))"
  unfolding hex_encode_nibbles
  using nibbles_less [of _ bs] by (simp add: dropWhile_map_digits trimmed_digits digits_value_nibbles)

text \<open>The number a hash stands for, and its printed form.\<close>

definition signed_value :: "bytes \<Rightarrow> int" where
  "signed_value bs =
     (if be_value bs < 2 ^ (8 * length bs - 1) then int (be_value bs)
      else int (be_value bs) - 2 ^ (8 * length bs))"

definition signed_hex :: "int \<Rightarrow> str" where
  "signed_hex v =
     (if v < 0 then str ''-'' @ radix 16 digit_char (nat (- v)) else radix 16 digit_char (nat v))"

lemma be_value_Cons: "be_value (b # bs) = unat b * 256 ^ length bs + be_value bs"
proof -
  have "le_value (xs @ [b]) = unat b * 256 ^ length xs + le_value xs" for xs
    by (induction xs) (simp_all add: algebra_simps)
  from this [of "rev bs"] show ?thesis by (simp add: be_value_def)
qed

lemma be_value_less: "be_value bs < 256 ^ length bs"
  using le_value_less [of "rev bs"] by (simp add: be_value_def)

lemma pow_256: "(256 :: nat) ^ n = 2 ^ (8 * n)"
  by (simp add: power_mult)

lemma and_128_iff: "(b :: u8) AND 0x80 \<noteq> 0 \<longleftrightarrow> 128 \<le> unat b"
proof -
  have "- 128 = (128 :: u8)" by (rule minus_unique) simp
  then have "b AND 0x80 = b AND - 128" by (simp only:)
  then show ?thesis by (simp only: and_m128_eq_0_iff not_less)
qed

lemma sign_bit:
  assumes "bs \<noteq> []"
  shows "bs ! 0 AND 0x80 \<noteq> 0 \<longleftrightarrow> \<not> be_value bs < 2 ^ (8 * length bs - 1)"
proof -
  obtain b cs where bs: "bs = b # cs" using assms by (cases bs) auto
  have e: "8 * length bs - 1 = 7 + 8 * length cs" by (simp add: bs)
  have p: "(2 :: nat) ^ (8 * length bs - 1) = 128 * 256 ^ length cs"
    unfolding e power_add by (simp add: pow_256)
  have "be_value bs < 128 * 256 ^ length cs \<longleftrightarrow> unat b < 128"
  proof
    assume "be_value bs < 128 * 256 ^ length cs"
    then have "unat b * 256 ^ length cs < 128 * 256 ^ length cs"
      unfolding bs be_value_Cons by linarith
    then show "unat b < 128" unfolding mult_less_cancel2 by blast
  next
    assume "unat b < 128"
    then have "(unat b + 1) * 256 ^ length cs \<le> 128 * 256 ^ length cs"
      by (intro mult_le_mono1) simp
    with be_value_less [of cs] show "be_value bs < 128 * 256 ^ length cs"
      unfolding bs be_value_Cons add_mult_distrib mult_1 by linarith
  qed
  then show ?thesis unfolding p by (simp add: bs and_128_iff not_less)
qed

lemma digest_refines:
  assumes "sha1 (server_id @ secret @ der) \<noteq> []"
  shows "mojang_sha1_digest sha1 server_id secret der = signed_hex (signed_value (sha1 (server_id @ secret @ der)))"
proof -
  define h where "h = sha1 (server_id @ secret @ der)"
  let ?v = "be_value h"
  have lt: "?v < 2 ^ (8 * length h)"
    using be_value_less [of h] by (simp only: pow_256)
  show ?thesis
  proof (cases "?v < 2 ^ (8 * length h - 1)")
    case True
    then have "h ! 0 AND 0x80 = 0"
      using sign_bit [of h] assms by (auto simp: h_def)
    with True show ?thesis
      by (simp add: mojang_sha1_digest_def h_def [symmetric] Let_def trimmed_hex signed_value_def signed_hex_def
          radix_less str_def digit_char_def)
  next
    case False
    then have neg: "h ! 0 AND 0x80 \<noteq> 0"
      using sign_bit [of h] assms by (auto simp: h_def)
    have v: "?v \<noteq> 0"
      using False by (metis zero_less_numeral zero_less_power)
    have nv: "be_value (rev (negate_loop True (rev h))) = 2 ^ (8 * length h) - ?v"
      using v by (simp add: be_value_def negate_loop_True pow_256)
    moreover have "2 ^ (8 * length h) - ?v \<noteq> 0" using lt by simp
    moreover have "signed_value h = int ?v - 2 ^ (8 * length h)" "signed_value h < 0"
      using False lt by (auto simp: signed_value_def)
    moreover have "nat (- (int ?v - 2 ^ (8 * length h))) = 2 ^ (8 * length h) - ?v"
      using lt by (simp add: nat_diff_distrib' nat_power_eq)
    ultimately show ?thesis
      using neg
      by (simp add: mojang_sha1_digest_def h_def [symmetric] Let_def trimmed_hex signed_hex_def)
  qed
qed

section \<open>Percent-encoding\<close>

definition url1 :: "u8 \<Rightarrow> str" where
  "url1 b = (if is_unreserved b then [b] else 0x25 # hex_02X (unat b))"

lemma urlencoding_concat: "urlencoding s = concat (map url1 s)"
  by (simp add: urlencoding_def url1_def [abs_def])

lemma hex_02X_byte: "n < 256 \<Longrightarrow> hex_02X n = [upper_digit_char (n div 16), upper_digit_char (n mod 16)]"
proof (cases "n < 16")
  case True
  then show ?thesis
    by (simp add: hex_02X_def radix_less upper_digit_char_def str_def)
next
  case False
  assume "n < 256"
  then have "n div 16 < 16" by (intro less_mult_imp_div_less) simp
  with False show ?thesis
    by (simp add: hex_02X_def radix.simps [of 16 _ n] radix_less)
qed

lemma upper_digit_char_inj: "d < 16 \<Longrightarrow> e < 16 \<Longrightarrow> upper_digit_char d = upper_digit_char e \<Longrightarrow> d = e"
  by (drule less_16_cases, drule less_16_cases) (auto simp: upper_digit_char_def)

lemma upper_digit_char_unreserved: "d < 16 \<Longrightarrow> is_unreserved (upper_digit_char d)"
  by (drule less_16_cases) (auto simp: upper_digit_char_def is_unreserved_def is_ascii_digit_def is_ascii_upper_def)

lemma unat_u8_less: "unat (b :: u8) < 256"
  using unsigned_less [of b] by simp

lemma percent_reserved: "\<not> is_unreserved 0x25"
  by (simp add: is_unreserved_def is_ascii_lower_def is_ascii_upper_def is_ascii_digit_def)

lemma url1_prefix_free:
  assumes "url1 a @ r = url1 b @ s"
  shows "a = b \<and> r = s"
proof -
  have n: "unat c div 16 < 16" for c :: u8
    using unat_u8_less [of c] by (intro less_mult_imp_div_less) simp
  consider "is_unreserved a" "is_unreserved b" | "\<not> is_unreserved a" "\<not> is_unreserved b"
    using assms percent_reserved by (auto simp: url1_def split: if_splits)
  then show ?thesis
  proof cases
    case 1
    with assms show ?thesis by (simp add: url1_def)
  next
    case 2
    with assms have "unat a div 16 = unat b div 16" "unat a mod 16 = unat b mod 16" "r = s"
      using n upper_digit_char_inj by (auto simp: url1_def hex_02X_byte unat_u8_less)
    then have "unat a = unat b" by (metis div_mult_mod_eq)
    with \<open>r = s\<close> show ?thesis by (simp add: word_unat_eq_iff)
  qed
qed

lemma url1_not_Nil [simp]: "url1 b \<noteq> []"
  by (simp add: url1_def)

lemma urlencoding_inj: "urlencoding s = urlencoding t \<Longrightarrow> s = t"
  unfolding urlencoding_concat
proof (induction s arbitrary: t)
  case Nil
  then show ?case by (cases t) auto
next
  case (Cons a s)
  then obtain b t' where t: "t = b # t'" by (cases t) auto
  with Cons.prems have "url1 a @ concat (map url1 s) = url1 b @ concat (map url1 t')" by simp
  from url1_prefix_free [OF this] Cons.IH t show ?case by auto
qed

lemma urlencoding_chars: "c \<in> set (urlencoding s) \<Longrightarrow> is_unreserved c \<or> c = 0x25"
proof -
  have "unat b div 16 < 16" for b :: u8
    using unat_u8_less [of b] by (intro less_mult_imp_div_less) simp
  then show "c \<in> set (urlencoding s) \<Longrightarrow> is_unreserved c \<or> c = 0x25"
    by (auto simp: urlencoding_concat url1_def hex_02X_byte unat_u8_less upper_digit_char_unreserved split: if_splits)
qed

section \<open>Comparison\<close>

lemma or_eq_0_word: "(x :: u8) OR y = 0 \<longleftrightarrow> x = 0 \<and> y = 0"
  by (auto simp: or_eq_0_iff)

lemma xor_eq_0_word: "(x :: u8) XOR y = 0 \<longleftrightarrow> x = y"
  by (metis xor.right_neutral xor_self_eq xor.assoc)

lemma fold_or_xor: "fold (\<lambda>(x, y) r. r OR (x XOR y)) ps (r :: u8) = 0 \<longleftrightarrow> r = 0 \<and> (\<forall>(x, y) \<in> set ps. x = y)"
  by (induction ps arbitrary: r) (auto simp: or_eq_0_word xor_eq_0_word)

lemma constant_time_eq_iff: "constant_time_eq a b \<longleftrightarrow> a = b"
proof (cases "length a = length b")
  case True
  then have "(\<forall>(x, y) \<in> set (zip a b). x = y) \<longleftrightarrow> a = b"
    by (induction rule: list_induct2) auto
  with True show ?thesis by (simp add: constant_time_eq_def fold_or_xor)
qed (auto simp: constant_time_eq_def)

section \<open>Properties\<close>

text \<open>C27. The byte loop of \<^verbatim>\<open>mojang_sha1_digest\<close> prints the 20-byte hash, read as a signed big-endian number in
  two's complement, in hexadecimal with a minus sign for negative numbers and without leading zeros.\<close>

theorem mojang_digest_is_signed_hex:
  assumes "length (sha1 (server_id @ secret @ der)) = 20"
  shows "mojang_sha1_digest sha1 server_id secret der = signed_hex (signed_value (sha1 (server_id @ secret @ der)))"
  using assms by (intro digest_refines) auto

theorem mojang_digest_is_signed_hex_witness:
  "mojang_sha1_digest (\<lambda>_. replicate 20 0xFF) (str ''x'') [] [] = str ''-1''"
proof -
  have "be_value (replicate n 0xFF) + 1 = 256 ^ n" for n
    by (induction n) (simp_all add: be_value_Cons, simp add: be_value_def)
  from this [of 20] have v: "be_value (replicate 20 0xFF) + 1 = 2 ^ 160"
    by simp
  then have "signed_value (replicate 20 0xFF) = - 1"
    by (simp add: signed_value_def)
  then show ?thesis
    using mojang_digest_is_signed_hex [of "\<lambda>_. replicate 20 0xFF" "str ''x''" "[]" "[]"]
    by (simp add: signed_hex_def radix_less digit_char_def str_def)
qed

lemma query_split:
  assumes "c \<notin> set a" "c \<notin> set a'" "a @ c # r = a' @ c # r'"
  shows "a = a' \<and> r = r'"
proof -
  have t: "takeWhile (\<lambda>x. x \<noteq> c) (b @ c # s) = b" if "c \<notin> set b" for b s
    using that by (induction b) auto
  have "a = a'"
    using t [OF assms(1), of r] t [OF assms(2), of r'] assms(3) by simp
  with assms(3) show ?thesis by simp
qed

text \<open>C28. A session is accepted exactly when the session server, asked with the encoded user name and server
  hash, answers with a success status other than 204 and a body that is a profile, and that profile is the
  result. The request line determines user name and hash: no user name can smuggle in another parameter.\<close>

theorem session_profile_only_from_server:
  "(verify_session_with_url get username hash ip endpoint = Inr profile \<longleftrightarrow>
      (\<exists>status text.
         get (endpoint @ (if 0x3F \<in> set endpoint then str ''&'' else str ''?'') @ str ''username=''
              @ urlencoding username @ str ''&serverId='' @ urlencoding hash) = Reply status text (Inr profile)
         \<and> 200 \<le> status \<and> status < 300 \<and> status \<noteq> 204))
   \<and> (urlencoding username @ str ''&serverId='' @ urlencoding hash
        = urlencoding username' @ str ''&serverId='' @ urlencoding hash'
      \<longleftrightarrow> username = username' \<and> hash = hash')"
proof
  show "verify_session_with_url get username hash ip endpoint = Inr profile \<longleftrightarrow>
      (\<exists>status text.
         get (endpoint @ (if 0x3F \<in> set endpoint then str ''&'' else str ''?'') @ str ''username=''
              @ urlencoding username @ str ''&serverId='' @ urlencoding hash) = Reply status text (Inr profile)
         \<and> 200 \<le> status \<and> status < 300 \<and> status \<noteq> 204)"
    unfolding verify_session_with_url_def Let_def
    by (auto split: http_reply.split sum.split)
next
  have amp: "\<not> is_unreserved 0x26"
    by (simp add: is_unreserved_def is_ascii_lower_def is_ascii_upper_def is_ascii_digit_def)
  have no: "0x26 \<notin> set (urlencoding u)" for u
    using urlencoding_chars [of "0x26" u] amp by auto
  have e: "str ''&serverId='' @ t = 0x26 # str ''serverId='' @ t" for t
    by (simp add: str_def)
  show "urlencoding username @ str ''&serverId='' @ urlencoding hash
        = urlencoding username' @ str ''&serverId='' @ urlencoding hash'
      \<longleftrightarrow> username = username' \<and> hash = hash'"
    unfolding e using query_split [OF no no] urlencoding_inj by blast
qed

text \<open>\<^verbatim>\<open>constant_time_eq\<close> is equality of byte strings: accumulating the differences of all positions
  decides the same as comparing them one by one.\<close>

theorem constant_time_eq_is_equality: "constant_time_eq a b \<longleftrightarrow> a = b"
  by (rule constant_time_eq_iff)

text \<open>Once the key manager has been cleared it neither decrypts nor encrypts and holds no key material; a fresh
  manager carries the exported public key and decrypts what the RSA implementation decrypts.\<close>

theorem rsa_manager_after_zeroize:
  "RsaKeyManager_decrypt rsa (RsaKeyManager_zeroize m) c = Inl (CryptoError (str ''RSA private key has been zeroized''))
   \<and> RsaKeyManager_encrypt rsa (RsaKeyManager_zeroize m) rng p = Inl (CryptoError (str ''RSA private key has been zeroized''))
   \<and> rk_public_key_der (RsaKeyManager_zeroize m) = []
   \<and> (RsaKeyManager_new rsa (Inr k) = Inr m \<longrightarrow>
        rsa_to_der rsa k = Inr (rk_public_key_der m)
        \<and> (RsaKeyManager_decrypt rsa m c = Inr p \<longleftrightarrow> rsa_decrypt rsa k c = Inr p))"
  by (auto simp: RsaKeyManager_decrypt_def RsaKeyManager_encrypt_def RsaKeyManager_zeroize_def RsaKeyManager_new_def
      split: sum.splits)

theorem rsa_manager_after_zeroize_witness:
  "let rsa = \<lparr>rsa_to_der = (\<lambda>k. Inr [k]), rsa_decrypt = (\<lambda>k c. Inr (map (\<lambda>b. b XOR k) c)),
              rsa_encrypt = (\<lambda>k r p. Inr (map (\<lambda>b. b XOR k) p))\<rparr>;
       m = \<lparr>rk_private_key = Some 7, rk_public_key_der = [7]\<rparr>
   in RsaKeyManager_new rsa (Inr 7) = Inr m \<and> rsa_to_der rsa 7 = Inr (rk_public_key_der m)
      \<and> RsaKeyManager_decrypt rsa (RsaKeyManager_zeroize m) [1] = Inl (CryptoError (str ''RSA private key has been zeroized''))"
  using rsa_manager_after_zeroize
    [of "\<lparr>rsa_to_der = (\<lambda>k. Inr [k]), rsa_decrypt = (\<lambda>k c. Inr (map (\<lambda>b. b XOR k) c)),
              rsa_encrypt = (\<lambda>k r p. Inr (map (\<lambda>b. b XOR k) p))\<rparr>"
        "\<lparr>rk_private_key = Some 7, rk_public_key_der = [7]\<rparr>" "[1]" 0 "[1]" 7]
  by (simp add: Let_def RsaKeyManager_new_def)

end
