(* ===== verification/Login_Packets.thy ===== *)
theory Login_Packets
  imports Auth
begin

text \<open>
  \<^verbatim>\<open>src/src/protocol/login.rs\<close>: the packets of the login state. \<^verbatim>\<open>Uuid\<close> values are their 16 bytes; their text
  form and its parser belong to the \<^verbatim>\<open>uuid\<close> crate and are the parameters \<open>u_hyphenated\<close>, \<open>u_simple\<close> and
  \<open>u_parse\<close>, of which \<open>uuid_ops_ok\<close> says that parsing inverts printing. A random \<^verbatim>\<open>Uuid::new_v4()\<close> and the
  random verification token are arguments.

  Every packet type interprets \<open>packet_codec\<close>. The lemmas give the accepted user names exactly and
  the protocol versions for which \<^verbatim>\<open>LoginSuccess\<close> survives its own round trip.
\<close>

section \<open>Login start\<close>

record login_start =
  lst_username :: str
  lst_player_uuid :: uuid

definition is_username_byte :: "u8 \<Rightarrow> bool" where
  "is_username_byte b \<longleftrightarrow> is_ascii_alphanumeric b \<or> b = 0x5F"

text \<open>\<^verbatim>\<open>{:?}\<close> of a byte read as a character: quoted, with the escapes of \<^verbatim>\<open>char::escape_debug\<close>, in UTF-8.\<close>

definition char_debug :: "u8 \<Rightarrow> str" where
  "char_debug b = str [CHR 0x27] @
     (if b = 0 then str [CHR 0x5C, CHR 0x30]
      else if b = 9 then str [CHR 0x5C, CHR 0x74]
      else if b = 10 then str [CHR 0x5C, CHR 0x6E]
      else if b = 13 then str [CHR 0x5C, CHR 0x72]
      else if b = 0x27 \<or> b = 0x5C then [0x5C, b]
      else if b < 0x20 \<or> 0x7F \<le> b \<and> b \<le> 0xA0 \<or> b = 0xAD
      then str [CHR 0x5C, CHR 0x75, CHR 0x7B] @ radix 16 digit_char (unat b) @ str [CHR 0x7D]
      else if b < 0x80 then [b]
      else if b < 0xC0 then [0xC2, b] else [0xC3, b - 0x40])
     @ str [CHR 0x27]"

definition nil_uuid :: uuid where
  "nil_uuid = replicate 16 0"

definition login_start_decode :: "raw_packet \<Rightarrow> login_start res" where
  "login_start_decode packet =
     (if rp_id packet \<noteq> 0x00 then Inl (InvalidPacketId (rp_id packet))
      else
        bindE (decode_varint (payload packet)) (\<lambda>(name_len, cursor).
        if \<not> (1 \<le> sint name_len \<and> sint name_len \<le> 16)
        then Inl (Io InvalidData (str ''Username byte length '' @ dec_i32 name_len @ str '' is out of bounds (1..=16)''))
        else let name_len = i32_as_usize name_len in
        if length cursor < name_len then Inl (Io UnexpectedEof (str ''unexpected EOF reading username''))
        else let name_bytes = take name_len cursor in
        case find (\<lambda>b. \<not> is_username_byte b) name_bytes of
          Some b \<Rightarrow> Inl (Io InvalidData (str ''Invalid character in username: '' @ char_debug b))
        | None \<Rightarrow>
            bindE (from_utf8 (str ''invalid UTF-8 in username'') name_bytes) (\<lambda>username.
            let cursor = drop name_len cursor;
                player_uuid = (if 16 \<le> length cursor then take 16 cursor else nil_uuid)
            in Inr \<lparr>lst_username = username, lst_player_uuid = player_uuid\<rparr>)))"

definition login_start_encode :: "login_start \<Rightarrow> raw_packet" where
  "login_start_encode p = RawPacket 0x00 (put_prefixed (lst_username p) @ lst_player_uuid p)"

definition valid_username :: "str \<Rightarrow> bool" where
  "valid_username s \<longleftrightarrow> 1 \<le> length s \<and> length s \<le> 16 \<and> list_all is_username_byte s"

definition wf_login_start :: "login_start \<Rightarrow> bool" where
  "wf_login_start p \<longleftrightarrow> valid_username (lst_username p) \<and> wf_uuid (lst_player_uuid p)"

section \<open>Encryption request and response\<close>

record encryption_request =
  erq_server_id :: str
  erq_public_key :: bytes
  erq_verify_token :: bytes
  erq_should_authenticate :: bool

definition encryption_request_generate :: "bytes \<Rightarrow> bytes \<Rightarrow> encryption_request" where
  "encryption_request_generate random_token public_key_der =
     \<lparr>erq_server_id = [], erq_public_key = public_key_der, erq_verify_token = random_token,
      erq_should_authenticate = True\<rparr>"

definition encryption_request_encode_with_version :: "encryption_request \<Rightarrow> i32 \<Rightarrow> raw_packet" where
  "encryption_request_encode_with_version p protocol_version =
     RawPacket 0x01
       (put_prefixed (erq_server_id p) @ put_prefixed (erq_public_key p) @ put_prefixed (erq_verify_token p)
        @ (if 766 \<le> sint protocol_version then put_bool (erq_should_authenticate p) else []))"

definition encryption_request_encode :: "encryption_request \<Rightarrow> raw_packet" where
  "encryption_request_encode p = encryption_request_encode_with_version p 765"

definition encryption_request_decode :: "raw_packet \<Rightarrow> encryption_request res" where
  "encryption_request_decode packet =
     (if rp_id packet \<noteq> 0x01 then Inl (InvalidPacketId (rp_id packet))
      else
        bindE (take_string (str ''unexpected EOF reading server_id'') (str ''invalid UTF-8 in server_id'')
                 (payload packet)) (\<lambda>(server_id, cursor).
        bindE (take_prefixed (str ''unexpected EOF reading public_key'') cursor) (\<lambda>(public_key, cursor).
        bindE (take_prefixed (str ''unexpected EOF reading verify_token'') cursor) (\<lambda>(verify_token, cursor).
        let should_authenticate = (case cursor of b # _ \<Rightarrow> b \<noteq> 0 | [] \<Rightarrow> True) in
        Inr \<lparr>erq_server_id = server_id, erq_public_key = public_key, erq_verify_token = verify_token,
             erq_should_authenticate = should_authenticate\<rparr>))))"

definition wf_encryption_request :: "i32 \<Rightarrow> encryption_request \<Rightarrow> bool" where
  "wf_encryption_request v p \<longleftrightarrow> wf_string (erq_server_id p) \<and> fits_i32 (erq_public_key p)
     \<and> fits_i32 (erq_verify_token p) \<and> (766 \<le> sint v \<or> erq_should_authenticate p)"

record encryption_response =
  ers_shared_secret :: bytes
  ers_verify_token :: bytes

definition encryption_response_encode :: "encryption_response \<Rightarrow> raw_packet" where
  "encryption_response_encode p =
     RawPacket 0x01 (put_prefixed (ers_shared_secret p) @ put_prefixed (ers_verify_token p))"

definition encryption_response_decode :: "raw_packet \<Rightarrow> encryption_response res" where
  "encryption_response_decode packet =
     (if rp_id packet \<noteq> 0x01 then Inl (InvalidPacketId (rp_id packet))
      else
        bindE (take_prefixed (str ''unexpected EOF reading encrypted shared_secret'') (payload packet))
          (\<lambda>(shared_secret, cursor).
        bindE (take_prefixed (str ''unexpected EOF reading encrypted verify_token'') cursor) (\<lambda>(verify_token, cursor).
        Inr \<lparr>ers_shared_secret = shared_secret, ers_verify_token = verify_token\<rparr>)))"

definition encryption_response_zeroize :: "encryption_response \<Rightarrow> encryption_response" where
  "encryption_response_zeroize p = \<lparr>ers_shared_secret = [], ers_verify_token = []\<rparr>"

definition wf_encryption_response :: "encryption_response \<Rightarrow> bool" where
  "wf_encryption_response p \<longleftrightarrow> fits_i32 (ers_shared_secret p) \<and> fits_i32 (ers_verify_token p)"

section \<open>Login success\<close>

record uuid_ops =
  u_hyphenated :: "uuid \<Rightarrow> str"
  u_simple :: "uuid \<Rightarrow> str"
  u_parse :: "str \<Rightarrow> uuid option"

definition uuid_ops_ok :: "uuid_ops \<Rightarrow> bool" where
  "uuid_ops_ok u \<longleftrightarrow> (\<forall>x. wf_uuid x \<longrightarrow> wf_string (u_hyphenated u x) \<and> u_parse u (u_hyphenated u x) = Some x)"

record login_success =
  lsc_uuid :: uuid
  lsc_username :: str
  lsc_properties :: "profile_property list"
  lsc_session_id :: "uuid option"

definition LoginSuccessPacket_new :: "uuid \<Rightarrow> str \<Rightarrow> profile_property list \<Rightarrow> login_success" where
  "LoginSuccessPacket_new u n ps = \<lparr>lsc_uuid = u, lsc_username = n, lsc_properties = ps, lsc_session_id = None\<rparr>"

definition put_property :: "profile_property \<Rightarrow> bytes" where
  "put_property prop =
     put_prefixed (pp_name prop) @ put_prefixed (pp_value prop)
     @ (case pp_signature prop of Some signature \<Rightarrow> 1 # put_prefixed signature | None \<Rightarrow> [0])"

definition login_success_encode_with_version :: "uuid_ops \<Rightarrow> uuid \<Rightarrow> i32 \<Rightarrow> login_success \<Rightarrow> raw_packet" where
  "login_success_encode_with_version u new_v4 protocol_version p =
     (if 707 \<le> sint protocol_version then
        RawPacket 0x02
          (lsc_uuid p @ put_prefixed (lsc_username p)
           @ encode_varint (usize_as_i32 (length (lsc_properties p)))
           @ concat (map put_property (lsc_properties p))
           @ (if 776 \<le> sint protocol_version
              then (case lsc_session_id p of Some sid \<Rightarrow> sid | None \<Rightarrow> new_v4) else []))
      else RawPacket 0x02 (put_prefixed (u_hyphenated u (lsc_uuid p)) @ put_prefixed (lsc_username p)))"

definition login_success_encode :: "uuid_ops \<Rightarrow> uuid \<Rightarrow> login_success \<Rightarrow> raw_packet" where
  "login_success_encode u new_v4 p = login_success_encode_with_version u new_v4 765 p"

definition take_property :: "bytes \<Rightarrow> (profile_property \<times> bytes) res" where
  "take_property cursor =
     bindE (take_string (str ''EOF reading property name'') (str ''invalid UTF-8 in property name'') cursor)
       (\<lambda>(name, cursor).
     bindE (take_string (str ''EOF reading property value'') (str ''invalid UTF-8 in property value'') cursor)
       (\<lambda>(value, cursor).
     bindE (get_u8 (str ''EOF reading property is_signed'') cursor) (\<lambda>(is_signed, cursor).
     if is_signed \<noteq> 0 then
       bindE (take_string (str ''EOF reading property signature'') (str ''invalid UTF-8 in property signature'') cursor)
         (\<lambda>(sig, cursor). Inr (\<lparr>pp_name = name, pp_value = value, pp_signature = Some sig\<rparr>, cursor))
     else Inr (\<lparr>pp_name = name, pp_value = value, pp_signature = None\<rparr>, cursor))))"

definition login_success_take_uuid :: "uuid_ops \<Rightarrow> i32 \<Rightarrow> bytes \<Rightarrow> (uuid \<times> bytes) res" where
  "login_success_take_uuid u protocol_version cursor =
     (if 707 \<le> sint protocol_version then get_bytes (str ''unexpected EOF reading UUID bytes'') 16 cursor
      else
        bindE (take_string (str ''unexpected EOF reading UUID string'') (str ''invalid UTF-8 in UUID string'') cursor)
          (\<lambda>(uuid_str, cursor).
        case u_parse u uuid_str of
          None \<Rightarrow> Inl (Io InvalidData (str ''invalid UUID format''))
        | Some uuid \<Rightarrow> Inr (uuid, cursor)))"

definition login_success_take_properties :: "i32 \<Rightarrow> bytes \<Rightarrow> (profile_property list \<times> bytes) res" where
  "login_success_take_properties protocol_version cursor =
     (if 759 \<le> sint protocol_version \<and> cursor \<noteq> [] then
        bindE (decode_varint cursor) (\<lambda>(prop_count, cursor).
        if sint prop_count < 0 then Inl (Io InvalidData (str ''negative property count''))
        else decode_n take_property (nat (sint prop_count)) cursor)
      else Inr ([], cursor))"

definition login_success_decode_with_version :: "uuid_ops \<Rightarrow> i32 \<Rightarrow> raw_packet \<Rightarrow> login_success res" where
  "login_success_decode_with_version u protocol_version packet =
     (if rp_id packet \<noteq> 0x02 then Inl (InvalidPacketId (rp_id packet))
      else
        bindE (login_success_take_uuid u protocol_version (payload packet)) (\<lambda>(uuid, cursor).
        bindE (take_string (str ''unexpected EOF reading username'') (str ''invalid UTF-8 in username'') cursor)
          (\<lambda>(username, cursor).
        bindE (login_success_take_properties protocol_version cursor) (\<lambda>(properties, cursor).
        bindE (if 776 \<le> sint protocol_version
               then bindE (get_bytes (str ''unexpected EOF reading session_id in LoginSuccess'') 16 cursor)
                      (\<lambda>(sid, cursor). Inr (Some sid, cursor))
               else Inr (None, cursor)) (\<lambda>(session_id, cursor).
        if cursor \<noteq> [] then
          Inl (Io InvalidData (str ''Unexpected trailing data ('' @ dec_nat (length cursor)
                 @ str '' bytes) in LoginSuccess packet''))
        else Inr \<lparr>lsc_uuid = uuid, lsc_username = username, lsc_properties = properties,
                  lsc_session_id = session_id\<rparr>)))))"

definition login_success_decode :: "uuid_ops \<Rightarrow> raw_packet \<Rightarrow> login_success res" where
  "login_success_decode u packet = login_success_decode_with_version u 765 packet"

definition encode_frame_packet :: "raw_packet \<Rightarrow> bytes" where
  "encode_frame_packet packet =
     (let id_len = varint_size (rp_id packet);
          total_length = id_len + length (payload packet)
      in encode_varint (usize_as_i32 total_length) @ encode_varint (rp_id packet) @ payload packet)"

definition login_success_encode_frame_with_version :: "uuid_ops \<Rightarrow> uuid \<Rightarrow> i32 \<Rightarrow> login_success \<Rightarrow> bytes" where
  "login_success_encode_frame_with_version u new_v4 protocol_version p =
     encode_frame_packet (login_success_encode_with_version u new_v4 protocol_version p)"

definition login_success_decode_frame_with_version :: "uuid_ops \<Rightarrow> bytes \<Rightarrow> i32 \<Rightarrow> login_success res" where
  "login_success_decode_frame_with_version u framed protocol_version =
     bindE (decode_varint framed) (\<lambda>(total_length, cursor).
     if length cursor < i32_as_usize total_length
     then Inl (Io UnexpectedEof (str ''unexpected EOF reading framed packet''))
     else bindE (decode_varint cursor) (\<lambda>(packet_id, cursor).
       if packet_id \<noteq> 0x02 then Inl (InvalidPacketId packet_id)
       else login_success_decode_with_version u protocol_version (RawPacket packet_id cursor)))"

definition encode_login_success :: "uuid_ops \<Rightarrow> uuid \<Rightarrow> uuid \<Rightarrow> str \<Rightarrow> profile_property list \<Rightarrow> i32 \<Rightarrow> raw_packet" where
  "encode_login_success u new_v4 uuid username properties protocol_version =
     login_success_encode_with_version u new_v4 protocol_version (LoginSuccessPacket_new uuid username properties)"

definition encode_login_success_with_session ::
  "uuid_ops \<Rightarrow> uuid \<Rightarrow> uuid \<Rightarrow> str \<Rightarrow> profile_property list \<Rightarrow> uuid option \<Rightarrow> i32 \<Rightarrow> raw_packet" where
  "encode_login_success_with_session u new_v4 uuid username properties session_id protocol_version =
     login_success_encode_with_version u new_v4 protocol_version
       \<lparr>lsc_uuid = uuid, lsc_username = username, lsc_properties = properties, lsc_session_id = session_id\<rparr>"

definition encode_login_success_frame ::
  "uuid_ops \<Rightarrow> uuid \<Rightarrow> uuid \<Rightarrow> str \<Rightarrow> profile_property list \<Rightarrow> i32 \<Rightarrow> bytes" where
  "encode_login_success_frame u new_v4 uuid username properties protocol_version =
     login_success_encode_frame_with_version u new_v4 protocol_version (LoginSuccessPacket_new uuid username properties)"

definition encode_login_success_frame_with_session ::
  "uuid_ops \<Rightarrow> uuid \<Rightarrow> uuid \<Rightarrow> str \<Rightarrow> profile_property list \<Rightarrow> uuid option \<Rightarrow> i32 \<Rightarrow> bytes" where
  "encode_login_success_frame_with_session u new_v4 uuid username properties session_id protocol_version =
     login_success_encode_frame_with_version u new_v4 protocol_version
       \<lparr>lsc_uuid = uuid, lsc_username = username, lsc_properties = properties, lsc_session_id = session_id\<rparr>"

definition wf_property :: "profile_property \<Rightarrow> bool" where
  "wf_property p \<longleftrightarrow> wf_string (pp_name p) \<and> wf_string (pp_value p)
     \<and> (case pp_signature p of None \<Rightarrow> True | Some s \<Rightarrow> wf_string s)"

definition wf_login_success :: "uuid_ops \<Rightarrow> i32 \<Rightarrow> login_success \<Rightarrow> bool" where
  "wf_login_success u v p \<longleftrightarrow> wf_uuid (lsc_uuid p) \<and> wf_string (lsc_username p)
     \<and> length (lsc_properties p) < 2 ^ 31 \<and> list_all wf_property (lsc_properties p)
     \<and> (if 776 \<le> sint v then (\<exists>s. lsc_session_id p = Some s \<and> wf_uuid s) else lsc_session_id p = None)
     \<and> (sint v < 707 \<longrightarrow> uuid_ops_ok u \<and> lsc_properties p = [])"

section \<open>Login acknowledged\<close>

definition login_acknowledged_decode :: "raw_packet \<Rightarrow> unit res" where
  "login_acknowledged_decode packet =
     (if rp_id packet \<noteq> 0x03 then Inl (InvalidPacketId (rp_id packet)) else Inr ())"

definition login_acknowledged_encode :: "unit \<Rightarrow> raw_packet" where
  "login_acknowledged_encode _ = RawPacket 0x03 []"

section \<open>Contracts\<close>

lemma username_byte_ascii: "is_username_byte b \<Longrightarrow> b < 0x80"
  by (auto simp: is_username_byte_def is_ascii_alphanumeric_def is_ascii_digit_def is_ascii_upper_def
      is_ascii_lower_def word_le_nat_alt word_less_nat_alt)

lemma valid_username_utf8: "list_all is_username_byte s \<Longrightarrow> utf8_valid s"
  using username_byte_ascii by (intro utf8_valid_ascii) (auto simp: list_all_iff)

lemma find_bad_None: "find (\<lambda>b. \<not> P b) xs = None \<longleftrightarrow> list_all P xs"
  by (auto simp: find_None_iff list_all_iff)

interpretation login_start: packet_codec login_start_encode login_start_decode "0x00" wf_login_start
proof
  fix x
  assume "wf_login_start x"
  then show "login_start_decode (login_start_encode x) = Inr x"
    by (simp add: login_start_decode_def login_start_encode_def wf_login_start_def valid_username_def wf_uuid_def
        put_prefixed_def codec_simps cast_simps Let_def find_bad_None [THEN iffD2] from_utf8_def valid_username_utf8)
qed (simp_all add: login_start_encode_def login_start_decode_def)

lemma take_prefixed_put_end [codec_simps]: "fits_i32 bs \<Longrightarrow> take_prefixed msg (put_prefixed bs) = Inr (bs, [])"
  using take_prefixed_put [of bs msg "[]"] by simp

lemma take_string_put_end [codec_simps]: "wf_string s \<Longrightarrow> take_string eof bad (put_prefixed s) = Inr (s, [])"
  using take_string_put [of s eof bad "[]"] by simp

interpretation encryption_request:
  packet_codec "\<lambda>p. encryption_request_encode_with_version p v" encryption_request_decode "0x01" "wf_encryption_request v"
  by unfold_locales (auto simp: encryption_request_encode_with_version_def encryption_request_decode_def
      wf_encryption_request_def codec_simps put_bool_def Let_def)

interpretation encryption_response:
  packet_codec encryption_response_encode encryption_response_decode "0x01" wf_encryption_response
  by unfold_locales (auto simp: encryption_response_encode_def encryption_response_decode_def
      wf_encryption_response_def codec_simps)

interpretation login_acknowledged:
  packet_codec login_acknowledged_encode login_acknowledged_decode "0x03" "\<lambda>_. True"
  by unfold_locales (auto simp: login_acknowledged_encode_def login_acknowledged_decode_def)

lemma take_property_put [codec_simps]:
  "wf_property p \<Longrightarrow> take_property (put_property p @ rest) = Inr (p, rest)"
  by (auto simp: wf_property_def take_property_def put_property_def codec_simps split: option.splits)

lemma take_property_progress: "take_property buf = Inr (p, rest) \<Longrightarrow> length rest < length buf"
  by (auto simp: take_property_def bindE_eq_Inr_iff get_u8_def dest!: take_string_progress
      split: if_splits list.splits)

interpretation property_field: progress_codec put_property take_property wf_property
  by unfold_locales (auto simp: codec_simps dest: take_property_progress)

lemma login_success_take_uuid_put:
  assumes "wf_uuid x"
  shows "707 \<le> sint v \<Longrightarrow> login_success_take_uuid u v (x @ rest) = Inr (x, rest)"
    and "sint v < 707 \<Longrightarrow> uuid_ops_ok u \<Longrightarrow>
      login_success_take_uuid u v (put_prefixed (u_hyphenated u x) @ rest) = Inr (x, rest)"
  using assms by (simp_all add: login_success_take_uuid_def wf_uuid_def codec_simps uuid_ops_ok_def)

lemma login_success_take_properties_put:
  assumes "759 \<le> sint v" "length ps < 2 ^ 31" "list_all wf_property ps"
  shows "login_success_take_properties v
      (encode_varint (usize_as_i32 (length ps)) @ concat (map put_property ps) @ rest) = Inr (ps, rest)"
  using assms property_field.dec_enc_list [of ps rest] varint.enc_not_Nil [of "usize_as_i32 (length ps)"]
  by (simp add: login_success_take_properties_def codec_simps cast_simps list_all_iff)

lemma login_success_roundtrip:
  assumes "wf_login_success u v p" and "sint v < 707 \<or> 759 \<le> sint v"
  shows "login_success_decode_with_version u v (login_success_encode_with_version u new_v4 v p) = Inr p"
proof (cases "sint v < 707")
  case True
  with assms show ?thesis
    by (simp add: login_success_decode_with_version_def login_success_encode_with_version_def wf_login_success_def
        login_success_take_uuid_put login_success_take_properties_def codec_simps)
next
  case False
  with assms(2) have v: "759 \<le> sint v" "707 \<le> sint v" by auto
  show ?thesis
  proof (cases "776 \<le> sint v")
    case True
    with assms(1) obtain s where "lsc_session_id p = Some s" "length s = 16"
      by (auto simp: wf_login_success_def wf_uuid_def)
    with True v assms(1) show ?thesis
      by (simp add: login_success_decode_with_version_def login_success_encode_with_version_def wf_login_success_def
          login_success_take_uuid_put login_success_take_properties_put codec_simps
          get_bytes_append [of s 16 _ "[]", simplified])
  next
    case False
    with v assms(1) show ?thesis
      using login_success_take_properties_put [of v "lsc_properties p" "[]"]
      by (simp add: login_success_decode_with_version_def login_success_encode_with_version_def wf_login_success_def
          login_success_take_uuid_put codec_simps)
  qed
qed

lemma login_success_middle_versions:
  assumes "wf_login_success u v p" and "707 \<le> sint v" "sint v < 759"
  shows "login_success_decode_with_version u v (login_success_encode_with_version u new_v4 v p) =
    Inl (Io InvalidData (str ''Unexpected trailing data (''
      @ dec_nat (varint_size (usize_as_i32 (length (lsc_properties p))) + length (concat (map put_property (lsc_properties p))))
      @ str '' bytes) in LoginSuccess packet''))"
  using assms varint.enc_not_Nil [of "usize_as_i32 (length (lsc_properties p))"]
  by (simp add: login_success_decode_with_version_def login_success_encode_with_version_def wf_login_success_def
      login_success_take_uuid_put login_success_take_properties_def codec_simps length_encode_varint)

interpretation login_success_codec:
  packet_codec "login_success_encode_with_version u new_v4 v" "login_success_decode_with_version u v" "0x02"
    "\<lambda>p. wf_login_success u v p \<and> (sint v < 707 \<or> 759 \<le> sint v)"
proof
  show "rp_id (login_success_encode_with_version u new_v4 v x) = 0x02" for x
    by (simp add: login_success_encode_with_version_def)
  show "rp_id p \<noteq> 0x02 \<Longrightarrow> login_success_decode_with_version u v p = Inl (InvalidPacketId (rp_id p))" for p
    by (simp add: login_success_decode_with_version_def)
qed (simp add: login_success_roundtrip)

lemma login_start_decode_wf:
  assumes "login_start_decode p = Inr l"
  shows "wf_login_start l"
proof -
  from assms obtain n cursor where
      n: "1 \<le> sint n" "sint n \<le> 16" "i32_as_usize n \<le> length cursor"
    and l: "list_all is_username_byte (take (i32_as_usize n) cursor)"
      "lst_username l = take (i32_as_usize n) cursor" "wf_uuid (lst_player_uuid l)"
    by (auto simp: login_start_decode_def bindE_eq_Inr_iff Let_def from_utf8_def find_bad_None wf_uuid_def nil_uuid_def
        not_less split: if_splits option.splits)
  from n have "i32_as_usize n = nat (sint n)" by (simp add: cast_simps)
  with n l show ?thesis by (auto simp: wf_login_start_def valid_username_def)
qed

lemma encode_frame_packet_eq: "encode_frame_packet p = frame p"
  by (simp add: encode_frame_packet_def frame_def)

section \<open>Properties\<close>

text \<open>C33. A login start that is decoded carries a user name of 1 to 16 ASCII letters, digits and
  underscores and a UUID of 16 bytes; every such packet is read back from its encoding.\<close>

theorem login_start_usernames:
  "(login_start_decode p = Inr l \<longrightarrow> rp_id p = 0 \<and> wf_login_start l)
   \<and> (wf_login_start l \<longrightarrow> login_start_decode (login_start_encode l) = Inr l)"
  using login_start_decode_wf login_start.decode_id login_start.decode_encode by blast

theorem login_start_usernames_witness:
  "let l = \<lparr>lst_username = str ''Steve_1'', lst_player_uuid = nil_uuid\<rparr>
   in wf_login_start l \<and> login_start_decode (login_start_encode l) = Inr l"
proof -
  let ?l = "\<lparr>lst_username = str ''Steve_1'', lst_player_uuid = nil_uuid\<rparr>"
  have "wf_login_start ?l"
    by (simp add: wf_login_start_def valid_username_def str_def of_char_def is_username_byte_def
        is_ascii_alphanumeric_def is_ascii_digit_def is_ascii_upper_def is_ascii_lower_def wf_uuid_def nil_uuid_def)
  with login_start_usernames [of "login_start_encode ?l" ?l] show ?thesis by (simp add: Let_def)
qed

text \<open>What of a \<^verbatim>\<open>LoginSuccess\<close> the encoder writes for a protocol version: no properties below 707, a session identifier
  from 776 on, made up when there is none.\<close>

definition login_success_carried :: "uuid \<Rightarrow> i32 \<Rightarrow> login_success \<Rightarrow> login_success" where
  "login_success_carried new_v4 v p =
     p\<lparr>lsc_properties := if sint v < 707 then [] else lsc_properties p,
       lsc_session_id :=
         if 776 \<le> sint v then Some (case lsc_session_id p of Some s \<Rightarrow> s | None \<Rightarrow> new_v4) else None\<rparr>"

lemma encode_carried:
  "login_success_encode_with_version u new_v4 v (login_success_carried new_v4 v p) =
   login_success_encode_with_version u new_v4 v p"
  by (simp add: login_success_encode_with_version_def login_success_carried_def split: option.split)

lemma wf_carried:
  assumes "wf_uuid (lsc_uuid p)" "wf_string (lsc_username p)" "wf_uuid new_v4"
    and "length (lsc_properties p) < 2 ^ 31" "list_all wf_property (lsc_properties p)"
    and "pred_option wf_uuid (lsc_session_id p)" and "sint v < 707 \<longrightarrow> uuid_ops_ok u"
  shows "wf_login_success u v (login_success_carried new_v4 v p)"
  using assms by (auto simp: wf_login_success_def login_success_carried_def split: option.split)

text \<open>C34. \<^verbatim>\<open>LoginSuccess\<close> through its own encoder and decoder, for every protocol version. From 759 on everything is read
  back, the session identifier only from 776 on and with a fresh one where the packet has none. Below 707 user name and
  UUID are read back, the UUID through its text form, and the properties are lost. For every version from 707 to
  758 the decoder refuses what the encoder has written, since the encoder always appends the property list there
  and the decoder takes it for trailing data.\<close>

theorem login_success_versions:
  assumes "wf_uuid (lsc_uuid p)" "wf_string (lsc_username p)" "wf_uuid new_v4"
    and "length (lsc_properties p) < 2 ^ 31" "list_all wf_property (lsc_properties p)"
    and "pred_option wf_uuid (lsc_session_id p)" and "sint v < 707 \<longrightarrow> uuid_ops_ok u"
  shows "login_success_decode_with_version u v (login_success_encode_with_version u new_v4 v p) =
    (if 707 \<le> sint v \<and> sint v < 759
     then Inl (Io InvalidData (str ''Unexpected trailing data (''
        @ dec_nat (varint_size (usize_as_i32 (length (lsc_properties p))) + length (concat (map put_property (lsc_properties p))))
        @ str '' bytes) in LoginSuccess packet''))
     else Inr (p\<lparr>lsc_properties := if sint v < 707 then [] else lsc_properties p,
                 lsc_session_id :=
                   if 776 \<le> sint v then Some (case lsc_session_id p of Some s \<Rightarrow> s | None \<Rightarrow> new_v4) else None\<rparr>))"
proof (cases "707 \<le> sint v \<and> sint v < 759")
  case True
  then have "lsc_properties (login_success_carried new_v4 v p) = lsc_properties p"
    by (simp add: login_success_carried_def)
  with True login_success_middle_versions [OF wf_carried [OF assms], of new_v4] show ?thesis
    by (simp add: encode_carried)
next
  case False
  then have "sint v < 707 \<or> 759 \<le> sint v" by auto
  from login_success_roundtrip [OF wf_carried [OF assms] this, of new_v4] False show ?thesis
    by (simp only: encode_carried if_False) (simp only: login_success_carried_def)
qed

text \<open>A text form of UUIDs that meets the hypothesis: 32 hexadecimal digits with four hyphens.\<close>

definition uuid_text :: "uuid \<Rightarrow> str" where
  "uuid_text x =
     hex_encode (take 4 x) @ 0x2D # hex_encode (take 2 (drop 4 x)) @ 0x2D # hex_encode (take 2 (drop 6 x)) @
     0x2D # hex_encode (take 2 (drop 8 x)) @ 0x2D # hex_encode (drop 10 x)"

definition digit_of_char :: "u8 \<Rightarrow> nat" where
  "digit_of_char d = (if d < 0x3A then unat d - 0x30 else unat d - 0x57)"

fun hex_decode :: "str \<Rightarrow> bytes" where
  "hex_decode (a # b # s) = word_of_nat (16 * digit_of_char a + digit_of_char b) # hex_decode s"
| "hex_decode _ = []"

definition uuid_of_text :: "str \<Rightarrow> uuid option" where
  "uuid_of_text s =
     (let x = hex_decode (filter (\<lambda>b. b \<noteq> 0x2D) s) in if length s = 36 \<and> length x = 16 then Some x else None)"

definition text_uuid_ops :: uuid_ops where
  "text_uuid_ops = \<lparr>u_hyphenated = uuid_text, u_simple = hex_encode, u_parse = uuid_of_text\<rparr>"

lemma digit_char_facts:
  "d < 16 \<Longrightarrow> digit_of_char (digit_char d) = d \<and> digit_char d \<noteq> 0x2D \<and> digit_char d < 0x80"
  by (drule less_16_cases) (auto simp: digit_char_def digit_of_char_def)

lemma hex_byte_facts:
  "hex_decode (hex_byte b @ s) = b # hex_decode s"
  "filter (\<lambda>b. b \<noteq> 0x2D) (hex_byte b) = hex_byte b"
  "c \<in> set (hex_byte b) \<Longrightarrow> c < 0x80"
  "length (hex_byte b) = 2"
proof -
  have n: "unat b div 16 < 16" "unat b mod 16 < 16"
    using unat_u8_less [of b] by auto
  show "hex_decode (hex_byte b @ s) = b # hex_decode s"
    using n by (simp add: hex_byte_def digit_char_facts)
  show "filter (\<lambda>b. b \<noteq> 0x2D) (hex_byte b) = hex_byte b" "c \<in> set (hex_byte b) \<Longrightarrow> c < 0x80"
    "length (hex_byte b) = 2"
    using n by (auto simp: hex_byte_def digit_char_facts)
qed

lemma hex_encode_facts:
  "hex_decode (hex_encode bs) = bs"
  "filter (\<lambda>b. b \<noteq> 0x2D) (hex_encode bs) = hex_encode bs"
  "c \<in> set (hex_encode bs) \<Longrightarrow> c < 0x80"
  "length (hex_encode bs) = 2 * length bs"
  by (induction bs) (auto simp: hex_encode_def hex_byte_facts)

lemma hex_encode_append: "hex_encode (a @ b) = hex_encode a @ hex_encode b"
  by (simp add: hex_encode_def)

lemma uuid_of_uuid_text:
  assumes "length x = 16"
  shows "uuid_of_text (uuid_text x) = Some x" and "wf_string (uuid_text x)"
proof -
  have "take 2 (drop 8 x) @ drop 10 x = drop 8 x" "take 2 (drop 6 x) @ drop 8 x = drop 6 x"
    "take 2 (drop 4 x) @ drop 6 x = drop 4 x"
    using append_take_drop_id [of 2 "drop 8 x"] append_take_drop_id [of 2 "drop 6 x"]
      append_take_drop_id [of 2 "drop 4 x"] by simp_all
  then have "filter (\<lambda>b. b \<noteq> 0x2D) (uuid_text x) = hex_encode x"
    by (simp add: uuid_text_def hex_encode_facts flip: hex_encode_append)
  moreover have "length (uuid_text x) = 36"
    using assms by (simp add: uuid_text_def hex_encode_facts)
  ultimately show "uuid_of_text (uuid_text x) = Some x"
    using assms by (simp add: uuid_of_text_def hex_encode_facts)
  have "\<forall>c \<in> set (uuid_text x). c < 0x80"
    by (auto simp: uuid_text_def dest: hex_encode_facts(3))
  with \<open>length (uuid_text x) = 36\<close> show "wf_string (uuid_text x)"
    by (simp add: wf_string_def fits_i32_def utf8_valid_ascii)
qed

lemma text_uuid_ops_ok: "uuid_ops_ok text_uuid_ops"
  by (simp add: uuid_ops_ok_def text_uuid_ops_def wf_uuid_def uuid_of_uuid_text)

theorem login_success_versions_witness:
  "let a = \<lparr>pp_name = [], pp_value = [], pp_signature = None\<rparr>;
       p = \<lparr>lsc_uuid = nil_uuid, lsc_username = str ''Steve'', lsc_properties = [a], lsc_session_id = None\<rparr>;
       through = (\<lambda>v. login_success_decode_with_version text_uuid_ops v
                        (login_success_encode_with_version text_uuid_ops nil_uuid v p))
   in through 340 = Inr (p\<lparr>lsc_properties := []\<rparr>)
      \<and> through 758 = Inl (Io InvalidData (str ''Unexpected trailing data (4 bytes) in LoginSuccess packet''))
      \<and> through 765 = Inr p
      \<and> through 776 = Inr (p\<lparr>lsc_session_id := Some nil_uuid\<rparr>)"
proof -
  let ?a = "\<lparr>pp_name = [], pp_value = [], pp_signature = None\<rparr>"
  let ?p = "\<lparr>lsc_uuid = nil_uuid, lsc_username = str ''Steve'', lsc_properties = [?a], lsc_session_id = None\<rparr>"
  have w: "wf_string (str ''Steve'')" and e: "wf_string []"
    by (simp_all add: wf_string_def fits_i32_def str_def utf8_first_def of_char_def)
  have r: "login_success_decode_with_version text_uuid_ops v (login_success_encode_with_version text_uuid_ops nil_uuid v ?p) =
    (if 707 \<le> sint v \<and> sint v < 759
     then Inl (Io InvalidData (str ''Unexpected trailing data (''
        @ dec_nat (varint_size (usize_as_i32 (length (lsc_properties ?p))) + length (concat (map put_property (lsc_properties ?p))))
        @ str '' bytes) in LoginSuccess packet''))
     else Inr (?p\<lparr>lsc_properties := if sint v < 707 then [] else lsc_properties ?p,
                 lsc_session_id :=
                   if 776 \<le> sint v then Some (case lsc_session_id ?p of Some s \<Rightarrow> s | None \<Rightarrow> nil_uuid) else None\<rparr>))" for v
    by (rule login_success_versions)
      (simp_all add: w wf_uuid_def nil_uuid_def wf_property_def e text_uuid_ops_ok)
  have "put_property ?a = [0, 0, 0]"
    by (simp add: put_property_def put_prefixed_def usize_as_i32_def encode_varint_def encode_var_loop.simps)
  moreover have "dec_nat (Suc (Suc (Suc (Suc 0)))) = str ''4''"
    by (simp add: dec_nat_def radix_less digit_char_def str_def of_char_def)
  ultimately show ?thesis
    by (simp add: Let_def r varint_size_def usize_as_i32_def flip: str_append)
qed

text \<open>What an encryption request says about authentication reaches the client from protocol version 766 on;
  for older versions the decoder always reads a request to authenticate. Everything else is read back as it was.\<close>

theorem encryption_request_flag:
  assumes "wf_string (erq_server_id p)" "fits_i32 (erq_public_key p)" "fits_i32 (erq_verify_token p)"
  shows "encryption_request_decode (encryption_request_encode_with_version p v) =
    Inr (p\<lparr>erq_should_authenticate := 766 \<le> sint v \<longrightarrow> erq_should_authenticate p\<rparr>)"
  using assms
  by (simp add: encryption_request_encode_with_version_def encryption_request_decode_def codec_simps put_bool_def Let_def)

theorem encryption_request_flag_witness:
  "let p = \<lparr>erq_server_id = [], erq_public_key = [1, 2], erq_verify_token = [9], erq_should_authenticate = False\<rparr>
   in encryption_request_decode (encryption_request_encode_with_version p 765) = Inr (p\<lparr>erq_should_authenticate := True\<rparr>)
      \<and> encryption_request_decode (encryption_request_encode_with_version p 766) = Inr p"
  using encryption_request_flag
    [of "\<lparr>erq_server_id = [], erq_public_key = [1, 2], erq_verify_token = [9], erq_should_authenticate = False\<rparr>" 765]
    encryption_request_flag
    [of "\<lparr>erq_server_id = [], erq_public_key = [1, 2], erq_verify_token = [9], erq_should_authenticate = False\<rparr>" 766]
  by (simp add: Let_def wf_string_def fits_i32_def)

text \<open>The framing code that the source repeats in three places (\<^verbatim>\<open>RawPacket::frame\<close>, \<^verbatim>\<open>encode_frame_packet\<close> and the
  uncompressed branch of \<^verbatim>\<open>encode_packet_with_compression\<close>) builds the same bytes.\<close>

theorem framings_agree:
  "encode_frame_packet p = frame p \<and> encode_packet_with_compression z p None = Inr (frame p)"
  by (simp add: encode_frame_packet_eq encode_packet_with_compression_def frame_def Let_def)

end
