(* ===== verification/Settings.thy ===== *)
theory Settings
  imports Text Login_Packets
begin

text \<open>
  \<^verbatim>\<open>src/src/config.rs\<close> and \<^verbatim>\<open>parse_cli_args\<close> of \<^verbatim>\<open>src/src/main.rs\<close>: the settings of the proxy, how the favicon is
  found, and the command line. The \<^verbatim>\<open>HashMap\<close> of servers is the list of its entries in the order its
  iterators visit them, which Rust leaves open: no theorem depends on it. What the code asks of the file system is
  the parameter \<open>read_file\<close> (the contents, if the path is a file that can be read); the directory of the
  executable and the \<^verbatim>\<open>base64\<close> crate are parameters too.
\<close>

datatype ForwardingMode = NoForwarding | LegacyBungee | VelocityModern

record backend_config =
  bc_address :: str
  bc_port :: u16
  bc_forwarding_mode :: ForwardingMode
  bc_forwarding_secret :: "str option"

record proxy_config =
  pc_bind_address :: str
  pc_bind_port :: u16
  pc_motd :: str
  pc_max_players :: i32
  pc_online_mode :: bool
  pc_favicon :: "str option"
  pc_session_server_url :: "str option"
  pc_servers :: "(str \<times> backend_config) list"
  pc_default_server :: str
  pc_script_path :: str
  pc_plugins_dir :: str

definition default_plugins_dir :: str where
  "default_plugins_dir = str ''plugins''"

definition default_proxy_config :: proxy_config where
  "default_proxy_config =
     \<lparr>pc_bind_address = str ''0.0.0.0'', pc_bind_port = 25565,
      pc_motd = section_sign @ str ''aFrameMC '' @ section_sign @ str ''7High-Performance Minecraft Proxy'',
      pc_max_players = 1000, pc_online_mode = True, pc_favicon = None, pc_session_server_url = None,
      pc_servers =
        [(str ''lobby'', \<lparr>bc_address = str ''127.0.0.1'', bc_port = 25566,
                           bc_forwarding_mode = NoForwarding, bc_forwarding_secret = None\<rparr>),
         (str ''steelmc'', \<lparr>bc_address = str ''127.0.0.1'', bc_port = 25567,
                             bc_forwarding_mode = NoForwarding, bc_forwarding_secret = None\<rparr>)],
      pc_default_server = str ''lobby'', pc_script_path = str ''scripts/main.rhai'',
      pc_plugins_dir = str ''plugins''\<rparr>"

section \<open>The favicon\<close>

text \<open>\<^verbatim>\<open>Path::join\<close> on Unix paths: an absolute second path replaces the first.\<close>

definition path_join :: "str \<Rightarrow> str \<Rightarrow> str" where
  "path_join dir p =
     (if starts_with p (str ''/'') \<or> dir = [] then p
      else if last dir = 0x2F then dir @ p
      else dir @ str ''/'' @ p)"

record favicon_env =
  read_file :: "str \<Rightarrow> bytes option"
  exe_dir :: "str option"
  b64_encode :: "bytes \<Rightarrow> str"
  b64_valid :: "str \<Rightarrow> bool"

definition data_uri_prefix :: str where
  "data_uri_prefix = str ''data:image/png;base64,''"

text \<open>One attempt: read the file and encode it.\<close>

definition load_icon :: "favicon_env \<Rightarrow> str \<Rightarrow> str option" where
  "load_icon env path = map_option (\<lambda>bs. data_uri_prefix @ b64_encode env bs) (read_file env path)"

text \<open>The three places in the order the code tries them.\<close>

definition icon_candidates :: "favicon_env \<Rightarrow> str option \<Rightarrow> str \<Rightarrow> str list" where
  "icon_candidates env base_dir name =
     (case base_dir of Some dir \<Rightarrow> [path_join dir name] | None \<Rightarrow> [])
     @ [name]
     @ (case exe_dir env of Some dir \<Rightarrow> [path_join dir name] | None \<Rightarrow> [])"

fun first_some :: "('a \<Rightarrow> 'b option) \<Rightarrow> 'a list \<Rightarrow> 'b option" where
  "first_some f [] = None"
| "first_some f (x # xs) = (case f x of Some y \<Rightarrow> Some y | None \<Rightarrow> first_some f xs)"

definition resolve_favicon_uri :: "favicon_env \<Rightarrow> str option \<Rightarrow> str option \<Rightarrow> str option" where
  "resolve_favicon_uri env favicon base_dir =
     (case favicon of
        Some val \<Rightarrow>
          (let val_trimmed = trim val in
           if starts_with val_trimmed data_uri_prefix then Some val_trimmed
           else
             (case first_some (load_icon env) (icon_candidates env base_dir val_trimmed) of
                Some uri \<Rightarrow> Some uri
              | None \<Rightarrow>
                  if 64 < length val_trimmed \<and> b64_valid env val_trimmed
                  then Some (data_uri_prefix @ val_trimmed)
                  else None))
      | None \<Rightarrow> first_some (load_icon env) (icon_candidates env base_dir (str ''server-icon.png'')))"

definition resolve_favicon :: "favicon_env \<Rightarrow> str option \<Rightarrow> proxy_config \<Rightarrow> proxy_config" where
  "resolve_favicon env base_dir config =
     config\<lparr>pc_favicon := resolve_favicon_uri env (pc_favicon config) base_dir\<rparr>"

section \<open>The command line\<close>

datatype CliAction = Run str | Help | Version

fun parse_cli_loop :: "str \<Rightarrow> str list \<Rightarrow> str + CliAction" where
  "parse_cli_loop config_path [] = Inr (Run config_path)"
| "parse_cli_loop config_path (arg # args) =
     (if arg = str ''-c'' \<or> arg = str ''--config'' then
        (case args of
           p # rest \<Rightarrow> parse_cli_loop p rest
         | [] \<Rightarrow> Inl (str ''Error: --config requires a path argument''))
      else if arg = str ''-v'' \<or> arg = str ''-V'' \<or> arg = str ''--version'' then Inr Version
      else if arg = str ''-h'' \<or> arg = str ''--help'' then Inr Help
      else Inl (str ''Error: Unrecognized option '' @ [0x27] @ arg @ [0x27] @ str ''. Try '' @ [0x27]
                @ str ''--help'' @ [0x27] @ str '' for more information.''))"

definition parse_cli_args :: "str list \<Rightarrow> str + CliAction" where
  "parse_cli_args args = parse_cli_loop (str ''config.toml'') (drop 1 args)"

section \<open>Facts\<close>

lemma first_some_Some: "first_some f xs = Some y \<Longrightarrow> \<exists>x \<in> set xs. f x = Some y"
  by (induction xs) (auto split: option.splits)

lemma load_icon_uri: "load_icon env p = Some uri \<Longrightarrow> starts_with uri data_uri_prefix"
  by (auto simp: load_icon_def starts_with_iff)

text \<open>A favicon that is resolved is always a PNG data URI, whatever the settings file, the file system and the base64
  decoder say; resolving it a second time changes nothing but white space at its ends.\<close>

theorem favicon_is_data_uri:
  assumes "resolve_favicon_uri env favicon base_dir = Some uri"
  shows "starts_with uri data_uri_prefix
    \<and> (trim uri = uri \<longrightarrow> resolve_favicon_uri env (Some uri) base_dir = Some uri)"
proof -
  have "starts_with uri data_uri_prefix"
    using assms
    by (auto simp: resolve_favicon_uri_def Let_def starts_with_iff [of "data_uri_prefix @ _"]
        dest!: first_some_Some load_icon_uri split: option.splits if_splits)
  then show ?thesis by (simp add: resolve_favicon_uri_def Let_def)
qed

theorem favicon_is_data_uri_witness:
  "let env = \<lparr>read_file = (\<lambda>p. if p = str ''dir/server-icon.png'' then Some [1, 2, 3] else None), exe_dir = None,
              b64_encode = (\<lambda>_. str ''AQID''), b64_valid = (\<lambda>_. False)\<rparr>;
       uri = data_uri_prefix @ str ''AQID''
   in resolve_favicon_uri env None (Some (str ''dir'')) = Some uri \<and> starts_with uri data_uri_prefix"
proof -
  let ?env = "\<lparr>read_file = (\<lambda>p. if p = str ''dir/server-icon.png'' then Some [1, 2, 3] else None), exe_dir = None,
              b64_encode = (\<lambda>_. str ''AQID''), b64_valid = (\<lambda>_. False)\<rparr>"
  let ?uri = "data_uri_prefix @ str ''AQID''"
  have "resolve_favicon_uri ?env None (Some (str ''dir'')) = Some ?uri"
    by (simp add: resolve_favicon_uri_def icon_candidates_def load_icon_def path_join_def str_def starts_with_def)
  from favicon_is_data_uri [OF this] this show ?thesis unfolding Let_def by blast
qed

text \<open>The command line: without arguments \<^verbatim>\<open>config.toml\<close> is used; any number of \<^verbatim>\<open>-c\<close> and \<^verbatim>\<open>--config\<close> options may precede the
  rest and the last path counts; help and version win over everything behind them; a missing path and an unknown
  option are errors that name the option.\<close>

theorem cli_arguments:
  assumes "\<forall>f \<in> set (map fst ops). f = str ''-c'' \<or> f = str ''--config''"
  shows "parse_cli_args (prog # concat (map (\<lambda>(f, p). [f, p]) ops) @ rest) =
      parse_cli_loop (last (str ''config.toml'' # map snd ops)) rest
    \<and> parse_cli_loop path [] = Inr (Run path)
    \<and> parse_cli_loop path (str ''--help'' # others) = Inr Help
    \<and> parse_cli_loop path (str ''-V'' # others) = Inr Version
    \<and> parse_cli_loop path [str ''-c''] = Inl (str ''Error: --config requires a path argument'')
    \<and> (parse_cli_loop path (opt # others) = Inl e \<longrightarrow> opt \<notin> {str ''-h'', str ''--help'', str ''-v'', str ''-V'', str ''--version''})"
proof -
  have "parse_cli_loop d (concat (map (\<lambda>(f, p). [f, p]) ops) @ rest) = parse_cli_loop (last (d # map snd ops)) rest" for d
    using assms
  proof (induction ops arbitrary: d)
    case (Cons x ops)
    then have "fst x = str ''-c'' \<or> fst x = str ''--config''" by simp
    with Cons show ?case by (simp add: split_beta)
  qed simp
  moreover have "parse_cli_loop path (opt # others) = Inl e \<longrightarrow>
      opt \<notin> {str ''-h'', str ''--help'', str ''-v'', str ''-V'', str ''--version''}"
    by (rule impI, rule notI) (elim insertE emptyE, simp_all)
  ultimately show ?thesis by (simp add: parse_cli_args_def)
qed

theorem cli_arguments_witness:
  "parse_cli_args [str ''framemc'', str ''-c'', str ''a.toml'', str ''--config'', str ''b.toml''] = Inr (Run (str ''b.toml''))"
  using cli_arguments [of "[(str ''-c'', str ''a.toml''), (str ''--config'', str ''b.toml'')]" "str ''framemc''" "[]"]
  by simp

end
