(* ===== verification/Forwarding.thy ===== *)
theory Forwarding
  imports Settings
begin

text \<open>
  \<^verbatim>\<open>src/src/protocol/forwarding.rs\<close>: how the proxy opens a session on a backend server and tells it who the
  player is. HMAC-SHA256, the JSON text of the properties, the text form of UUIDs and the TCP connect belong to other
  crates and are parameters, gathered in \<open>fwd_env\<close>.

  The lemmas show the two packet contracts, that the Velocity payload determines the player data, that
  the player data leaves the proxy only in answer to a request on the Velocity channel and under the
  signature of the configured secret, and what each branch of the negotiation writes.
\<close>

definition VELOCITY_FORWARDING_CHANNEL :: str where
  "VELOCITY_FORWARDING_CHANNEL = str ''velocity:player_info''"

definition VELOCITY_FORWARDING_VERSION :: i32 where
  "VELOCITY_FORWARDING_VERSION = 4"

section \<open>Login plugin messages\<close>

record login_plugin_request =
  lpq_message_id :: i32
  lpq_channel :: str
  lpq_data :: bytes

definition login_plugin_request_encode :: "login_plugin_request \<Rightarrow> raw_packet" where
  "login_plugin_request_encode p =
     RawPacket 0x04 (encode_varint (lpq_message_id p) @ put_prefixed (lpq_channel p) @ lpq_data p)"

definition login_plugin_request_decode :: "raw_packet \<Rightarrow> login_plugin_request res" where
  "login_plugin_request_decode packet =
     (if rp_id packet \<noteq> 0x04 then Inl (InvalidPacketId (rp_id packet))
      else
        bindE (decode_varint (payload packet)) (\<lambda>(message_id, cursor).
        bindE (take_string (str ''unexpected EOF reading channel in LoginPluginRequest'')
                 (str ''invalid UTF-8 in channel'') cursor) (\<lambda>(channel, cursor).
        Inr \<lparr>lpq_message_id = message_id, lpq_channel = channel, lpq_data = cursor\<rparr>)))"

record login_plugin_response =
  lpr_message_id :: i32
  lpr_successful :: bool
  lpr_data :: bytes

definition login_plugin_response_encode :: "login_plugin_response \<Rightarrow> raw_packet" where
  "login_plugin_response_encode p =
     RawPacket 0x02
       (encode_varint (lpr_message_id p) @ put_bool (lpr_successful p)
        @ (if lpr_successful p then lpr_data p else []))"

definition login_plugin_response_decode :: "raw_packet \<Rightarrow> login_plugin_response res" where
  "login_plugin_response_decode packet =
     (if rp_id packet \<noteq> 0x02 then Inl (InvalidPacketId (rp_id packet))
      else
        bindE (decode_varint (payload packet)) (\<lambda>(message_id, cursor).
        bindE (get_u8 (str ''unexpected EOF reading successful flag in LoginPluginResponse'') cursor) (\<lambda>(flag, cursor).
        let successful = (flag \<noteq> 0);
            data = (if successful \<and> cursor \<noteq> [] then cursor else [])
        in Inr \<lparr>lpr_message_id = message_id, lpr_successful = successful, lpr_data = data\<rparr>)))"

section \<open>Forwarding data\<close>

definition create_velocity_forwarding_payload :: "player_profile \<Rightarrow> str \<Rightarrow> bytes" where
  "create_velocity_forwarding_payload profile client_ip =
     encode_varint VELOCITY_FORWARDING_VERSION
     @ put_prefixed client_ip
     @ pr_id profile
     @ put_prefixed (pr_name profile)
     @ encode_varint (usize_as_i32 (length (pr_properties profile)))
     @ concat (map put_property (pr_properties profile))"

record fwd_env =
  fe_z :: zlib
  fe_hmac :: "bytes \<Rightarrow> bytes \<Rightarrow> str + bytes"
  fe_json :: "profile_property list \<Rightarrow> str + str"
  fe_uuid :: uuid_ops
  fe_connect :: "str \<Rightarrow> ((io_kind \<times> str) + conn) option"

definition calculate_velocity_hmac :: "fwd_env \<Rightarrow> bytes \<Rightarrow> bytes \<Rightarrow> bytes res" where
  "calculate_velocity_hmac env secret data =
     (case fe_hmac env secret data of
        Inl e \<Rightarrow> Inl (CryptoError (str ''Invalid HMAC-SHA256 key: '' @ e))
      | Inr mac \<Rightarrow> Inr mac)"

definition create_velocity_response_data :: "fwd_env \<Rightarrow> str \<Rightarrow> player_profile \<Rightarrow> str \<Rightarrow> bytes res" where
  "create_velocity_response_data env secret profile client_ip =
     (let data = create_velocity_forwarding_payload profile client_ip in
      bindE (calculate_velocity_hmac env secret data) (\<lambda>hmac_sig. Inr (hmac_sig @ data)))"

definition create_bungeecord_handshake_address :: "fwd_env \<Rightarrow> str \<Rightarrow> str \<Rightarrow> player_profile \<Rightarrow> str res" where
  "create_bungeecord_handshake_address env target_host client_ip profile =
     (let uuid_without_hyphens = u_simple (fe_uuid env) (pr_id profile) in
      case fe_json env (pr_properties profile) of
        Inl e \<Rightarrow> Inl (ConfigError (str ''Failed to serialize profile properties for BungeeCord forwarding: '' @ e))
      | Inr properties_json \<Rightarrow>
          Inr (target_host @ [0] @ client_ip @ [0] @ uuid_without_hyphens @ [0] @ properties_json))"

section \<open>The negotiation\<close>

definition handshake_address :: "fwd_env \<Rightarrow> backend_config \<Rightarrow> player_profile \<Rightarrow> str \<Rightarrow> str res" where
  "handshake_address env backend profile client_ip =
     (case bc_forwarding_mode backend of
        LegacyBungee \<Rightarrow> create_bungeecord_handshake_address env (bc_address backend) client_ip profile
      | VelocityModern \<Rightarrow> Inr (bc_address backend)
      | NoForwarding \<Rightarrow> Inr (bc_address backend))"

definition online_mode_message :: str where
  "online_mode_message = str ''Downstream backend server has online-mode=true enabled! Set online-mode=false in the backend server configuration.''"

text \<open>The answer to the first packet of the backend in the Velocity mode.\<close>

definition answer_forwarding_request ::
  "fwd_env \<Rightarrow> str \<Rightarrow> player_profile \<Rightarrow> str \<Rightarrow> raw_packet \<Rightarrow> unit io" where
  "answer_forwarding_request env secret profile client_ip incoming =
     (if rp_id incoming = 0x04 then
        bindS (liftS (login_plugin_request_decode incoming)) (\<lambda>req.
        if lpq_channel req = VELOCITY_FORWARDING_CHANNEL then
          bindS (liftS (create_velocity_response_data env secret profile client_ip)) (\<lambda>forwarding_data.
          write_packet (fe_z env)
            (login_plugin_response_encode
               \<lparr>lpr_message_id = lpq_message_id req, lpr_successful = True, lpr_data = forwarding_data\<rparr>))
        else failS (AuthenticationFailed (str ''Unexpected LoginPluginRequest channel: '' @ [0x27] @ lpq_channel req
               @ [0x27] @ str '', expected '' @ [0x27] @ VELOCITY_FORWARDING_CHANNEL @ [0x27])))
      else if rp_id incoming = 0x01 then failS (AuthenticationFailed online_mode_message)
      else if rp_id incoming = 0x00 then
        failS (AuthenticationFailed (str ''Backend rejected connection during login: '' @ from_utf8_lossy (payload incoming)))
      else failS (AuthenticationFailed (str ''Expected LoginPluginRequest (0x04) from backend, got packet 0x''
             @ hex_02X (unat (rp_id incoming)))))"

definition dispatch_forwarding ::
  "fwd_env \<Rightarrow> backend_config \<Rightarrow> player_profile \<Rightarrow> str \<Rightarrow> i32 \<Rightarrow> unit io" where
  "dispatch_forwarding env backend profile client_ip protocol_version =
     bindS (liftS (handshake_address env backend profile client_ip)) (\<lambda>handshake_addr.
     bindS (write_packet (fe_z env)
              (handshake_encode \<lparr>hs_protocol_version = protocol_version, hs_server_address = handshake_addr,
                                 hs_server_port = bc_port backend, hs_next_state = Login\<rparr>)) (\<lambda>_.
     bindS (write_packet (fe_z env)
              (login_start_encode \<lparr>lst_username = pr_name profile, lst_player_uuid = pr_id profile\<rparr>)) (\<lambda>_.
     if bc_forwarding_mode backend = VelocityModern then
       (case bc_forwarding_secret backend of
          None \<Rightarrow>
            failS (ConfigError (str ''Backend server at '' @ bc_address backend @ str '':'' @ dec_nat (unat (bc_port backend))
              @ str '' requires '' @ [0x27] @ str ''forwarding_secret'' @ [0x27] @ str '' for velocity_modern forwarding''))
        | Some secret \<Rightarrow>
            bindS (timeoutS (BackendConnectionFailed (str ''Timeout waiting for backend forwarding response''))
                     (read_packet (fe_z env) DEFAULT_MAX_PACKET_SIZE))
              (\<lambda>incoming. answer_forwarding_request env secret profile client_ip incoming))
     else returnS ())))"

text \<open>The connection does not exist before \<^verbatim>\<open>TcpStream::connect\<close> returns it, so this operation returns the new
  connection with its result.\<close>

definition connect_and_forward ::
  "fwd_env \<Rightarrow> backend_config \<Rightarrow> player_profile \<Rightarrow> str \<Rightarrow> i32 \<Rightarrow> conn res option" where
  "connect_and_forward env backend profile client_ip protocol_version =
     (let target = bc_address backend @ str '':'' @ dec_nat (unat (bc_port backend)) in
      case fe_connect env target of
        None \<Rightarrow> Some (Inl (BackendConnectionFailed (str ''Connection to backend '' @ target @ str '' timed out'')))
      | Some (Inl (kind, e)) \<Rightarrow>
          Some (Inl (Io kind (str ''Failed to connect to backend server at '' @ target @ str '': '' @ e)))
      | Some (Inr stream) \<Rightarrow>
          (case dispatch_forwarding env backend profile client_ip protocol_version stream of
             (None, _) \<Rightarrow> None
           | (Some (Inl e), _) \<Rightarrow> Some (Inl e)
           | (Some (Inr _), stream) \<Rightarrow> Some (Inr stream)))"

section \<open>Contracts of the packets\<close>

definition wf_login_plugin_request :: "login_plugin_request \<Rightarrow> bool" where
  "wf_login_plugin_request p \<longleftrightarrow> wf_string (lpq_channel p)"

definition wf_login_plugin_response :: "login_plugin_response \<Rightarrow> bool" where
  "wf_login_plugin_response p \<longleftrightarrow> lpr_successful p \<or> lpr_data p = []"

interpretation login_plugin_request_codec:
  packet_codec login_plugin_request_encode login_plugin_request_decode "0x04" wf_login_plugin_request
  by unfold_locales (auto simp: login_plugin_request_encode_def login_plugin_request_decode_def
      wf_login_plugin_request_def codec_simps)

interpretation login_plugin_response_codec:
  packet_codec login_plugin_response_encode login_plugin_response_decode "0x02" wf_login_plugin_response
  by unfold_locales (auto simp: login_plugin_response_encode_def login_plugin_response_decode_def
      wf_login_plugin_response_def codec_simps put_bool_def Let_def)

section \<open>The Velocity payload\<close>

text \<open>What a backend reads from the payload.\<close>

definition parse_velocity_payload :: "bytes \<Rightarrow> (i32 \<times> str \<times> player_profile) res" where
  "parse_velocity_payload buf =
     bindE (decode_varint buf) (\<lambda>(version, buf).
     bindE (take_string [] [] buf) (\<lambda>(ip, buf).
     bindE (get_bytes [] 16 buf) (\<lambda>(uuid, buf).
     bindE (take_string [] [] buf) (\<lambda>(name, buf).
     bindE (decode_varint buf) (\<lambda>(count, buf).
     bindE (decode_n take_property (nat (sint count)) buf) (\<lambda>(props, buf).
     Inr (version, ip, \<lparr>pr_id = uuid, pr_name = name, pr_properties = props\<rparr>)))))))"

definition wf_profile :: "player_profile \<Rightarrow> bool" where
  "wf_profile p \<longleftrightarrow> wf_uuid (pr_id p) \<and> wf_string (pr_name p) \<and> length (pr_properties p) < 2 ^ 31
     \<and> list_all wf_property (pr_properties p)"

lemma velocity_payload_roundtrip:
  assumes "wf_profile p" "wf_string ip"
  shows "parse_velocity_payload (create_velocity_forwarding_payload p ip) = Inr (4, ip, p)"
  using assms property_field.dec_enc_list [of "pr_properties p" "[]"]
  by (simp add: parse_velocity_payload_def create_velocity_forwarding_payload_def wf_profile_def wf_uuid_def
      VELOCITY_FORWARDING_VERSION_def codec_simps cast_simps list_all_iff)

section \<open>What is written\<close>

lemma write_packet_accepted:
  "wfate c = [] \<Longrightarrow> write_packet z p c = (Some (Inr ()), c\<lparr>outb := outb c @ frame p\<rparr>)"
  by (simp add: write_packet_def write_packet_with_compression_def encode_packet_with_compression_def Let_def bindS_def
      liftS_def write_all_def flush_def returnS_def frame_def)

lemma read_packet_keeps:
  assumes "read_packet z mx c = (r, c')"
  shows "outb c' = outb c" "wfate c' = wfate c"
  using assms reads_only_read_packet [of z mx None] by (auto simp: reads_only_def read_packet_def dest: spec [of _ c])

definition opening_frames :: "backend_config \<Rightarrow> player_profile \<Rightarrow> i32 \<Rightarrow> str \<Rightarrow> bytes" where
  "opening_frames backend profile v addr =
     frame (handshake_encode \<lparr>hs_protocol_version = v, hs_server_address = addr,
              hs_server_port = bc_port backend, hs_next_state = Login\<rparr>)
     @ frame (login_start_encode \<lparr>lst_username = pr_name profile, lst_player_uuid = pr_id profile\<rparr>)"

lemma dispatch_opening:
  assumes "wfate c = []" and "handshake_address env backend profile ip = Inr addr"
  shows "dispatch_forwarding env backend profile ip v c =
     (if bc_forwarding_mode backend = VelocityModern then
       (case bc_forwarding_secret backend of
          None \<Rightarrow>
            failS (ConfigError (str ''Backend server at '' @ bc_address backend @ str '':'' @ dec_nat (unat (bc_port backend))
              @ str '' requires '' @ [0x27] @ str ''forwarding_secret'' @ [0x27] @ str '' for velocity_modern forwarding''))
        | Some secret \<Rightarrow>
            bindS (timeoutS (BackendConnectionFailed (str ''Timeout waiting for backend forwarding response''))
                     (read_packet (fe_z env) DEFAULT_MAX_PACKET_SIZE))
              (\<lambda>incoming. answer_forwarding_request env secret profile ip incoming))
      else returnS ()) (c\<lparr>outb := outb c @ opening_frames backend profile v addr\<rparr>)"
  using assms by (simp add: dispatch_forwarding_def bindS_def [of "liftS _"] liftS_def
      bindS_def [of "write_packet _ _"] write_packet_accepted opening_frames_def)

lemma answer_forwarding_request_cases:
  assumes "wfate c = []" and "answer_forwarding_request env secret profile ip incoming c = (r, c')"
  shows "(\<exists>req mac. r = Some (Inr ()) \<and> login_plugin_request_decode incoming = Inr req
        \<and> lpq_channel req = VELOCITY_FORWARDING_CHANNEL
        \<and> fe_hmac env secret (create_velocity_forwarding_payload profile ip) = Inr mac
        \<and> c' = c\<lparr>outb := outb c @ frame (login_plugin_response_encode
              \<lparr>lpr_message_id = lpq_message_id req, lpr_successful = True,
               lpr_data = mac @ create_velocity_forwarding_payload profile ip\<rparr>)\<rparr>)
      \<or> (\<exists>e. r = Some (Inl e) \<and> c' = c)"
  using assms
  by (auto simp: answer_forwarding_request_def bindS_def liftS_def failS_def write_packet_accepted
      create_velocity_response_data_def calculate_velocity_hmac_def Let_def bindE_def
      split: if_splits sum.splits)

lemma dispatch_velocity_cases:
  assumes "wfate c = []" and "bc_forwarding_mode backend = VelocityModern" and "bc_forwarding_secret backend = Some secret"
    and "dispatch_forwarding env backend profile ip v c = (r, c')"
  shows "r = Some (Inr ()) \<and> (\<exists>incoming req mac.
        login_plugin_request_decode incoming = Inr req \<and> lpq_channel req = VELOCITY_FORWARDING_CHANNEL
        \<and> fst (read_packet (fe_z env) DEFAULT_MAX_PACKET_SIZE
                (c\<lparr>outb := outb c @ opening_frames backend profile v (bc_address backend)\<rparr>)) = Some (Inr incoming)
        \<and> fe_hmac env secret (create_velocity_forwarding_payload profile ip) = Inr mac
        \<and> outb c' = outb c @ opening_frames backend profile v (bc_address backend)
            @ frame (login_plugin_response_encode
                \<lparr>lpr_message_id = lpq_message_id req, lpr_successful = True,
                 lpr_data = mac @ create_velocity_forwarding_payload profile ip\<rparr>))
    \<or> (\<exists>e. r = Some (Inl e) \<and> outb c' = outb c @ opening_frames backend profile v (bc_address backend))"
proof -
  let ?c = "c\<lparr>outb := outb c @ opening_frames backend profile v (bc_address backend)\<rparr>"
  let ?read = "read_packet (fe_z env) DEFAULT_MAX_PACKET_SIZE"
  have addr: "handshake_address env backend profile ip = Inr (bc_address backend)"
    using assms(2) by (simp add: handshake_address_def)
  obtain rr c1 where rd: "?read ?c = (rr, c1)" by fastforce
  have k: "outb c1 = outb ?c" "wfate c1 = []"
    using read_packet_keeps [OF rd] assms(1) by simp_all
  have d: "bindS (timeoutS (BackendConnectionFailed (str ''Timeout waiting for backend forwarding response'')) ?read)
      (\<lambda>incoming. answer_forwarding_request env secret profile ip incoming) ?c = (r, c')"
    using assms(4) unfolding dispatch_opening [OF assms(1) addr] by (simp add: assms(2,3))
  show ?thesis
  proof (cases rr)
    case None
    with rd d k show ?thesis by (auto simp: bindS_def timeoutS_def)
  next
    case (Some res)
    show ?thesis
    proof (cases res)
      case (Inl e)
      with Some rd d k show ?thesis by (auto simp: bindS_def timeoutS_def)
    next
      case (Inr incoming)
      with Some rd d have "answer_forwarding_request env secret profile ip incoming c1 = (r, c')"
        by (simp add: bindS_def timeoutS_def)
      from answer_forwarding_request_cases [OF k(2) this] rd Some Inr k(1) show ?thesis
        by auto
    qed
  qed
qed
lemma dispatch_returns:
  assumes "wfate s = []"
  shows "fst (dispatch_forwarding env backend profile ip v s) \<noteq> None"
proof (cases "handshake_address env backend profile ip")
  case (Inl e)
  then show ?thesis by (simp add: dispatch_forwarding_def failS_def)
next
  case (Inr addr)
  show ?thesis
  proof (cases "bc_forwarding_mode backend = VelocityModern \<and> bc_forwarding_secret backend \<noteq> None")
    case True
    then obtain secret where "bc_forwarding_mode backend = VelocityModern" "bc_forwarding_secret backend = Some secret"
      by auto
    from dispatch_velocity_cases [OF assms this prod.collapse [symmetric], of env profile ip v] show ?thesis
      by (metis option.distinct(1))
  next
    case False
    then show ?thesis
      unfolding dispatch_opening [OF assms Inr] by (auto simp: failS_def returnS_def split: option.splits)
  qed
qed

section \<open>Properties\<close>

text \<open>C13. In the Velocity mode the player data leaves the proxy only under the configured secret and only when the backend
  asked for it: if the negotiation succeeds, the backend sent a login plugin request on the Velocity
  channel, and the proxy wrote the handshake, the login start and one answer with the same message number,
  whose data is the signature of the payload followed by the payload; if it fails, only the opening was
  written. It never waits for ever.\<close>

theorem velocity_data_only_on_request:
  assumes "wfate c = []" and "bc_forwarding_mode backend = VelocityModern" and "bc_forwarding_secret backend = Some secret"
    and "dispatch_forwarding env backend profile ip v c = (r, c')"
  shows "r = Some (Inr ()) \<and> (\<exists>incoming req mac.
        login_plugin_request_decode incoming = Inr req \<and> lpq_channel req = VELOCITY_FORWARDING_CHANNEL
        \<and> fst (read_packet (fe_z env) DEFAULT_MAX_PACKET_SIZE
                (c\<lparr>outb := outb c @ opening_frames backend profile v (bc_address backend)\<rparr>)) = Some (Inr incoming)
        \<and> fe_hmac env secret (create_velocity_forwarding_payload profile ip) = Inr mac
        \<and> outb c' = outb c @ opening_frames backend profile v (bc_address backend)
            @ frame (login_plugin_response_encode
                \<lparr>lpr_message_id = lpq_message_id req, lpr_successful = True,
                 lpr_data = mac @ create_velocity_forwarding_payload profile ip\<rparr>))
    \<or> (\<exists>e. r = Some (Inl e) \<and> outb c' = outb c @ opening_frames backend profile v (bc_address backend))"
  using assms by (rule dispatch_velocity_cases)

definition example_env :: fwd_env where
  "example_env = \<lparr>fe_z = stored, fe_hmac = (\<lambda>secret data. Inr (replicate 32 (fold (+) (secret @ data) 0))),
     fe_json = (\<lambda>_. Inr (str ''[]'')),
     fe_uuid = \<lparr>u_hyphenated = hex_encode, u_simple = hex_encode, u_parse = (\<lambda>_. None)\<rparr>,
     fe_connect = (\<lambda>_. Some (Inr \<lparr>inb = [], in_end = Eof, outb = [], wfate = []\<rparr>))\<rparr>"

definition example_backend :: "ForwardingMode \<Rightarrow> backend_config" where
  "example_backend mode = \<lparr>bc_address = str ''127.0.0.1'', bc_port = 25566, bc_forwarding_mode = mode,
     bc_forwarding_secret = Some (str ''secret'')\<rparr>"

definition example_profile :: player_profile where
  "example_profile = \<lparr>pr_id = nil_uuid, pr_name = str ''Steve'',
     pr_properties = [\<lparr>pp_name = str ''textures'', pp_value = str ''x'', pp_signature = Some (str ''y'')\<rparr>]\<rparr>"

theorem velocity_data_only_on_request_witness:
  "let c = \<lparr>inb = [], in_end = Eof, outb = [], wfate = []\<rparr>;
       d = dispatch_forwarding example_env (example_backend VelocityModern) example_profile (str ''1.2.3.4'') 765 c
   in (\<exists>e. fst d = Some (Inl e))
      \<and> outb (snd d) = opening_frames (example_backend VelocityModern) example_profile 765 (str ''127.0.0.1'')"
proof -
  let ?c = "\<lparr>inb = [], in_end = Eof, outb = [], wfate = []\<rparr>"
  let ?b = "example_backend VelocityModern"
  let ?d = "dispatch_forwarding example_env ?b example_profile (str ''1.2.3.4'') 765 ?c"
  have r: "fst (read_packet z mx (?c\<lparr>outb := x\<rparr>)) \<noteq> Some (Inr p)" for z mx x p
    by (simp add: read_packet_def read_packet_with_compression_def bindS_def read_varint_def read_var_loop.simps
        read_u8_def at_end_def)
  have "wfate ?c = []" "bc_forwarding_mode ?b = VelocityModern" "bc_forwarding_secret ?b = Some (str ''secret'')"
    by (simp_all add: example_backend_def)
  from velocity_data_only_on_request [OF this, of example_env example_profile "str ''1.2.3.4''" 765 "fst ?d" "snd ?d"] r
  show ?thesis by (auto simp: Let_def example_backend_def)
qed



text \<open>C32. The Velocity payload determines the player: a backend that parses it gets back the forwarding version, the
  client's address and the whole profile, in particular every property with its signature.\<close>

theorem velocity_payload_parses:
  assumes "wf_profile profile" and "wf_string ip"
  shows "parse_velocity_payload (create_velocity_forwarding_payload profile ip) =
      Inr (VELOCITY_FORWARDING_VERSION, ip, profile)
    \<and> (create_velocity_response_data env secret profile ip = Inr data \<longleftrightarrow>
        (\<exists>mac. fe_hmac env secret (create_velocity_forwarding_payload profile ip) = Inr mac
           \<and> data = mac @ create_velocity_forwarding_payload profile ip))"
  using velocity_payload_roundtrip [OF assms]
  by (auto simp: VELOCITY_FORWARDING_VERSION_def create_velocity_response_data_def calculate_velocity_hmac_def Let_def
      bindE_def split: sum.splits)

theorem velocity_payload_parses_witness:
  "parse_velocity_payload (create_velocity_forwarding_payload example_profile (str ''1.2.3.4'')) =
     Inr (VELOCITY_FORWARDING_VERSION, str ''1.2.3.4'', example_profile)"
proof -
  have "wf_string (str ''1.2.3.4'')" "wf_profile example_profile"
    by (simp_all add: wf_string_def fits_i32_def str_def utf8_first_def of_char_def wf_profile_def example_profile_def
        wf_uuid_def nil_uuid_def wf_property_def)
  from velocity_payload_parses [OF this(2,1)] show ?thesis by blast
qed

text \<open>Opening a session on a backend that accepts what is written always comes to an end, with a connection or an
  error: the TCP connect and the wait for the backend's answer both carry a timeout.\<close>

theorem connect_and_forward_returns:
  assumes "\<And>target stream. fe_connect env target = Some (Inr stream) \<Longrightarrow> wfate stream = []"
  shows "connect_and_forward env backend profile ip v \<noteq> None"
proof -
  have "fst (dispatch_forwarding env backend profile ip v s) \<noteq> None" if "fe_connect env target = Some (Inr s)" for target s
    using assms [OF that] by (rule dispatch_returns)
  then show ?thesis
    by (fastforce simp: connect_and_forward_def Let_def split: option.splits sum.splits prod.splits)
qed

theorem connect_and_forward_returns_witness:
  "connect_and_forward example_env (example_backend VelocityModern) example_profile (str ''1.2.3.4'') 765 \<noteq> None"
  by (rule connect_and_forward_returns) (auto simp: example_env_def)

end
