(* ===== verification/Status_Ping.thy ===== *)
theory Status_Ping
  imports Forwarding
begin

text \<open>
  \<^verbatim>\<open>src/src/protocol/status.rs\<close>: the answer to the server list ping. The JSON text of the status response
  (\<^verbatim>\<open>serde_json\<close>) is the parameter \<open>to_json\<close>. The property lists every run of \<open>handle_status_with_version\<close>
  on a connection that accepts what is written: what is answered, and which inputs are refused.
\<close>

record version_info =
  vi_name :: str
  vi_protocol :: i32

record player_sample =
  ps_name :: str
  ps_id :: str

record players_info =
  pi_max :: i32
  pi_online :: i32
  pi_sample :: "player_sample list"

record status_response =
  sr_version :: version_info
  sr_players :: players_info
  sr_description :: str
  sr_favicon :: "str option"
  sr_enforces_secure_chat :: bool

definition build_status_response :: "proxy_config \<Rightarrow> i32 \<Rightarrow> status_response" where
  "build_status_response config protocol_version =
     \<lparr>sr_version = \<lparr>vi_name = str ''FrameMC'', vi_protocol = protocol_version\<rparr>,
      sr_players = \<lparr>pi_max = pc_max_players config, pi_online = 0, pi_sample = []\<rparr>,
      sr_description = pc_motd config,
      sr_favicon = pc_favicon config,
      sr_enforces_secure_chat = False\<rparr>"

text \<open>The \<^verbatim>\<open>match ping_read\<close>: here \<open>None\<close> is the timeout.\<close>

definition answer_ping :: "zlib \<Rightarrow> raw_packet res option \<Rightarrow> unit io" where
  "answer_ping z ping_read =
     (case ping_read of
        Some (Inr ping_packet) \<Rightarrow>
          if rp_id ping_packet \<noteq> 0x01 then failS (InvalidPacketId (rp_id ping_packet))
          else if length (payload ping_packet) < 8
          then failS (Io UnexpectedEof (str ''ping packet payload must contain 8 bytes (i64)''))
          else write_packet z (RawPacket 0x01 (payload ping_packet))
      | Some (Inl (Io UnexpectedEof m)) \<Rightarrow> returnS ()
      | Some (Inl e) \<Rightarrow> failS e
      | None \<Rightarrow> returnS ())"

definition handle_status_with_version ::
  "zlib \<Rightarrow> (status_response \<Rightarrow> str + str) \<Rightarrow> proxy_config \<Rightarrow> i32 \<Rightarrow> unit io" where
  "handle_status_with_version z to_json config protocol_version =
     bindS (timeoutS (Io TimedOut (str ''Status request timed out'')) (read_packet z DEFAULT_MAX_PACKET_SIZE))
       (\<lambda>request_packet.
     if rp_id request_packet \<noteq> 0x00 then failS (InvalidPacketId (rp_id request_packet))
     else
       (case to_json (build_status_response config protocol_version) of
          Inl e \<Rightarrow> failS (ConfigError (str ''Failed to serialize status response: '' @ e))
        | Inr json_str \<Rightarrow>
            bindS (write_packet z (RawPacket 0x00 (put_prefixed json_str))) (\<lambda>_ c.
            let (ping_read, c') = read_packet z DEFAULT_MAX_PACKET_SIZE c in
            answer_ping z ping_read c')))"

definition handle_status :: "zlib \<Rightarrow> (status_response \<Rightarrow> str + str) \<Rightarrow> proxy_config \<Rightarrow> unit io" where
  "handle_status z to_json config = handle_status_with_version z to_json config 765"

section \<open>Facts\<close>

lemma answer_ping_returns:
  assumes "wfate c = []"
  shows "\<exists>r. answer_ping z p c = (Some r, c\<lparr>outb := outb c @ (case p of
      Some (Inr pkt) \<Rightarrow> if rp_id pkt = 1 \<and> 8 \<le> length (payload pkt) then frame pkt else []
    | _ \<Rightarrow> [])\<rparr>)"
  using assms
  by (auto simp: answer_ping_def failS_def returnS_def write_packet_accepted split: option.splits sum.splits
      proxy_error.splits io_kind.splits) (metis RawPacket_eta)+

lemma answer_ping_echo:
  "rp_id p = 1 \<Longrightarrow> 8 \<le> length (payload p) \<Longrightarrow> wfate c = [] \<Longrightarrow>
   answer_ping z (Some (Inr p)) c = (Some (Inr ()), c\<lparr>outb := outb c @ frame p\<rparr>)"
  by (simp add: answer_ping_def write_packet_accepted RawPacket_self)

lemma default_max_small: "DEFAULT_MAX_PACKET_SIZE < 2 ^ 31"
  by (simp add: DEFAULT_MAX_PACKET_SIZE_def)

lemmas read_packet_default = read_packet_frame [OF _ default_max_small]

text \<open>After the request, the response is written and the ping is read behind it.\<close>

lemma status_after_request:
  assumes "wfate c = []" "to_json (build_status_response config v) = Inr json"
    and "wire_length req \<le> DEFAULT_MAX_PACKET_SIZE" "inb c = frame req @ rest" "rp_id req = 0"
  shows "handle_status_with_version z to_json config v c =
    (let (p, c') = read_packet z DEFAULT_MAX_PACKET_SIZE
        (c\<lparr>inb := rest, outb := outb c @ frame (RawPacket 0 (put_prefixed json))\<rparr>)
     in answer_ping z p c')"
  using assms read_packet_default [OF assms(3,4), of z]
  by (simp add: handle_status_with_version_def bindS_def timeoutS_def write_packet_accepted)

lemma read_packet_empty:
  "inb c = [] \<Longrightarrow> in_end c = Silent \<Longrightarrow> read_packet z mx c = (None, c)"
  "inb c = [] \<Longrightarrow> in_end c = Eof \<Longrightarrow> read_packet z mx c = (Some (Inl (Io UnexpectedEof u8_eof)), c)"
  by (auto simp: read_packet_def read_packet_with_compression_def bindS_def read_varint_def read_var_loop.simps
      read_u8_def at_end_def)

lemma handle_status_returns:
  assumes "wfate c = []"
  shows "fst (handle_status_with_version z to_json config v c) \<noteq> None"
proof -
  let ?read = "read_packet z DEFAULT_MAX_PACKET_SIZE"
  obtain r c1 where rd: "?read c = (r, c1)" by fastforce
  have w: "wfate c1 = []" using read_packet_keeps [OF rd] assms by simp
  have step: "fst (let (p, c') = ?read c2 in answer_ping z p c') \<noteq> None" if "wfate c2 = []" for c2
  proof -
    obtain p c3 where rd2: "?read c2 = (p, c3)" by fastforce
    with read_packet_keeps [OF rd2] that answer_ping_returns [of c3 z p] show ?thesis by auto
  qed
  show ?thesis
    using rd w step
    by (auto simp: handle_status_with_version_def bindS_def timeoutS_def failS_def write_packet_accepted
        split: option.split sum.split)
qed

lemma status_cases:
  assumes "wfate c = []" and "to_json (build_status_response config v) = Inr json"
    and "wire_length req \<le> DEFAULT_MAX_PACKET_SIZE" and "wire_length ping \<le> DEFAULT_MAX_PACKET_SIZE"
    and "rp_id ping = 1" and "8 \<le> length (payload ping)"
  shows "fst (handle_status_with_version z to_json config v c) \<noteq> None"
    and "inb c = frame req @ rest \<Longrightarrow> rp_id req \<noteq> 0 \<Longrightarrow>
      handle_status_with_version z to_json config v c = (Some (Inl (InvalidPacketId (rp_id req))), c\<lparr>inb := rest\<rparr>)"
    and "inb c = frame req @ frame ping @ rest \<Longrightarrow> rp_id req = 0 \<Longrightarrow>
      handle_status_with_version z to_json config v c =
        (Some (Inr ()), c\<lparr>inb := rest, outb := outb c @ frame (RawPacket 0 (put_prefixed json)) @ frame ping\<rparr>)"
    and "inb c = frame req \<Longrightarrow> rp_id req = 0 \<Longrightarrow> in_end c = Silent \<or> in_end c = Eof \<Longrightarrow>
      handle_status_with_version z to_json config v c =
        (Some (Inr ()), c\<lparr>inb := [], outb := outb c @ frame (RawPacket 0 (put_prefixed json))\<rparr>)"
proof -
  show "fst (handle_status_with_version z to_json config v c) \<noteq> None"
    using assms(1) by (rule handle_status_returns)
  show "handle_status_with_version z to_json config v c = (Some (Inl (InvalidPacketId (rp_id req))), c\<lparr>inb := rest\<rparr>)"
    if "inb c = frame req @ rest" "rp_id req \<noteq> 0"
    using read_packet_default [OF assms(3) that(1), of z] that(2)
    by (simp add: handle_status_with_version_def bindS_def timeoutS_def failS_def)
  show "handle_status_with_version z to_json config v c =
        (Some (Inr ()), c\<lparr>inb := rest, outb := outb c @ frame (RawPacket 0 (put_prefixed json)) @ frame ping\<rparr>)"
    if "inb c = frame req @ frame ping @ rest" "rp_id req = 0"
  proof -
    let ?c = "c\<lparr>inb := frame ping @ rest, outb := outb c @ frame (RawPacket 0 (put_prefixed json))\<rparr>"
    have "read_packet z DEFAULT_MAX_PACKET_SIZE ?c = (Some (Inr ping), ?c\<lparr>inb := rest\<rparr>)"
      by (rule read_packet_default [OF assms(4)]) simp
    then show ?thesis
      using assms(1,5,6) status_after_request [where to_json = to_json and config = config and v = v, OF assms(1-3) that]
      by (simp add: answer_ping_echo)
  qed
  show "handle_status_with_version z to_json config v c =
        (Some (Inr ()), c\<lparr>inb := [], outb := outb c @ frame (RawPacket 0 (put_prefixed json))\<rparr>)"
    if "inb c = frame req" "rp_id req = 0" "in_end c = Silent \<or> in_end c = Eof"
    using that(3) status_after_request [where to_json = to_json and config = config and v = v, OF assms(1-3), of "[]" z] that(1,2)
    by (auto simp: read_packet_empty answer_ping_def returnS_def)
qed

text \<open>C31. The status exchange: when the first packet is a status request and the second a ping of at least eight bytes, the
  proxy writes the status response and then the very ping packet it read, and nothing else; any other first
  packet is refused before anything is written; a silent client or one that leaves after the
  response is no error. The exchange always ends.\<close>

theorem status_exchange:
  assumes "wfate c = []" and "to_json (build_status_response config v) = Inr json"
    and "wire_length req \<le> DEFAULT_MAX_PACKET_SIZE" and "wire_length ping \<le> DEFAULT_MAX_PACKET_SIZE"
    and "rp_id ping = 1" and "8 \<le> length (payload ping)"
  shows "fst (handle_status_with_version z to_json config v c) \<noteq> None
    \<and> (inb c = frame req @ rest \<longrightarrow> rp_id req \<noteq> 0 \<longrightarrow>
        handle_status_with_version z to_json config v c = (Some (Inl (InvalidPacketId (rp_id req))), c\<lparr>inb := rest\<rparr>))
    \<and> (inb c = frame req @ frame ping @ rest \<longrightarrow> rp_id req = 0 \<longrightarrow>
        handle_status_with_version z to_json config v c =
          (Some (Inr ()), c\<lparr>inb := rest, outb := outb c @ frame (RawPacket 0 (put_prefixed json)) @ frame ping\<rparr>))
    \<and> (inb c = frame req \<longrightarrow> rp_id req = 0 \<longrightarrow> in_end c = Silent \<or> in_end c = Eof \<longrightarrow>
        handle_status_with_version z to_json config v c =
          (Some (Inr ()), c\<lparr>inb := [], outb := outb c @ frame (RawPacket 0 (put_prefixed json))\<rparr>))"
  using status_cases [where to_json = to_json and config = config and v = v and z = z, OF assms] by blast

theorem status_exchange_witness:
  "let c = \<lparr>inb = frame (RawPacket 0 []) @ frame (RawPacket 1 [1, 2, 3, 4, 5, 6, 7, 8]), in_end = Eof, outb = [], wfate = []\<rparr>
   in handle_status_with_version stored (\<lambda>_. Inr (str ''{}'')) default_proxy_config 765 c =
        (Some (Inr ()), c\<lparr>inb := [], outb := frame (RawPacket 0 (put_prefixed (str ''{}'')))
            @ frame (RawPacket 1 [1, 2, 3, 4, 5, 6, 7, 8])\<rparr>)"
  using status_exchange
    [of "\<lparr>inb = frame (RawPacket 0 []) @ frame (RawPacket 1 [1, 2, 3, 4, 5, 6, 7, 8]), in_end = Eof, outb = [], wfate = []\<rparr>"
        "\<lambda>_. Inr (str ''{}'')" default_proxy_config 765 "str ''{}''" "RawPacket 0 []" "RawPacket 1 [1, 2, 3, 4, 5, 6, 7, 8]"
        stored "[]"]
  by (simp add: Let_def wire_length_def varint_size_def DEFAULT_MAX_PACKET_SIZE_def)

end
