(* ===== verification/Encrypted_Stream.thy ===== *)
theory Encrypted_Stream
  imports Prelude
begin

text \<open>
  \<^verbatim>\<open>src/src/crypto/aes.rs\<close>: the stream wrapper that encrypts what is written and decrypts what is read. It is modelled at the
  level of \<^verbatim>\<open>poll\<close> calls, because its work is to survive partial and pending writes of the inner stream.

  The AES-CFB8 cipher is a parameter (\<open>cfb8\<close>): a state and one step per byte in each direction. The inner stream is
  given by the outcomes of the next \<^verbatim>\<open>poll\<close> calls; when a list is used up, the inner stream takes everything and has
  nothing to read. The theorems show that the ciphertext on the inner stream followed by what is buffered is always the
  encryption of all accepted plaintext, and that a peer that decrypts gets it back however the bytes are cut.
\<close>

section \<open>The inner stream\<close>

datatype 'a poll = Pending | ReadyOk 'a | ReadyErr io_kind str

datatype wpoll = WTake nat | WPend | WErr io_kind str
datatype rpoll = RData bytes | RPend | RErr io_kind str

record inner_stream =
  is_reads :: "rpoll list"
  is_writes :: "wpoll list"
  is_flushes :: "wpoll list"
  is_out :: bytes
  is_shut :: bool

text \<open>\<^verbatim>\<open>poll_write\<close> takes at least nothing and at most everything; \<^verbatim>\<open>poll_read\<close> fills at most \<open>cap\<close> bytes.\<close>

definition inner_poll_write :: "bytes \<Rightarrow> inner_stream \<Rightarrow> nat poll \<times> inner_stream" where
  "inner_poll_write buf s =
     (case is_writes s of
        [] \<Rightarrow> (ReadyOk (length buf), s\<lparr>is_out := is_out s @ buf\<rparr>)
      | WTake n # ws \<Rightarrow>
          (ReadyOk (min n (length buf)), s\<lparr>is_out := is_out s @ take n buf, is_writes := ws\<rparr>)
      | WPend # ws \<Rightarrow> (Pending, s\<lparr>is_writes := ws\<rparr>)
      | WErr k m # ws \<Rightarrow> (ReadyErr k m, s\<lparr>is_writes := ws\<rparr>))"

definition inner_poll_read :: "nat \<Rightarrow> inner_stream \<Rightarrow> bytes poll \<times> inner_stream" where
  "inner_poll_read cap s =
     (case is_reads s of
        [] \<Rightarrow> (Pending, s)
      | RData bs # rs \<Rightarrow>
          if length bs \<le> cap then (ReadyOk bs, s\<lparr>is_reads := rs\<rparr>)
          else (ReadyOk (take cap bs), s\<lparr>is_reads := RData (drop cap bs) # rs\<rparr>)
      | RPend # rs \<Rightarrow> (Pending, s\<lparr>is_reads := rs\<rparr>)
      | RErr k m # rs \<Rightarrow> (ReadyErr k m, s\<lparr>is_reads := rs\<rparr>))"

definition inner_poll_flush :: "inner_stream \<Rightarrow> unit poll \<times> inner_stream" where
  "inner_poll_flush s =
     (case is_flushes s of
        [] \<Rightarrow> (ReadyOk (), s)
      | WTake n # ws \<Rightarrow> (ReadyOk (), s\<lparr>is_flushes := ws\<rparr>)
      | WPend # ws \<Rightarrow> (Pending, s\<lparr>is_flushes := ws\<rparr>)
      | WErr k m # ws \<Rightarrow> (ReadyErr k m, s\<lparr>is_flushes := ws\<rparr>))"

definition inner_poll_shutdown :: "inner_stream \<Rightarrow> unit poll \<times> inner_stream" where
  "inner_poll_shutdown s =
     (case inner_poll_flush s of
        (ReadyOk _, s') \<Rightarrow> (ReadyOk (), s'\<lparr>is_shut := True\<rparr>)
      | r \<Rightarrow> r)"

section \<open>The cipher\<close>

record 'st cfb8 =
  cf_new :: "bytes \<Rightarrow> bytes \<Rightarrow> 'st"
  cf_enc :: "'st \<Rightarrow> u8 \<Rightarrow> u8 \<times> 'st"
  cf_dec :: "'st \<Rightarrow> u8 \<Rightarrow> u8 \<times> 'st"

fun encrypt_blocks :: "'st cfb8 \<Rightarrow> 'st \<Rightarrow> bytes \<Rightarrow> bytes \<times> 'st" where
  "encrypt_blocks cf st [] = ([], st)"
| "encrypt_blocks cf st (b # bs) =
     (case cf_enc cf st b of (c, st1) \<Rightarrow> case encrypt_blocks cf st1 bs of (cs, st2) \<Rightarrow> (c # cs, st2))"

fun decrypt_blocks :: "'st cfb8 \<Rightarrow> 'st \<Rightarrow> bytes \<Rightarrow> bytes \<times> 'st" where
  "decrypt_blocks cf st [] = ([], st)"
| "decrypt_blocks cf st (c # cs) =
     (case cf_dec cf st c of (b, st1) \<Rightarrow> case decrypt_blocks cf st1 cs of (bs, st2) \<Rightarrow> (b # bs, st2))"

section \<open>The wrapper\<close>

record 'st encrypted_stream =
  es_inner :: "inner_stream option"
  es_encryptor :: 'st
  es_decryptor :: 'st
  es_write_buf :: bytes
  es_write_cursor :: nat
  es_shared_secret :: bytes

definition EncryptedStream_new :: "'st cfb8 \<Rightarrow> inner_stream \<Rightarrow> bytes \<Rightarrow> 'st encrypted_stream" where
  "EncryptedStream_new cf inner shared_secret =
     \<lparr>es_inner = Some inner, es_encryptor = cf_new cf shared_secret shared_secret,
      es_decryptor = cf_new cf shared_secret shared_secret, es_write_buf = [], es_write_cursor = 0,
      es_shared_secret = shared_secret\<rparr>"

text \<open>\<^verbatim>\<open>zeroize\<close> of an array keeps its length, that of a vector clears it. \<^verbatim>\<open>drop\<close> does the same.\<close>

definition es_zeroize :: "'st encrypted_stream \<Rightarrow> 'st encrypted_stream" where
  "es_zeroize s = s\<lparr>es_shared_secret := replicate (length (es_shared_secret s)) 0, es_write_buf := []\<rparr>"

text \<open>\<open>None\<close> stands for the panic of \<^verbatim>\<open>unreachable!\<close>.\<close>

definition into_inner :: "'st encrypted_stream \<Rightarrow> inner_stream option" where
  "into_inner s = es_inner (es_zeroize s)"

definition uninitialized :: "'a poll" where
  "uninitialized = ReadyErr NotConnected (str ''EncryptedStream inner stream is uninitialized or closed'')"

function flush_pending_write :: "inner_stream \<Rightarrow> bytes \<Rightarrow> nat \<Rightarrow> unit poll \<times> inner_stream \<times> bytes \<times> nat" where
  "flush_pending_write inner write_buf write_cursor =
     (if write_cursor < length write_buf then
        (case inner_poll_write (drop write_cursor write_buf) inner of
           (ReadyOk n, inner') \<Rightarrow>
             if n = 0 then
               (ReadyErr WriteZero (str ''failed to write buffered encrypted bytes to inner stream''), inner', write_buf, write_cursor)
             else flush_pending_write inner' write_buf (write_cursor + n)
         | (ReadyErr k m, inner') \<Rightarrow> (ReadyErr k m, inner', write_buf, write_cursor)
         | (Pending, inner') \<Rightarrow> (Pending, inner', write_buf, write_cursor))
      else (ReadyOk (), inner, [], 0))"
  by pat_completeness auto
termination
  by (relation "measure (\<lambda>(inner, buf, cursor). length buf - cursor)") auto

declare flush_pending_write.simps [simp del]

definition es_poll_read :: "'st cfb8 \<Rightarrow> nat \<Rightarrow> 'st encrypted_stream \<Rightarrow> bytes poll \<times> 'st encrypted_stream" where
  "es_poll_read cf cap s =
     (case es_inner s of
        None \<Rightarrow> (uninitialized, s)
      | Some inner \<Rightarrow>
          (case inner_poll_read cap inner of
             (ReadyOk new_bytes, inner') \<Rightarrow>
               (case decrypt_blocks cf (es_decryptor s) new_bytes of
                  (plain, st) \<Rightarrow> (ReadyOk plain, s\<lparr>es_inner := Some inner', es_decryptor := st\<rparr>))
           | (ReadyErr k m, inner') \<Rightarrow> (ReadyErr k m, s\<lparr>es_inner := Some inner'\<rparr>)
           | (Pending, inner') \<Rightarrow> (Pending, s\<lparr>es_inner := Some inner'\<rparr>)))"

text \<open>Steps 2 and 3 of \<^verbatim>\<open>poll_write\<close>, with the buffer empty.\<close>

definition write_chunk :: "'st cfb8 \<Rightarrow> bytes \<Rightarrow> inner_stream \<Rightarrow> 'st encrypted_stream \<Rightarrow> nat poll \<times> 'st encrypted_stream" where
  "write_chunk cf buf inner s =
     (let chunk_len = min (length buf) (64 * 1024) in
      case encrypt_blocks cf (es_encryptor s) (take chunk_len buf) of
        (ciphertext, st) \<Rightarrow>
          let s = s\<lparr>es_encryptor := st\<rparr> in
          (case inner_poll_write ciphertext inner of
             (ReadyOk n, inner') \<Rightarrow>
               (ReadyOk chunk_len,
                if n < length ciphertext
                then s\<lparr>es_inner := Some inner', es_write_buf := ciphertext, es_write_cursor := n\<rparr>
                else s\<lparr>es_inner := Some inner'\<rparr>)
           | (Pending, inner') \<Rightarrow>
               (ReadyOk chunk_len, s\<lparr>es_inner := Some inner', es_write_buf := ciphertext, es_write_cursor := 0\<rparr>)
           | (ReadyErr k m, inner') \<Rightarrow> (ReadyErr k m, s\<lparr>es_inner := Some inner'\<rparr>)))"

definition es_poll_write :: "'st cfb8 \<Rightarrow> bytes \<Rightarrow> 'st encrypted_stream \<Rightarrow> nat poll \<times> 'st encrypted_stream" where
  "es_poll_write cf buf s =
     (case es_inner s of
        None \<Rightarrow> (uninitialized, s)
      | Some inner \<Rightarrow>
          (case flush_pending_write inner (es_write_buf s) (es_write_cursor s) of
             (ReadyOk _, inner', wb, wc) \<Rightarrow>
               let s = s\<lparr>es_inner := Some inner', es_write_buf := wb, es_write_cursor := wc\<rparr> in
               if buf = [] then (ReadyOk 0, s) else write_chunk cf buf inner' s
           | (ReadyErr k m, inner', wb, wc) \<Rightarrow>
               (ReadyErr k m, s\<lparr>es_inner := Some inner', es_write_buf := wb, es_write_cursor := wc\<rparr>)
           | (Pending, inner', wb, wc) \<Rightarrow>
               (Pending, s\<lparr>es_inner := Some inner', es_write_buf := wb, es_write_cursor := wc\<rparr>)))"

text \<open>\<^verbatim>\<open>poll_flush\<close> and \<^verbatim>\<open>poll_shutdown\<close>: drain the buffer, then do it on the inner stream.\<close>

definition drain_then ::
  "(inner_stream \<Rightarrow> unit poll \<times> inner_stream) \<Rightarrow> 'st encrypted_stream \<Rightarrow> unit poll \<times> 'st encrypted_stream" where
  "drain_then op s =
     (case es_inner s of
        None \<Rightarrow> (uninitialized, s)
      | Some inner \<Rightarrow>
          (case flush_pending_write inner (es_write_buf s) (es_write_cursor s) of
             (ReadyOk _, inner', wb, wc) \<Rightarrow>
               (case op inner' of
                  (r, inner'') \<Rightarrow> (r, s\<lparr>es_inner := Some inner'', es_write_buf := wb, es_write_cursor := wc\<rparr>))
           | (r, inner', wb, wc) \<Rightarrow> (r, s\<lparr>es_inner := Some inner', es_write_buf := wb, es_write_cursor := wc\<rparr>)))"

definition es_poll_flush :: "'st encrypted_stream \<Rightarrow> unit poll \<times> 'st encrypted_stream" where
  "es_poll_flush s = drain_then inner_poll_flush s"

definition es_poll_shutdown :: "'st encrypted_stream \<Rightarrow> unit poll \<times> 'st encrypted_stream" where
  "es_poll_shutdown s = drain_then inner_poll_shutdown s"

section \<open>The cipher on lists\<close>

text \<open>Documented behaviour of the mode: a decryptor in the state of the encryptor undoes a step and follows it.\<close>

definition cfb8_ok :: "'st cfb8 \<Rightarrow> bool" where
  "cfb8_ok cf \<longleftrightarrow> (\<forall>st b. cf_dec cf st (fst (cf_enc cf st b)) = (b, snd (cf_enc cf st b)))"

lemma encrypt_append:
  "encrypt_blocks cf st (xs @ ys) =
     (case encrypt_blocks cf st xs of (cs, st1) \<Rightarrow> case encrypt_blocks cf st1 ys of (ds, st2) \<Rightarrow> (cs @ ds, st2))"
  by (induction xs arbitrary: st) (simp_all split: prod.split)

lemma decrypt_append:
  "decrypt_blocks cf st (xs @ ys) =
     (case decrypt_blocks cf st xs of (cs, st1) \<Rightarrow> case decrypt_blocks cf st1 ys of (ds, st2) \<Rightarrow> (cs @ ds, st2))"
  by (induction xs arbitrary: st) (simp_all split: prod.split)

lemma length_encrypt: "length (fst (encrypt_blocks cf st xs)) = length xs"
  by (induction xs arbitrary: st) (simp_all split: prod.split, metis fst_conv)

lemma length_decrypt: "length (fst (decrypt_blocks cf st xs)) = length xs"
  by (induction xs arbitrary: st) (simp_all split: prod.split, metis fst_conv)

lemma decrypt_encrypt:
  "cfb8_ok cf \<Longrightarrow> decrypt_blocks cf st (fst (encrypt_blocks cf st xs)) = (xs, snd (encrypt_blocks cf st xs))"
proof (induction xs arbitrary: st)
  case (Cons x xs)
  then have "cf_dec cf st (fst (cf_enc cf st x)) = (x, snd (cf_enc cf st x))" by (simp add: cfb8_ok_def)
  with Cons.IH [OF Cons.prems, of "snd (cf_enc cf st x)"] show ?case
    by (auto split: prod.splits)
qed simp

section \<open>Writing in pieces\<close>

definition no_write_errors :: "inner_stream \<Rightarrow> bool" where
  "no_write_errors inner \<longleftrightarrow> (\<forall>k m. WErr k m \<notin> set (is_writes inner))"

text \<open>What is on the inner stream or still to be put there.\<close>

definition committed :: "'st encrypted_stream \<Rightarrow> bytes" where
  "committed s = (case es_inner s of None \<Rightarrow> [] | Some inner \<Rightarrow> is_out inner @ drop (es_write_cursor s) (es_write_buf s))"

lemma inner_poll_write_out:
  assumes "inner_poll_write buf s = (r, s')"
  shows "is_out s' = is_out s @ (case r of ReadyOk n \<Rightarrow> take n buf | _ \<Rightarrow> [])"
    and "set (is_writes s') \<subseteq> set (is_writes s)"
    and "r = ReadyErr k m \<Longrightarrow> WErr k m \<in> set (is_writes s)"
  using assms by (auto simp: inner_poll_write_def min_def split: list.splits wpoll.splits)

lemma flush_pending_write_out:
  assumes "flush_pending_write inner buf cur = (r, inner', buf', cur')"
  shows "is_out inner' @ drop cur' buf' = is_out inner @ drop cur buf \<and> set (is_writes inner') \<subseteq> set (is_writes inner)
    \<and> (r = ReadyOk () \<longrightarrow> buf' = [] \<and> cur' = 0)"
  using assms
proof (induction inner buf cur rule: flush_pending_write.induct)
  case (1 inner buf cur)
  obtain x inner1 where w: "inner_poll_write (drop cur buf) inner = (x, inner1)"
    by (cases "inner_poll_write (drop cur buf) inner")
  note out = inner_poll_write_out(1,2) [OF w]
  show ?case
  proof (cases "cur < length buf")
    case True
    show ?thesis
    proof (cases "\<exists>n. x = ReadyOk n \<and> n \<noteq> 0")
      case True
      then obtain n where n: "x = ReadyOk n" "n \<noteq> 0" by blast
      have "flush_pending_write inner1 buf (cur + n) = (r, inner', buf', cur')"
        using "1.prems" \<open>cur < length buf\<close> w n by (subst (asm) flush_pending_write.simps) simp
      note ih = "1.IH" [OF \<open>cur < length buf\<close> w [symmetric] n(1,2) this]
      have "is_out inner1 @ drop (cur + n) buf = is_out inner @ take n (drop cur buf) @ drop n (drop cur buf)"
        using out(1) n(1) by (simp add: add.commute)
      then have "is_out inner1 @ drop (cur + n) buf = is_out inner @ drop cur buf" by (simp only: append_take_drop_id)
      with ih out(2) show ?thesis by auto
    next
      case False
      with "1.prems" \<open>cur < length buf\<close> w out show ?thesis
        by (subst (asm) flush_pending_write.simps) (auto split: poll.splits)
    qed
  next
    case False
    with "1.prems" show ?thesis by (subst (asm) flush_pending_write.simps) simp
  qed
qed

datatype wop = Write bytes | Flush | Shutdown

text \<open>A sequence of calls, with the plaintext the wrapper has said it accepted.\<close>

fun es_ops :: "'st cfb8 \<Rightarrow> wop list \<Rightarrow> 'st encrypted_stream \<Rightarrow> bytes \<times> 'st encrypted_stream" where
  "es_ops cf [] s = ([], s)"
| "es_ops cf (Write buf # ops) s =
     (case es_poll_write cf buf s of
        (r, s1) \<Rightarrow> case es_ops cf ops s1 of (acc, s2) \<Rightarrow> ((case r of ReadyOk n \<Rightarrow> take n buf | _ \<Rightarrow> []) @ acc, s2))"
| "es_ops cf (Flush # ops) s = es_ops cf ops (snd (es_poll_flush s))"
| "es_ops cf (Shutdown # ops) s = es_ops cf ops (snd (es_poll_shutdown s))"

definition writable :: "'st encrypted_stream \<Rightarrow> bool" where
  "writable s \<longleftrightarrow> (\<exists>inner. es_inner s = Some inner \<and> no_write_errors inner)"

lemma write_chunk_step:
  assumes "es_inner s = Some inner" "no_write_errors inner" "es_write_buf s = []" "es_write_cursor s = 0" "buf \<noteq> []"
    and "write_chunk cf buf inner s = (r, s')"
  shows "writable s' \<and> (\<exists>n. r = ReadyOk n \<and> 0 < n
      \<and> committed s' = committed s @ fst (encrypt_blocks cf (es_encryptor s) (take n buf))
      \<and> es_encryptor s' = snd (encrypt_blocks cf (es_encryptor s) (take n buf)))"
proof -
  define n where "n = min (length buf) 65536"
  obtain ct st where e: "encrypt_blocks cf (es_encryptor s) (take n buf) = (ct, st)"
    by (cases "encrypt_blocks cf (es_encryptor s) (take n buf)")
  obtain x inner1 where w: "inner_poll_write ct inner = (x, inner1)" by (cases "inner_poll_write ct inner")
  note out = inner_poll_write_out [OF w]
  have ne: "x \<noteq> ReadyErr k m" for k m using out(3) assms(2) by (auto simp: no_write_errors_def)
  have wr: "no_write_errors inner1" using out(2) assms(2) by (auto simp: no_write_errors_def)
  have "0 < n" using assms(5) by (simp add: n_def)
  moreover have "r = ReadyOk n \<and> es_encryptor s' = st \<and> es_inner s' = Some inner1 \<and> committed s' = committed s @ ct"
    using assms e w ne out(1) unfolding write_chunk_def n_def [symmetric]
    by (cases x) (auto simp: Let_def n_def committed_def)
  ultimately show ?thesis using e wr by (auto simp: writable_def)
qed

lemma es_poll_write_step:
  assumes "writable s" and "es_poll_write cf buf s = (r, s')"
  shows "writable s' \<and>
     (let acc = (case r of ReadyOk n \<Rightarrow> take n buf | _ \<Rightarrow> []) in
      committed s' = committed s @ fst (encrypt_blocks cf (es_encryptor s) acc)
      \<and> es_encryptor s' = snd (encrypt_blocks cf (es_encryptor s) acc))"
proof -
  from assms(1) obtain inner where inner: "es_inner s = Some inner" "no_write_errors inner" by (auto simp: writable_def)
  obtain x inner1 wb wc where f: "flush_pending_write inner (es_write_buf s) (es_write_cursor s) = (x, inner1, wb, wc)"
    by (cases "flush_pending_write inner (es_write_buf s) (es_write_cursor s)")
  note out = flush_pending_write_out [OF f]
  let ?s = "s\<lparr>es_inner := Some inner1, es_write_buf := wb, es_write_cursor := wc\<rparr>"
  have wr: "no_write_errors inner1" using inner(2) out by (auto simp: no_write_errors_def)
  have c: "committed ?s = committed s" using out inner by (simp add: committed_def)
  show ?thesis
  proof (cases "x = ReadyOk () \<and> buf \<noteq> []")
    case False
    then have "s' = ?s \<and> (r = ReadyOk 0 \<and> buf = [] \<or> r = Pending \<or> (\<exists>k m. r = ReadyErr k m))"
      using assms(2) inner f by (auto simp: es_poll_write_def Let_def split: poll.splits)
    then show ?thesis using c wr by (auto simp: writable_def split: poll.splits)
  next
    case True
    then have "write_chunk cf buf inner1 ?s = (r, s')"
      using assms(2) inner f by (simp add: es_poll_write_def Let_def)
    from write_chunk_step [OF _ wr _ _ _ this] True out show ?thesis
      using c by (auto simp: Let_def)
  qed
qed

lemma drain_then_step:
  assumes "writable s" and op: "\<And>i r i'. op i = (r, i') \<Longrightarrow> is_out i' = is_out i \<and> is_writes i' = is_writes i"
  shows "writable (snd (drain_then op s)) \<and> committed (snd (drain_then op s)) = committed s
    \<and> es_encryptor (snd (drain_then op s)) = es_encryptor s
    \<and> (fst (drain_then op s) = ReadyOk () \<longrightarrow> es_write_buf (snd (drain_then op s)) = [])"
proof -
  from assms(1) obtain inner where inner: "es_inner s = Some inner" "no_write_errors inner" by (auto simp: writable_def)
  obtain x inner1 wb wc where f: "flush_pending_write inner (es_write_buf s) (es_write_cursor s) = (x, inner1, wb, wc)"
    by (cases "flush_pending_write inner (es_write_buf s) (es_write_cursor s)")
  note out = flush_pending_write_out [OF f]
  obtain y inner2 where o: "op inner1 = (y, inner2)" by (cases "op inner1")
  from op [OF o] out inner f o show ?thesis
    by (cases x) (auto simp: drain_then_def writable_def committed_def no_write_errors_def)
qed

lemma inner_ops_out:
  "inner_poll_flush i = (r, i') \<Longrightarrow> is_out i' = is_out i \<and> is_writes i' = is_writes i"
  "inner_poll_shutdown i = (r, i') \<Longrightarrow> is_out i' = is_out i \<and> is_writes i' = is_writes i"
  by (auto simp: inner_poll_flush_def inner_poll_shutdown_def split: list.splits wpoll.splits)

lemma flush_step:
  "writable s \<Longrightarrow> es_poll_flush s = (r, s') \<Longrightarrow>
   writable s' \<and> committed s' = committed s \<and> es_encryptor s' = es_encryptor s \<and> (r = ReadyOk () \<longrightarrow> es_write_buf s' = [])"
  using drain_then_step [of s inner_poll_flush] inner_ops_out(1) by (simp add: es_poll_flush_def)

lemma shutdown_step:
  "writable s \<Longrightarrow> es_poll_shutdown s = (r, s') \<Longrightarrow>
   writable s' \<and> committed s' = committed s \<and> es_encryptor s' = es_encryptor s"
  using drain_then_step [of s inner_poll_shutdown] inner_ops_out(2) by (simp add: es_poll_shutdown_def)

lemma es_ops_committed:
  "writable s \<Longrightarrow> es_ops cf ops s = (plain, s') \<Longrightarrow>
   writable s' \<and> committed s' = committed s @ fst (encrypt_blocks cf (es_encryptor s) plain)
   \<and> es_encryptor s' = snd (encrypt_blocks cf (es_encryptor s) plain)"
proof (induction cf ops s arbitrary: plain rule: es_ops.induct)
  case (2 cf buf ops s)
  obtain r s1 where w: "es_poll_write cf buf s = (r, s1)" by (cases "es_poll_write cf buf s")
  let ?acc = "case r of ReadyOk n \<Rightarrow> take n buf | _ \<Rightarrow> []"
  obtain rest where o: "es_ops cf ops s1 = (rest, s')" and plain: "plain = ?acc @ rest"
    using "2.prems"(2) w by (auto split: prod.splits)
  from es_poll_write_step [OF "2.prems"(1) w] have st: "writable s1"
    "committed s1 = committed s @ fst (encrypt_blocks cf (es_encryptor s) ?acc)"
    "es_encryptor s1 = snd (encrypt_blocks cf (es_encryptor s) ?acc)"
    by (simp_all add: Let_def)
  from "2.IH" [OF w [symmetric] st(1) o] st(2,3) show ?case
    by (simp add: plain encrypt_append split: prod.splits)
next
  case (3 cf ops s)
  then show ?case using flush_step [of s "fst (es_poll_flush s)" "snd (es_poll_flush s)"] by simp
next
  case (4 cf ops s)
  then show ?case using shutdown_step [of s "fst (es_poll_shutdown s)" "snd (es_poll_shutdown s)"] by simp
qed simp

section \<open>Reading in pieces\<close>

definition incoming :: "inner_stream \<Rightarrow> bytes" where
  "incoming inner = concat (map (\<lambda>r. case r of RData bs \<Rightarrow> bs | _ \<Rightarrow> []) (is_reads inner))"

text \<open>Calls of \<^verbatim>\<open>poll_read\<close> with the given room in the buffer, with all the bytes they returned.\<close>

fun es_reads :: "'st cfb8 \<Rightarrow> nat list \<Rightarrow> 'st encrypted_stream \<Rightarrow> bytes \<times> 'st encrypted_stream" where
  "es_reads cf [] s = ([], s)"
| "es_reads cf (cap # caps) s =
     (case es_poll_read cf cap s of
        (r, s1) \<Rightarrow> case es_reads cf caps s1 of (got, s2) \<Rightarrow> ((case r of ReadyOk bs \<Rightarrow> bs | _ \<Rightarrow> []) @ got, s2))"

lemma inner_poll_read_incoming:
  "inner_poll_read cap s = (r, s') \<Longrightarrow> incoming s = (case r of ReadyOk bs \<Rightarrow> bs | _ \<Rightarrow> []) @ incoming s'"
  by (auto simp: inner_poll_read_def incoming_def append.assoc [symmetric] split: list.splits rpoll.splits if_splits)

lemma es_poll_read_step:
  assumes "es_inner s = Some inner" and "es_poll_read cf cap s = (r, s')"
  shows "\<exists>inner' taken. es_inner s' = Some inner' \<and> incoming inner = taken @ incoming inner'
    \<and> decrypt_blocks cf (es_decryptor s) taken = (case r of ReadyOk bs \<Rightarrow> bs | _ \<Rightarrow> [], es_decryptor s')"
proof -
  obtain x inner1 where p: "inner_poll_read cap inner = (x, inner1)" by (cases "inner_poll_read cap inner")
  from inner_poll_read_incoming [OF p] assms p show ?thesis
    by (cases x) (auto simp: es_poll_read_def split: prod.splits)
qed

lemma es_reads_step:
  "es_inner s = Some inner \<Longrightarrow> es_reads cf caps s = (got, s') \<Longrightarrow>
   \<exists>inner' taken. es_inner s' = Some inner' \<and> incoming inner = taken @ incoming inner'
     \<and> decrypt_blocks cf (es_decryptor s) taken = (got, es_decryptor s')"
proof (induction cf caps s arbitrary: inner got rule: es_reads.induct)
  case (2 cf cap caps s)
  obtain r s1 where w: "es_poll_read cf cap s = (r, s1)" by (cases "es_poll_read cf cap s")
  let ?b = "case r of ReadyOk bs \<Rightarrow> bs | _ \<Rightarrow> []"
  obtain rest where o: "es_reads cf caps s1 = (rest, s')" and got: "got = ?b @ rest"
    using "2.prems"(2) w by (auto split: prod.splits)
  from es_poll_read_step [OF "2.prems"(1) w] obtain inner1 t1 where
    1: "es_inner s1 = Some inner1" "incoming inner = t1 @ incoming inner1"
       "decrypt_blocks cf (es_decryptor s) t1 = (?b, es_decryptor s1)" by blast
  from "2.IH" [OF w [symmetric] 1(1) o] obtain inner2 t2 where
    2: "es_inner s' = Some inner2" "incoming inner1 = t2 @ incoming inner2"
       "decrypt_blocks cf (es_decryptor s1) t2 = (rest, es_decryptor s')" by blast
  show ?case
    by (rule exI [of _ inner2], rule exI [of _ "t1 @ t2"]) (simp add: 1 2 got decrypt_append)
qed simp

section \<open>Both ends\<close>

text \<open>A prefix of the ciphertext decrypts to the prefix of the plaintext of that length.\<close>

lemma decrypt_prefix:
  assumes "cfb8_ok cf" and "fst (encrypt_blocks cf st plain) = taken @ suff"
  shows "fst (decrypt_blocks cf st taken) = take (length taken) plain"
proof -
  have "decrypt_blocks cf st (taken @ suff) = (plain, snd (encrypt_blocks cf st plain))"
    using decrypt_encrypt [OF assms(1), of st plain] assms(2) by simp
  then have "\<exists>rest. plain = fst (decrypt_blocks cf st taken) @ rest"
    by (auto simp: decrypt_append split: prod.splits)
  then show ?thesis using length_decrypt [of cf st taken] by auto
qed

lemma EncryptedStream_new_simps [simp]:
  "es_inner (EncryptedStream_new cf i k) = Some i"
  "es_encryptor (EncryptedStream_new cf i k) = cf_new cf k k"
  "es_decryptor (EncryptedStream_new cf i k) = cf_new cf k k"
  "committed (EncryptedStream_new cf i k) = is_out i"
  "writable (EncryptedStream_new cf i k) = no_write_errors i"
  by (simp_all add: EncryptedStream_new_def committed_def writable_def)

text \<open>The bytes on the wire are a prefix of the encryption of the accepted plaintext, and all of it after a flush.\<close>

lemma written_ciphertext:
  assumes "no_write_errors inner" "is_out inner = []"
    and "es_ops cf ops (EncryptedStream_new cf inner secret) = (plain, w)"
  shows "es_inner w = Some i \<Longrightarrow> \<exists>suff. fst (encrypt_blocks cf (cf_new cf secret secret) plain) = is_out i @ suff"
    and "es_poll_flush w = (ReadyOk (), w') \<Longrightarrow> es_inner w' = Some i' \<Longrightarrow>
      fst (encrypt_blocks cf (cf_new cf secret secret) plain) = is_out i'"
proof -
  from es_ops_committed [OF _ assms(3)] assms(1,2)
  have w: "writable w" "committed w = fst (encrypt_blocks cf (cf_new cf secret secret) plain)" by simp_all
  show "es_inner w = Some i \<Longrightarrow> \<exists>suff. fst (encrypt_blocks cf (cf_new cf secret secret) plain) = is_out i @ suff"
    using w(2) by (simp add: committed_def) metis
  show "es_poll_flush w = (ReadyOk (), w') \<Longrightarrow> es_inner w' = Some i' \<Longrightarrow>
      fst (encrypt_blocks cf (cf_new cf secret secret) plain) = is_out i'"
    using w flush_step [OF w(1), of "ReadyOk ()" w'] by (auto simp: committed_def)
qed

text \<open>C19. Two \<^verbatim>\<open>EncryptedStream\<close>s with one secret carry the plaintext. Whatever calls the writer makes, and however
  the inner stream cuts, delays or refuses its writes (short of failing), a reader that is given the bytes on the wire, in
  pieces of any size and with any reads in between, gets a prefix of the plaintext the writer has accepted; once a
  \<^verbatim>\<open>poll_flush\<close> has returned and everything is read, it has got exactly that plaintext.\<close>

theorem encrypted_stream_roundtrip:
  assumes "cfb8_ok cf" "no_write_errors inner" "is_out inner = []"
    and "es_ops cf ops (EncryptedStream_new cf inner secret) = (plain, w)"
    and "es_reads cf caps (EncryptedStream_new cf rin secret) = (got, r)"
  shows "(es_inner w = Some i \<and> incoming rin = is_out i \<longrightarrow> (\<exists>rest. plain = got @ rest))
    \<and> (es_poll_flush w = (ReadyOk (), w') \<and> es_inner w' = Some i' \<and> incoming rin = is_out i'
         \<and> es_inner r = Some rin' \<and> incoming rin' = [] \<longrightarrow> got = plain)"
proof -
  from es_reads_step [OF _ assms(5)] obtain taken where
    t: "incoming rin = taken @ incoming (the (es_inner r))" "fst (decrypt_blocks cf (cf_new cf secret secret) taken) = got"
    by fastforce
  note d = decrypt_prefix [OF assms(1), of "cf_new cf secret secret" plain taken]
  note wc = written_ciphertext [OF assms(2,3,4)]
  have "\<exists>rest. plain = got @ rest" if "es_inner w = Some i" "incoming rin = is_out i"
  proof -
    from wc(1) [OF that(1)] obtain suff where "fst (encrypt_blocks cf (cf_new cf secret secret) plain) = is_out i @ suff" by blast
    with that(2) t(1) have "fst (encrypt_blocks cf (cf_new cf secret secret) plain) = taken @ incoming (the (es_inner r)) @ suff" by simp
    from d [OF this] t(2) have "got = take (length taken) plain" by simp
    then show ?thesis by (metis append_take_drop_id)
  qed
  moreover have "got = plain" if "es_poll_flush w = (ReadyOk (), w')" "es_inner w' = Some i'" "incoming rin = is_out i'"
    "es_inner r = Some rin'" "incoming rin' = []"
  proof -
    from wc(2) [OF that(1,2)] that(3-5) t(1)
    have ct: "fst (encrypt_blocks cf (cf_new cf secret secret) plain) = taken" by simp
    then have "length taken = length plain" using length_encrypt by metis
    with d [of "[]"] ct t(2) show ?thesis by simp
  qed
  ultimately show ?thesis by blast
qed

text \<open>A cipher with feedback, an inner stream that cuts and delays, and a reader with little room.\<close>

definition demo_cfb8 :: "u8 cfb8" where
  "demo_cfb8 = \<lparr>cf_new = (\<lambda>k iv. if iv = [] then 0 else hd iv), cf_enc = (\<lambda>st b. (b + st, b + st)), cf_dec = (\<lambda>st c. (c - st, c))\<rparr>"

lemma demo_cfb8_ok: "cfb8_ok demo_cfb8"
  by (simp add: cfb8_ok_def demo_cfb8_def)

definition demo_inner :: inner_stream where
  "demo_inner = \<lparr>is_reads = [], is_writes = [WTake 1, WPend, WTake 1], is_flushes = [], is_out = [], is_shut = False\<rparr>"

definition demo_writer :: "u8 encrypted_stream" where
  "demo_writer = snd (es_ops demo_cfb8 [Write [1, 2, 3], Flush, Write [4]] (EncryptedStream_new demo_cfb8 demo_inner [7]))"

definition demo_rin :: inner_stream where
  "demo_rin = \<lparr>is_reads = [RData [8, 10], RPend, RData [13, 17]], is_writes = [], is_flushes = [], is_out = [], is_shut = False\<rparr>"

lemmas demo_defs = demo_writer_def demo_inner_def demo_rin_def demo_cfb8_def EncryptedStream_new_def es_poll_write_def
  es_poll_flush_def drain_then_def inner_poll_write_def inner_poll_flush_def flush_pending_write.simps write_chunk_def
  incoming_def es_poll_read_def inner_poll_read_def Let_def

lemma demo_writer_runs:
  "es_ops demo_cfb8 [Write [1, 2, 3], Flush, Write [4]] (EncryptedStream_new demo_cfb8 demo_inner [7]) = ([1, 2, 3, 4], demo_writer)"
  by (simp add: demo_defs)

lemma demo_flush_runs:
  "fst (es_poll_flush demo_writer) = ReadyOk ()"
  "map_option is_out (es_inner (snd (es_poll_flush demo_writer))) = Some (incoming demo_rin)"
  by (simp_all add: demo_defs)

theorem encrypted_stream_roundtrip_witness:
  "\<exists>r rin'. es_reads demo_cfb8 [1, 5, 5, 1, 9] (EncryptedStream_new demo_cfb8 demo_rin [7]) = ([1, 2, 3, 4], r)
     \<and> es_inner r = Some rin' \<and> incoming rin' = []"
proof -
  obtain got r where g: "es_reads demo_cfb8 [1, 5, 5, 1, 9] (EncryptedStream_new demo_cfb8 demo_rin [7]) = (got, r)"
    by (cases "es_reads demo_cfb8 [1, 5, 5, 1, 9] (EncryptedStream_new demo_cfb8 demo_rin [7])")
  obtain w' where w': "es_poll_flush demo_writer = (ReadyOk (), w')" using demo_flush_runs(1) by (cases "es_poll_flush demo_writer") simp
  obtain i' where i': "es_inner w' = Some i'" "incoming demo_rin = is_out i'" using demo_flush_runs(2) w' by auto
  obtain rin' where r: "es_inner r = Some rin'" "incoming rin' = []" using g by (auto simp: demo_defs)
  have "no_write_errors demo_inner" "is_out demo_inner = []" by (simp_all add: no_write_errors_def demo_inner_def)
  from encrypted_stream_roundtrip [OF demo_cfb8_ok this demo_writer_runs g] w' i' r g show ?thesis by blast
qed

end
