(* ===== verification/Btree.thy ===== *)
theory Btree
  imports Prelude
begin

text \<open>
  \<^verbatim>\<open>BTreeMap\<close> as the list of its entries in the order of the keys, which is the order its iterators visit them in.
  The locale \<open>map_laws\<close> is what the clients of a map rely on; the lemmas about sequences of insertions are
  proved from those laws alone. The maps of the configuration cache, the plugin storage and the tracker
  state interpret it.
\<close>

type_synonym ('k, 'v) btree = "('k \<times> 'v) list"

fun btree_insert :: "'k::linorder \<Rightarrow> 'v \<Rightarrow> ('k, 'v) btree \<Rightarrow> ('k, 'v) btree" where
  "btree_insert k v [] = [(k, v)]"
| "btree_insert k v ((l, w) # m) =
     (if k < l then (k, v) # (l, w) # m
      else if k = l then (k, v) # m
      else (l, w) # btree_insert k v m)"

definition btree_get :: "('k, 'v) btree \<Rightarrow> 'k \<Rightarrow> 'v option" where
  "btree_get m k = map_of m k"

definition btree_remove :: "'k \<Rightarrow> ('k, 'v) btree \<Rightarrow> ('k, 'v) btree" where
  "btree_remove k m = filter (\<lambda>e. fst e \<noteq> k) m"

definition btree_invar :: "('k::linorder, 'v) btree \<Rightarrow> bool" where
  "btree_invar m \<longleftrightarrow> sorted_wrt (<) (map fst m)"

locale map_laws =
  fixes empty :: 'm
    and insert :: "'k \<Rightarrow> 'v \<Rightarrow> 'm \<Rightarrow> 'm"
    and get :: "'m \<Rightarrow> 'k \<Rightarrow> 'v option"
    and invar :: "'m \<Rightarrow> bool"
  assumes invar_empty: "invar empty"
    and get_empty: "get empty k = None"
    and invar_insert: "invar m \<Longrightarrow> invar (insert k v m)"
    and get_insert: "invar m \<Longrightarrow> get (insert k v m) = (get m)(k \<mapsto> v)"
begin

lemma invar_inserts: "invar m \<Longrightarrow> invar (fold (\<lambda>(k, v). insert k v) kvs m)"
  by (induction kvs arbitrary: m) (auto simp: invar_insert)

lemma get_inserts: "invar m \<Longrightarrow> get (fold (\<lambda>(k, v). insert k v) kvs m) = get m ++ map_of (rev kvs)"
proof (induction kvs arbitrary: m)
  case (Cons kv kvs)
  obtain k v where kv: "kv = (k, v)" by (cases kv)
  with Cons show ?case
    by (auto simp: invar_insert get_insert map_add_def fun_eq_iff split: option.split)
qed simp

text \<open>Insertions under different keys commute, observed through \<open>get\<close>.\<close>

lemma get_insert_commute:
  "invar m \<Longrightarrow> k \<noteq> l \<Longrightarrow> get (insert k v (insert l w m)) = get (insert l w (insert k v m))"
  by (simp add: get_insert invar_insert fun_upd_twist)

end

text \<open>Maps that are determined by what they return.\<close>

locale canonical_map = map_laws +
  assumes get_ext: "invar m \<Longrightarrow> invar n \<Longrightarrow> get m = get n \<Longrightarrow> m = n"
begin

lemma insert_commute:
  "invar m \<Longrightarrow> k \<noteq> l \<Longrightarrow> insert k v (insert l w m) = insert l w (insert k v m)"
  by (intro get_ext invar_insert get_insert_commute) auto

lemma insert_overwrites: "invar m \<Longrightarrow> insert k v (insert k w m) = insert k v m"
  by (intro get_ext invar_insert) (auto simp: get_insert invar_insert)

lemma inserts_determined:
  "map_of (rev kvs) = map_of (rev lvs) \<Longrightarrow>
   fold (\<lambda>(k, v). insert k v) kvs empty = fold (\<lambda>(k, v). insert k v) lvs empty"
  by (intro get_ext invar_inserts) (auto simp: get_inserts invar_empty)

end

section \<open>The sorted list meets the contract\<close>

lemma map_of_rev_distinct: "distinct (map fst kvs) \<Longrightarrow> map_of (rev kvs) = map_of kvs"
  by (subst map_of_inject_set) (auto simp: rev_map [symmetric])

lemma fst_btree_insert: "fst ` set (btree_insert k v m) = insert k (fst ` set m)"
  by (induction k v m rule: btree_insert.induct) auto

lemma btree_invar_insert: "btree_invar m \<Longrightarrow> btree_invar (btree_insert k v m)"
proof (induction k v m rule: btree_insert.induct)
  case (2 k v l w m)
  then show ?case
    using fst_btree_insert [of k v m] by (auto simp: btree_invar_def)
qed (simp add: btree_invar_def)

lemma btree_get_insert: "btree_get (btree_insert k v m) = (btree_get m)(k \<mapsto> v)" if "btree_invar m"
  using that
proof (induction k v m rule: btree_insert.induct)
  case (2 k v l w m)
  then show ?case by (auto simp: btree_get_def btree_invar_def fun_eq_iff)
qed (simp add: btree_get_def fun_eq_iff)

lemma btree_ext:
  fixes m n :: "('k::linorder, 'v) btree"
  assumes "btree_invar m" "btree_invar n" "btree_get m = btree_get n"
  shows "m = n"
proof -
  have d: "distinct (map fst m)" "distinct (map fst n)" "sorted (map fst m)" "sorted (map fst n)"
    using assms(1,2) by (auto simp: btree_invar_def strict_sorted_iff)
  have s: "set m = set n"
    using assms(3) d(1,2) by (metis btree_get_def ext map_of_inject_set)
  then have k: "map fst m = map fst n"
    using d by (metis sorted_distinct_set_unique list.set_map)
  show ?thesis
  proof (rule nth_equalityI)
    show "length m = length n" using k by (metis length_map)
    fix i
    assume i: "i < length m"
    then have f: "fst (m ! i) = fst (n ! i)" and i': "i < length n"
      using k by (metis nth_map length_map)+
    have "map_of m (fst (m ! i)) = Some (snd (m ! i))" "map_of n (fst (n ! i)) = Some (snd (n ! i))"
      using d i i' by (auto intro!: map_of_is_SomeI)
    with f assms(3) show "m ! i = n ! i"
      by (simp add: btree_get_def fun_eq_iff prod_eq_iff)
  qed
qed

interpretation btree: canonical_map "[]" btree_insert btree_get btree_invar
  by unfold_locales (auto simp: btree_invar_insert btree_get_insert btree_ext, auto simp: btree_invar_def btree_get_def)

lemma btree_invar_remove: "btree_invar m \<Longrightarrow> btree_invar (btree_remove k m)"
  by (induction m) (auto simp: btree_invar_def btree_remove_def)

lemma btree_get_remove: "btree_get (btree_remove k m) = (btree_get m)(k := None)"
  by (induction m) (auto simp: btree_get_def btree_remove_def fun_eq_iff)

end
