(* ===== verification/Config_State.thy ===== *)
theory Config_State
  imports Login_Packets Btree
begin

text \<open>
  \<^verbatim>\<open>src/src/protocol/configuration.rs\<close>: the packets of the configuration state the proxy looks into, and the cache
  of registry data that it replays to a client. The cache is a \<^verbatim>\<open>BTreeMap\<close> from registry identifiers to
  packets, kept here as the list of its entries in key order.

  The lemmas show the laws of the cache (as an interpretation of \<open>canonical_map\<close>), that every operation keeps
  its invariant, that a replay rebuilds the cache on the other side, and how far the structured
  form of registry data survives its own parser.
\<close>

definition REGISTRY_DATA_PACKET_ID :: i32 where
  "REGISTRY_DATA_PACKET_ID = 0x07"

definition FINISH_CONFIGURATION_PACKET_ID :: i32 where
  "FINISH_CONFIGURATION_PACKET_ID = 0x02"

section \<open>Registry data\<close>

record registry_entry =
  re_entry_id :: str
  re_data :: "bytes option"

record registry_data =
  rd_registry_id :: str
  rd_raw_data :: bytes

definition registry_data_decode :: "raw_packet \<Rightarrow> registry_data res" where
  "registry_data_decode packet =
     (if rp_id packet \<noteq> REGISTRY_DATA_PACKET_ID then Inl (InvalidPacketId (rp_id packet))
      else
        bindE (take_string (str ''unexpected EOF reading registry_id'') (str ''invalid UTF-8 in registry_id'')
                 (payload packet)) (\<lambda>(registry_id, cursor).
        Inr \<lparr>rd_registry_id = registry_id, rd_raw_data = cursor\<rparr>))"

definition registry_data_encode :: "registry_data \<Rightarrow> raw_packet" where
  "registry_data_encode p = RawPacket REGISTRY_DATA_PACKET_ID (put_prefixed (rd_registry_id p) @ rd_raw_data p)"

definition put_entry :: "registry_entry \<Rightarrow> bytes" where
  "put_entry entry =
     put_prefixed (re_entry_id entry) @ (case re_data entry of Some data \<Rightarrow> 1 # data | None \<Rightarrow> [0])"

definition from_entries :: "str \<Rightarrow> registry_entry list \<Rightarrow> registry_data" where
  "from_entries registry_id entries =
     \<lparr>rd_registry_id = registry_id,
      rd_raw_data = encode_varint (usize_as_i32 (length entries)) @ concat (map put_entry entries)\<rparr>"

text \<open>The loop of \<^verbatim>\<open>try_decode_entries\<close>: an entry with data takes the rest of the buffer and ends it.\<close>

fun decode_entries :: "nat \<Rightarrow> bytes \<Rightarrow> registry_entry list res" where
  "decode_entries 0 cursor = Inr []"
| "decode_entries (Suc n) cursor =
     bindE (take_string (str ''unexpected EOF reading entry_id'') (str ''invalid UTF-8 in entry_id'') cursor)
       (\<lambda>(entry_id, cursor).
     bindE (get_u8 (str ''unexpected EOF reading has_data flag'') cursor) (\<lambda>(flag, cursor).
     if flag \<noteq> 0 then Inr [\<lparr>re_entry_id = entry_id, re_data = Some cursor\<rparr>]
     else bindE (decode_entries n cursor) (\<lambda>es. Inr (\<lparr>re_entry_id = entry_id, re_data = None\<rparr> # es))))"

definition try_decode_entries :: "registry_data \<Rightarrow> registry_entry list res" where
  "try_decode_entries p =
     bindE (decode_varint (rd_raw_data p)) (\<lambda>(count, cursor).
     if sint count < 0 then Inl (Io InvalidData (str ''negative entry count''))
     else decode_entries (nat (sint count)) cursor)"

section \<open>Finish configuration and the union of known packets\<close>

definition finish_configuration_decode :: "raw_packet \<Rightarrow> unit res" where
  "finish_configuration_decode packet =
     (if rp_id packet \<noteq> FINISH_CONFIGURATION_PACKET_ID then Inl (InvalidPacketId (rp_id packet)) else Inr ())"

definition finish_configuration_encode :: "unit \<Rightarrow> raw_packet" where
  "finish_configuration_encode _ = RawPacket FINISH_CONFIGURATION_PACKET_ID []"

definition finish_configuration_next_state :: "unit \<Rightarrow> ConnectionState" where
  "finish_configuration_next_state _ = Play"

datatype ClientboundConfigPacket =
    RegistryData registry_data
  | FinishConfiguration
  | OtherConfig raw_packet

definition clientbound_config_decode :: "raw_packet \<Rightarrow> ClientboundConfigPacket res" where
  "clientbound_config_decode packet =
     (if rp_id packet = REGISTRY_DATA_PACKET_ID then bindE (registry_data_decode packet) (\<lambda>r. Inr (RegistryData r))
      else if rp_id packet = FINISH_CONFIGURATION_PACKET_ID
      then bindE (finish_configuration_decode packet) (\<lambda>_. Inr FinishConfiguration)
      else Inr (OtherConfig packet))"

section \<open>The session cache\<close>

datatype ConfigAction = CachedRegistry str | TransitionToPlay | Passthrough raw_packet

type_synonym session_registry_cache = "(str, registry_data) btree"

definition cache_new :: session_registry_cache where
  "cache_new = []"

definition cache_insert :: "registry_data \<Rightarrow> session_registry_cache \<Rightarrow> session_registry_cache" where
  "cache_insert packet cache = btree_insert (rd_registry_id packet) packet cache"

definition cache_insert_raw :: "str \<Rightarrow> bytes \<Rightarrow> session_registry_cache \<Rightarrow> session_registry_cache" where
  "cache_insert_raw registry_id raw_data cache =
     cache_insert \<lparr>rd_registry_id = registry_id, rd_raw_data = raw_data\<rparr> cache"

definition cache_packet :: "raw_packet \<Rightarrow> session_registry_cache \<Rightarrow> bool res \<times> session_registry_cache" where
  "cache_packet packet cache =
     (if rp_id packet = REGISTRY_DATA_PACKET_ID then
        (case registry_data_decode packet of
           Inl e \<Rightarrow> (Inl e, cache)
         | Inr reg \<Rightarrow> (Inr True, cache_insert reg cache))
      else (Inr False, cache))"

definition process_clientbound_packet ::
  "raw_packet \<Rightarrow> session_registry_cache \<Rightarrow> ConfigAction res \<times> session_registry_cache" where
  "process_clientbound_packet packet cache =
     (if rp_id packet = REGISTRY_DATA_PACKET_ID then
        (case registry_data_decode packet of
           Inl e \<Rightarrow> (Inl e, cache)
         | Inr reg \<Rightarrow> (Inr (CachedRegistry (rd_registry_id reg)), cache_insert reg cache))
      else if rp_id packet = FINISH_CONFIGURATION_PACKET_ID then
        (case finish_configuration_decode packet of
           Inl e \<Rightarrow> (Inl e, cache)
         | Inr _ \<Rightarrow> (Inr TransitionToPlay, cache))
      else (Inr (Passthrough packet), cache))"

definition cache_get :: "session_registry_cache \<Rightarrow> str \<Rightarrow> registry_data option" where
  "cache_get cache registry_id = btree_get cache registry_id"

definition cache_get_raw :: "session_registry_cache \<Rightarrow> str \<Rightarrow> bytes option" where
  "cache_get_raw cache registry_id = map_option rd_raw_data (btree_get cache registry_id)"

definition dimension_type :: "session_registry_cache \<Rightarrow> registry_data option" where
  "dimension_type cache = cache_get cache (str ''minecraft:dimension_type'')"

definition biomes :: "session_registry_cache \<Rightarrow> registry_data option" where
  "biomes cache =
     (case cache_get cache (str ''minecraft:worldgen/biome'') of
        Some p \<Rightarrow> Some p
      | None \<Rightarrow> cache_get cache (str ''minecraft:biome''))"

definition damage_type :: "session_registry_cache \<Rightarrow> registry_data option" where
  "damage_type cache = cache_get cache (str ''minecraft:damage_type'')"

definition cache_contains :: "session_registry_cache \<Rightarrow> str \<Rightarrow> bool" where
  "cache_contains cache registry_id = (btree_get cache registry_id \<noteq> None)"

definition cache_len :: "session_registry_cache \<Rightarrow> nat" where
  "cache_len cache = length cache"

definition cache_is_empty :: "session_registry_cache \<Rightarrow> bool" where
  "cache_is_empty cache = (cache = [])"

definition cache_clear :: "session_registry_cache \<Rightarrow> session_registry_cache" where
  "cache_clear cache = []"

definition serialize_all :: "session_registry_cache \<Rightarrow> raw_packet list" where
  "serialize_all cache = map (\<lambda>e. registry_data_encode (snd e)) cache"

fun replay_loop :: "zlib \<Rightarrow> raw_packet list \<Rightarrow> unit io" where
  "replay_loop z [] = returnS ()"
| "replay_loop z (p # ps) = bindS (write_packet z p) (\<lambda>_. replay_loop z ps)"

definition replay_to :: "zlib \<Rightarrow> session_registry_cache \<Rightarrow> nat io" where
  "replay_to z cache =
     (let packets = serialize_all cache in
      bindS (replay_loop z packets) (\<lambda>_. returnS (length packets)))"

section \<open>Contracts of the packets\<close>

definition wf_registry_data :: "registry_data \<Rightarrow> bool" where
  "wf_registry_data p \<longleftrightarrow> wf_string (rd_registry_id p)"

interpretation registry_data_codec:
  packet_codec registry_data_encode registry_data_decode REGISTRY_DATA_PACKET_ID wf_registry_data
  by unfold_locales (auto simp: registry_data_encode_def registry_data_decode_def wf_registry_data_def codec_simps)

interpretation finish_configuration_codec:
  packet_codec finish_configuration_encode finish_configuration_decode FINISH_CONFIGURATION_PACKET_ID "\<lambda>_. True"
  by unfold_locales (auto simp: finish_configuration_encode_def finish_configuration_decode_def)

section \<open>Laws of the cache\<close>

text \<open>The invariant: keys in strict order, and each packet stored under its own identifier.\<close>

definition cache_invar :: "session_registry_cache \<Rightarrow> bool" where
  "cache_invar cache \<longleftrightarrow> btree_invar cache \<and> list_all (\<lambda>(k, p). rd_registry_id p = k) cache"

lemma set_btree_insert: "set (btree_insert k v m) \<subseteq> insert (k, v) (set m)"
  by (induction k v m rule: btree_insert.induct) auto

lemma cache_invar_insert: "cache_invar cache \<Longrightarrow> cache_invar (cache_insert p cache)"
  using set_btree_insert [of "rd_registry_id p" p cache]
  by (auto simp: cache_invar_def cache_insert_def btree_invar_insert list_all_iff)

lemma cache_get_insert:
  "cache_invar cache \<Longrightarrow> cache_get (cache_insert p cache) = (cache_get cache)(rd_registry_id p \<mapsto> p)"
  by (simp add: cache_get_def [abs_def] cache_insert_def cache_invar_def btree_get_insert fun_eq_iff)

lemma cache_get_raw_insert:
  "cache_invar cache \<Longrightarrow> cache_get_raw (cache_insert_raw k raw cache) = (cache_get_raw cache)(k \<mapsto> raw)"
  by (simp add: cache_get_raw_def [abs_def] cache_insert_raw_def cache_insert_def cache_invar_def btree_get_insert fun_eq_iff)

lemma cache_get_of_raw:
  assumes "cache_invar cache"
  shows "cache_get cache k = map_option (\<lambda>raw. \<lparr>rd_registry_id = k, rd_raw_data = raw\<rparr>) (cache_get_raw cache k)"
proof (cases "cache_get cache k")
  case None
  then show ?thesis by (simp add: cache_get_def cache_get_raw_def)
next
  case (Some p)
  then have "(k, p) \<in> set cache"
    by (simp add: cache_get_def btree_get_def map_of_SomeD)
  then have "rd_registry_id p = k"
    using assms by (auto simp: cache_invar_def list_all_iff)
  with Some show ?thesis by (auto simp: cache_get_def cache_get_raw_def)
qed

lemma cache_ext:
  assumes "cache_invar c" "cache_invar d" "cache_get_raw c = cache_get_raw d"
  shows "c = d"
proof (rule btree_ext)
  show "btree_get c = btree_get d"
    using cache_get_of_raw [OF assms(1)] cache_get_of_raw [OF assms(2)] assms(3)
    by (simp add: cache_get_def fun_eq_iff)
qed (use assms in \<open>auto simp: cache_invar_def\<close>)

interpretation registry_cache: canonical_map cache_new cache_insert_raw cache_get_raw cache_invar
proof
  show "cache_invar m \<Longrightarrow> cache_invar (cache_insert_raw k v m)" for m k v
    by (simp add: cache_insert_raw_def cache_invar_insert)
qed (auto simp: cache_get_raw_insert cache_ext, auto simp: cache_new_def cache_invar_def btree_invar_def
      cache_get_raw_def btree_get_def)

lemma cache_insert_raw_self: "cache_insert_raw (rd_registry_id p) (rd_raw_data p) = cache_insert p"
proof -
  have "\<lparr>rd_registry_id = rd_registry_id p, rd_raw_data = rd_raw_data p\<rparr> = p" by simp
  then show ?thesis by (simp only: cache_insert_raw_def [abs_def])
qed

lemma cache_packet_invar: "cache_invar cache \<Longrightarrow> cache_invar (snd (cache_packet packet cache))"
  by (auto simp: cache_packet_def cache_invar_insert split: sum.split)

lemma process_clientbound_packet_invar:
  "cache_invar cache \<Longrightarrow> cache_invar (snd (process_clientbound_packet packet cache))"
  by (auto simp: process_clientbound_packet_def cache_invar_insert split: sum.split)

section \<open>Replay\<close>

text \<open>Storing a sequence of packets with \<^verbatim>\<open>cache_packet\<close>.\<close>

definition cache_packets :: "raw_packet list \<Rightarrow> session_registry_cache \<Rightarrow> session_registry_cache" where
  "cache_packets ps cache = fold (\<lambda>p c. snd (cache_packet p c)) ps cache"

lemma cache_packet_encoded:
  "wf_registry_data p \<Longrightarrow> cache_packet (registry_data_encode p) c = (Inr True, cache_insert p c)"
  by (simp add: cache_packet_def registry_data_codec.decode_encode registry_data_codec.encode_id)

lemma cache_packets_encoded:
  "\<forall>p \<in> set ps. wf_registry_data p \<Longrightarrow>
   cache_packets (map registry_data_encode ps) c =
     fold (\<lambda>(k, raw). cache_insert_raw k raw) (map (\<lambda>p. (rd_registry_id p, rd_raw_data p)) ps) c"
  by (induction ps arbitrary: c)
     (auto simp: cache_packets_def cache_packet_encoded cache_insert_raw_self)

lemma cache_get_raw_map_of:
  "cache_invar cache \<Longrightarrow>
   map_of (map (\<lambda>p. (rd_registry_id p, rd_raw_data p)) (map snd cache)) = cache_get_raw cache"
  by (induction cache) (auto simp: cache_invar_def cache_get_raw_def btree_get_def btree_invar_def fun_eq_iff)

lemma cache_keys:
  "list_all (\<lambda>(k, p). rd_registry_id p = k) cache \<Longrightarrow>
   map fst (map (\<lambda>p. (rd_registry_id p, rd_raw_data p)) (map snd cache)) = map fst cache"
  by (induction cache) auto

lemma cache_replay_rebuilds:
  assumes "cache_invar cache" and "\<forall>p \<in> set (map snd cache). wf_registry_data p"
  shows "cache_packets (serialize_all cache) cache_new = cache"
proof -
  let ?kvs = "map (\<lambda>p. (rd_registry_id p, rd_raw_data p)) (map snd cache)"
  have s: "serialize_all cache = map registry_data_encode (map snd cache)"
    by (simp add: serialize_all_def)
  have d: "distinct (map fst ?kvs)"
    using assms(1) unfolding cache_invar_def
    by (subst cache_keys) (auto simp: btree_invar_def strict_sorted_iff)
  have "cache_get_raw (cache_packets (serialize_all cache) cache_new) = cache_get_raw cache"
    unfolding s cache_packets_encoded [OF assms(2)] registry_cache.get_inserts [OF registry_cache.invar_empty]
    using cache_get_raw_map_of [OF assms(1)] map_of_rev_distinct [OF d]
    by (simp add: fun_eq_iff registry_cache.get_empty map_add_def split: option.split)
  moreover have "cache_invar (cache_packets (serialize_all cache) cache_new)"
    unfolding s cache_packets_encoded [OF assms(2)]
    by (intro registry_cache.invar_inserts registry_cache.invar_empty)
  ultimately show ?thesis using assms(1) by (intro cache_ext)
qed

lemma replay_loop_eq: "replay_loop z ps = write_packets z ps None"
  by (induction ps) (simp_all add: write_packet_def)

lemma replay_to_ok:
  assumes "\<forall>p \<in> set (serialize_all cache). sendable z mx None p" and "wfate c = []"
  shows "replay_to z cache c =
    (Some (Inr (cache_len cache)), c\<lparr>outb := outb c @ concat (map (wire z None) (serialize_all cache))\<rparr>)"
proof -
  have "write_packets z (serialize_all cache) None c =
      (Some (Inr ()), c\<lparr>outb := outb c @ concat (map (wire z None) (serialize_all cache))\<rparr>)"
    using assms by (rule write_packets_ok)
  then show ?thesis
    by (simp add: replay_to_def replay_loop_eq bindS_def returnS_def Let_def cache_len_def) (simp add: serialize_all_def)
qed

section \<open>Entries\<close>

definition wf_entry :: "registry_entry \<Rightarrow> bool" where
  "wf_entry e \<longleftrightarrow> wf_string (re_entry_id e)"

lemma decode_entries_no_data:
  "\<forall>e \<in> set es. wf_entry e \<and> re_data e = None \<Longrightarrow>
   decode_entries (length es + n) (concat (map put_entry es) @ rest) =
     bindE (decode_entries n rest) (\<lambda>fs. Inr (es @ fs))"
proof (induction es)
  case Nil
  show ?case by (cases "decode_entries n rest") auto
next
  case (Cons e es)
  then show ?case
    by (cases "decode_entries n rest") (auto simp: put_entry_def wf_entry_def codec_simps intro: registry_entry.equality)
qed

lemma decode_entries_data:
  "wf_entry e \<Longrightarrow> re_data e = Some d \<Longrightarrow>
   decode_entries (Suc n) (put_entry e @ rest) = Inr [e\<lparr>re_data := Some (d @ rest)\<rparr>]"
  by (auto simp: put_entry_def wf_entry_def codec_simps intro: registry_entry.equality)

lemma decode_varint_count:
  "n < 2 ^ 31 \<Longrightarrow> bindE (decode_varint (encode_varint (usize_as_i32 n) @ rest))
     (\<lambda>(count, cursor). if sint count < 0 then Inl e else f (nat (sint count)) cursor) = f n rest"
  by (simp add: codec_simps cast_simps)

section \<open>Properties\<close>

text \<open>The registry cache behaves as a map whatever was stored before: after any sequence of insertions it
  keeps its invariant and returns for an identifier the bytes inserted last, and two sequences with the same
  last values per identifier leave the same cache, so that the order of a replay depends on nothing else.\<close>

theorem registry_cache_is_map:
  "let cache = fold (\<lambda>(k, raw). cache_insert_raw k raw) kvs cache_new in
   cache_invar cache \<and> cache_get_raw cache = map_of (rev kvs)
   \<and> (cache = fold (\<lambda>(k, raw). cache_insert_raw k raw) lvs cache_new \<longleftrightarrow> map_of (rev kvs) = map_of (rev lvs))"
proof -
  have g: "cache_get_raw (fold (\<lambda>(k, raw). cache_insert_raw k raw) xs cache_new) = map_of (rev xs)" for xs
    unfolding registry_cache.get_inserts [OF registry_cache.invar_empty]
    by (simp add: fun_eq_iff map_add_def registry_cache.get_empty split: option.split)
  show ?thesis
    unfolding Let_def
    using registry_cache.invar_inserts [OF registry_cache.invar_empty] g registry_cache.inserts_determined
    by metis
qed

text \<open>C26. A replay of the cache to a client is complete: \<^verbatim>\<open>replay_to\<close> returns the number of registries, and the packets
  the other side reads from what was written rebuild exactly this cache.\<close>

theorem replay_rebuilds_cache:
  assumes "zlib_ok z" and "mx < 2 ^ 31" and "cache_invar cache" and "wfate c = []" and "outb c = []"
    and "\<forall>p \<in> set (map snd cache). wf_registry_data p \<and> sendable z mx None (registry_data_encode p)"
  shows "\<exists>c' ps. replay_to z cache c = (Some (Inr (cache_len cache)), c')
    \<and> read_packets z mx None (cache_len cache) (d\<lparr>inb := outb c'\<rparr>) = (Some (Inr ps), d\<lparr>inb := []\<rparr>)
    \<and> cache_packets ps cache_new = cache"
proof -
  let ?ps = "serialize_all cache"
  have s: "\<forall>p \<in> set ?ps. sendable z mx None p"
    using assms(6) by (auto simp: serialize_all_def)
  have r: "replay_to z cache c = (Some (Inr (cache_len cache)), c\<lparr>outb := concat (map (wire z None) ?ps)\<rparr>)"
    using replay_to_ok [OF s assms(4)] assms(5) by simp
  have l: "cache_len cache = length ?ps"
    by (simp add: cache_len_def serialize_all_def)
  have rd: "read_packets z mx None (cache_len cache) (d\<lparr>inb := concat (map (wire z None) ?ps)\<rparr>) =
      (Some (Inr ?ps), d\<lparr>inb := []\<rparr>)"
    unfolding l using read_packets_ok [OF assms(1,2) s, of "d\<lparr>inb := concat (map (wire z None) ?ps)\<rparr>" "[]"] by simp
  have "cache_packets ?ps cache_new = cache"
    using assms(3,6) by (intro cache_replay_rebuilds) auto
  with r rd show ?thesis by (intro exI conjI) (assumption | simp)+
qed

theorem replay_rebuilds_cache_witness:
  "let c = \<lparr>inb = [], in_end = Eof, outb = [], wfate = []\<rparr>;
       cache = cache_insert_raw (str ''r'') [1, 2] cache_new
   in \<exists>c' ps. replay_to stored cache c = (Some (Inr 1), c')
        \<and> read_packets stored 100 None 1 (c\<lparr>inb := outb c'\<rparr>) = (Some (Inr ps), c\<lparr>inb := []\<rparr>)
        \<and> cache_packets ps cache_new = cache"
proof -
  let ?c = "\<lparr>inb = [], in_end = Eof, outb = [], wfate = []\<rparr>"
  let ?cache = "cache_insert_raw (str ''r'') [1, 2] cache_new"
  have e: "encode_varint 1 = [1]" "encode_varint 7 = [7]" "encode_varint 5 = [5]"
    by (simp_all add: encode_varint_def encode_var_loop_last)
  have w: "wf_string (str ''r'')"
    by (simp add: wf_string_def fits_i32_def str_def utf8_first_def of_char_def)
  have "\<forall>p \<in> set (map snd ?cache). wf_registry_data p \<and> sendable stored 100 None (registry_data_encode p)"
    using w by (simp add: cache_insert_raw_def cache_insert_def cache_new_def wf_registry_data_def sendable_def
        registry_data_encode_def REGISTRY_DATA_PACKET_ID_def wire_length_def varint_size_def put_prefixed_def
        encode_packet_with_compression_def Let_def usize_as_i32_def e str_def)
  from replay_rebuilds_cache [OF zlib_ok_stored _ _ _ _ this, of ?c ?c]
  show ?thesis
    using registry_cache.invar_insert [OF registry_cache.invar_empty, of "str ''r''" "[1, 2]"]
    by (simp add: Let_def cache_len_def cache_insert_raw_def cache_insert_def cache_new_def)
qed

text \<open>C39. What \<^verbatim>\<open>try_decode_entries\<close> returns on the data \<^verbatim>\<open>from_entries\<close> builds: entries without data come back as they were,
  but the first entry with data ends the parse and swallows the encodings of all entries after it.\<close>

theorem registry_entries_parse:
  assumes "\<forall>e \<in> set (es @ e # post). wf_entry e" and "\<forall>e \<in> set es. re_data e = None"
    and "length (es @ e # post) < 2 ^ 31"
  shows "try_decode_entries (from_entries i es) = Inr es
    \<and> (re_data e = Some d \<longrightarrow>
        try_decode_entries (from_entries i (es @ e # post)) =
          Inr (es @ [e\<lparr>re_data := Some (d @ concat (map put_entry post))\<rparr>]))"
proof -
  have a: "try_decode_entries (from_entries i xs) = decode_entries (length xs) (concat (map put_entry xs))"
    if "length xs < 2 ^ 31" for xs
    using that by (simp add: try_decode_entries_def from_entries_def decode_varint_count)
  have wf: "\<forall>e \<in> set es. wf_entry e \<and> re_data e = None" "wf_entry e"
    using assms(1,2) by auto
  have "try_decode_entries (from_entries i es) = Inr es"
    using decode_entries_no_data [OF wf(1), of 0 "[]"] assms(3) by (simp add: a)
  moreover have "try_decode_entries (from_entries i (es @ e # post)) =
      Inr (es @ [e\<lparr>re_data := Some (d @ concat (map put_entry post))\<rparr>])" if "re_data e = Some d"
    unfolding a [OF assms(3)]
    using decode_entries_no_data [OF wf(1), of "Suc (length post)" "put_entry e @ concat (map put_entry post)"]
      decode_entries_data [OF wf(2) that] by simp
  ultimately show ?thesis by blast
qed

theorem registry_entries_parse_witness:
  "let a = \<lparr>re_entry_id = str ''a'', re_data = None\<rparr>; b = \<lparr>re_entry_id = str ''b'', re_data = Some [7]\<rparr>
   in try_decode_entries (from_entries (str ''r'') [a, b, a]) =
        Inr [a, b\<lparr>re_data := Some ([7] @ put_entry a)\<rparr>]"
proof -
  let ?a = "\<lparr>re_entry_id = str ''a'', re_data = None\<rparr>" and ?b = "\<lparr>re_entry_id = str ''b'', re_data = Some [7]\<rparr>"
  have "wf_entry ?a" "wf_entry ?b"
    by (simp_all add: wf_entry_def wf_string_def fits_i32_def str_def utf8_first_def of_char_def)
  then show ?thesis
    using registry_entries_parse [of "[?a]" ?b "[?a]" "str ''r''" "[7]"] by (simp add: Let_def)
qed

end
