(* ===== verification/Backend_Connector.thy ===== *)
theory Backend_Connector
  imports Forwarding Config_State
begin

text \<open>
  The first part of \<^verbatim>\<open>src/src/routing/state_machine.rs\<close>: the trait \<^verbatim>\<open>BackendConnector\<close> and its implementation over
  TCP, and the configuration phase that \<^verbatim>\<open>switch_server\<close> runs with a new backend before the player is moved.

  The input of the configuration loop is what the backend will ever send, so the loop is total: every round takes at least
  one byte of it, and when it is used up the timeout of the read ends the loop. A backend that never stops sending is
  the case of ever longer inputs: each packet that decides nothing starts the wait anew.
\<close>

type_synonym connector =
  "str \<Rightarrow> backend_config \<Rightarrow> player_profile \<Rightarrow> str \<Rightarrow> i32 \<Rightarrow> (conn \<times> nat option) res option"

section \<open>Connecting over TCP\<close>

text \<open>The first answer of the backend: \<^verbatim>\<open>SetCompression\<close> and another packet, or a packet at once.\<close>

definition read_login_answer :: "zlib \<Rightarrow> (nat option \<times> raw_packet) io" where
  "read_login_answer z =
     bindS (read_packet z DEFAULT_MAX_PACKET_SIZE) (\<lambda>first_pkt.
     if rp_id first_pkt = 0x03 then
       bindS (liftS (decode_varint (payload first_pkt))) (\<lambda>(thresh, _).
       if sint thresh < 0 then failS (Io InvalidData (str ''Negative compression threshold from backend''))
       else
         bindS (read_packet_with_compression z DEFAULT_MAX_PACKET_SIZE (Some (i32_as_usize thresh))) (\<lambda>next_pkt.
         returnS (Some (i32_as_usize thresh), next_pkt)))
     else returnS (None, first_pkt))"

definition backend_online_mode_message :: str where
  "backend_online_mode_message = str ''Downstream backend server has online-mode or encryption enabled! Set online-mode=false in backend configuration.''"

definition finish_backend_login :: "zlib \<Rightarrow> i32 \<Rightarrow> (nat option) io" where
  "finish_backend_login z protocol_version =
     bindS (read_login_answer z) (\<lambda>(compression_threshold, login_pkt).
     if rp_id login_pkt = 0x01 then failS (AuthenticationFailed backend_online_mode_message)
     else if rp_id login_pkt = 0x00 then
       failS (AuthenticationFailed (str ''Backend rejected login: '' @ from_utf8_lossy (payload login_pkt)))
     else if rp_id login_pkt \<noteq> 0x02 then failS (InvalidPacketId (rp_id login_pkt))
     else if 764 \<le> sint protocol_version then
       bindS (write_packet_with_compression z (login_acknowledged_encode ()) compression_threshold) (\<lambda>_.
       bindS flush (\<lambda>_. returnS compression_threshold))
     else returnS compression_threshold)"

definition tcp_connect :: "fwd_env \<Rightarrow> connector" where
  "tcp_connect env backend_name cfg profile client_ip protocol_version =
     (case connect_and_forward env cfg profile client_ip protocol_version of
        None \<Rightarrow> None
      | Some (Inl e) \<Rightarrow> Some (Inl e)
      | Some (Inr stream) \<Rightarrow>
          (case finish_backend_login (fe_z env) protocol_version stream of
             (None, _) \<Rightarrow> None
           | (Some (Inl e), _) \<Rightarrow> Some (Inl e)
           | (Some (Inr compression_threshold), stream) \<Rightarrow> Some (Inr (stream, compression_threshold))))"

section \<open>The configuration phase of a transfer\<close>

datatype config_action =
    CacheIt
  | Reply raw_packet
  | Finish raw_packet
  | Refuse str
  | Skip

definition config_action_of :: "i32 \<Rightarrow> raw_packet \<Rightarrow> config_action" where
  "config_action_of v packet =
     (let finish_id = (if 766 \<le> sint v then 0x03 else 0x02);
          disconnect_id = (if 766 \<le> sint v then 0x02 else 0x01)
      in
      if rp_id packet = REGISTRY_DATA_PACKET_ID \<or> (sint v < 766 \<and> rp_id packet = 0x05) then CacheIt
      else if 766 \<le> sint v \<and> rp_id packet = 0x0E then Reply (RawPacket 0x07 (encode_varint 0))
      else if rp_id packet = 0x04 then Reply packet
      else if rp_id packet = 0x05 then Reply packet
      else if rp_id packet = finish_id then Finish (RawPacket finish_id [])
      else if rp_id packet = disconnect_id then Refuse (from_utf8_lossy (payload packet))
      else Skip)"

text \<open>Writing changes nothing of what is there to read, and a packet that is read was there.\<close>

lemma write_packet_keeps:
  "inb (snd (write_packet_with_compression z p thr c)) = inb c"
  "in_end (snd (write_packet_with_compression z p thr c)) = in_end c"
  using write_all_keeps
  by (auto simp: write_packet_with_compression_def bindS_def liftS_def flush_def returnS_def
      split: prod.splits option.splits sum.splits) (metis snd_conv)+

lemma read_packet_progress:
  assumes "read_packet_with_compression z mx thr c = (Some (Inr p), c')"
  shows "length (inb c') < length (inb c)"
proof -
  from assms obtain v c1 body where rv: "read_varint c = (Some (Inr v), c1)"
    and rb: "read_body (i32_as_usize v) [] c1 = (Some (Inr body), c')"
    by (auto simp: read_packet_with_compression_def bindS_eq_Inr_iff liftS_def split: if_splits)
  from rb have rest: "inb c' = drop (i32_as_usize v) (inb c1)"
    by (cases "in_end c1") (auto simp: read_body_eq at_end_def Let_def split: if_splits)
  from rv have "decode_varint (inb c) = Inr (v, inb c1)"
    by (auto simp: read_varint_decode at_end_def Let_def
        split: sum.splits prod.splits proxy_error.splits in_end.splits)
  from decode_varint_shortest [OF this] have "length (inb c1) < length (inb c)"
    using varint_size_bounds(1) [of v] by auto
  with rest show ?thesis by simp
qed

text \<open>One round reads a packet; the result \<open>Inl\<close> is the reason shown to the player. \<open>None\<close> is a write that never ends:
  only the read carries a timeout.\<close>

function config_loop ::
  "zlib \<Rightarrow> i32 \<Rightarrow> nat option \<Rightarrow> conn \<Rightarrow> session_registry_cache \<Rightarrow> (str + unit) option \<times> conn \<times> session_registry_cache" where
  "config_loop z v thr nb cache =
     (case read_packet_with_compression z DEFAULT_MAX_PACKET_SIZE thr nb of
        (None, nb1) \<Rightarrow> (Some (Inl (str ''connection timed out'')), nb1, cache)
      | (Some (Inl e), nb1) \<Rightarrow> (Some (Inl (display_error e)), nb1, cache)
      | (Some (Inr packet), nb1) \<Rightarrow>
          (case config_action_of v packet of
             CacheIt \<Rightarrow> config_loop z v thr nb1 (snd (cache_packet packet cache))
           | Reply resp_pkt \<Rightarrow>
               (case write_packet_with_compression z resp_pkt thr nb1 of
                  (None, nb2) \<Rightarrow> (None, nb2, cache)
                | (Some (Inl e), nb2) \<Rightarrow> (Some (Inl (display_error e)), nb2, cache)
                | (Some (Inr _), nb2) \<Rightarrow> config_loop z v thr nb2 cache)
           | Finish finish \<Rightarrow>
               (case write_packet_with_compression z finish thr nb1 of
                  (None, nb2) \<Rightarrow> (None, nb2, cache)
                | (Some (Inl e), nb2) \<Rightarrow> (Some (Inl (display_error e)), nb2, cache)
                | (Some (Inr _), nb2) \<Rightarrow> (Some (Inr ()), nb2, cache))
           | Refuse reason \<Rightarrow> (Some (Inl reason), nb1, cache)
           | Skip \<Rightarrow> config_loop z v thr nb1 cache))"
  by pat_completeness auto
termination
proof (relation "measure (\<lambda>(z, v, thr, nb, cache). length (inb nb))", goal_cases)
  case (3 z v thr nb cache x nb1 y packet resp_pkt a nb2 b u)
  then have "inb nb2 = inb nb1" "length (inb nb1) < length (inb nb)"
    using write_packet_keeps(1) [of z resp_pkt thr nb1] by (metis snd_conv, metis read_packet_progress)
  then show ?case by simp
qed (simp_all add: read_packet_progress [OF sym])

declare config_loop.simps [simp del]

section \<open>The outcome of the configuration phase\<close>

lemma read_packet_same:
  assumes "read_packet_with_compression z mx thr c = (r, c')"
  shows "outb c' = outb c" "wfate c' = wfate c"
  using assms reads_only_read_packet [of z mx thr] by (auto simp: reads_only_def dest: spec [of _ c])

text \<open>On a connection that accepts writes, a write of a packet fails only in the compressor.\<close>

lemma write_packet_accepting:
  assumes "wfate c = []"
  shows "write_packet_with_compression z p thr c =
     (case encode_packet_with_compression z p thr of
        Inl e \<Rightarrow> (Some (Inl e), c)
      | Inr bs \<Rightarrow> (Some (Inr ()), c\<lparr>outb := outb c @ bs\<rparr>))"
  using assms
  by (simp add: write_packet_with_compression_def bindS_def liftS_def write_all_def flush_def returnS_def split: sum.split)

definition finish_packet :: "i32 \<Rightarrow> raw_packet" where
  "finish_packet v = RawPacket (if 766 \<le> sint v then 0x03 else 0x02) []"

lemma config_action_Finish: "config_action_of v p = Finish q \<Longrightarrow> q = finish_packet v"
  by (auto simp: config_action_of_def finish_packet_def Let_def split: if_splits)

text \<open>A round with a backend that takes what is written to it.\<close>

lemma config_loop_round:
  assumes "read_packet_with_compression z DEFAULT_MAX_PACKET_SIZE thr nb = (Some (Inr p), nb1)" and "wfate nb1 = []"
  shows "config_loop z v thr nb cache =
    (case config_action_of v p of
       CacheIt \<Rightarrow> config_loop z v thr nb1 (snd (cache_packet p cache))
     | Reply q \<Rightarrow>
         (case encode_packet_with_compression z q thr of
            Inl e \<Rightarrow> (Some (Inl (display_error e)), nb1, cache)
          | Inr bs \<Rightarrow> config_loop z v thr (nb1\<lparr>outb := outb nb1 @ bs\<rparr>) cache)
     | Finish q \<Rightarrow>
         (case encode_packet_with_compression z q thr of
            Inl e \<Rightarrow> (Some (Inl (display_error e)), nb1, cache)
          | Inr bs \<Rightarrow> (Some (Inr ()), nb1\<lparr>outb := outb nb1 @ bs\<rparr>, cache))
     | Refuse reason \<Rightarrow> (Some (Inl reason), nb1, cache)
     | Skip \<Rightarrow> config_loop z v thr nb1 cache)"
  using assms by (subst config_loop.simps) (simp add: write_packet_accepting split: config_action.split sum.split)

lemma config_loop_ends:
  assumes "wfate nb = []" and "config_loop z v thr nb cache = (r, nb', cache')"
  shows "r \<noteq> None \<and> (r = Some (Inr ()) \<longrightarrow> (\<exists>pre. outb nb' = pre @ wire z thr (finish_packet v)))"
  using assms
proof (induction nb arbitrary: cache rule: measure_induct_rule [of "\<lambda>nb. length (inb nb)"])
  case (less nb)
  obtain x nb1 where rd: "read_packet_with_compression z DEFAULT_MAX_PACKET_SIZE thr nb = (x, nb1)"
    by (cases "read_packet_with_compression z DEFAULT_MAX_PACKET_SIZE thr nb")
  have w1: "wfate nb1 = []" using read_packet_same(2) [OF rd] less.prems(1) by simp
  show ?case
  proof (cases "\<exists>p. x = Some (Inr p)")
    case False
    with less.prems(2) rd show ?thesis
      by (subst (asm) config_loop.simps) (auto split: option.splits sum.splits)
  next
    case True
    then obtain p where rd: "read_packet_with_compression z DEFAULT_MAX_PACKET_SIZE thr nb = (Some (Inr p), nb1)" using rd by blast
    note again = less.IH [OF read_packet_progress [OF rd] w1]
    have reply: "r \<noteq> None \<and> (r = Some (Inr ()) \<longrightarrow> (\<exists>pre. outb nb' = pre @ wire z thr (finish_packet v)))"
      if "config_loop z v thr (nb1\<lparr>outb := o1\<rparr>) cache1 = (r, nb', cache')" for o1 cache1
      using less.IH [of "nb1\<lparr>outb := o1\<rparr>", OF _ _ that] read_packet_progress [OF rd] w1 by simp
    note round = less.prems(2) [unfolded config_loop_round [OF rd w1]]
    show ?thesis
    proof (cases "config_action_of v p")
      case (Reply q)
      with round reply show ?thesis by (auto split: sum.splits)
    next
      case (Finish q)
      with round config_action_Finish [OF Finish] show ?thesis by (auto simp: wire_def split: sum.splits)
    qed (use round again in auto)
  qed
qed

text \<open>What the packets of the configuration state are to the proxy: which decide the phase, what is answered, what goes to the
  cache.\<close>

definition config_finish_id :: "i32 \<Rightarrow> i32" where
  "config_finish_id v = (if 766 \<le> sint v then 0x03 else 0x02)"

definition config_disconnect_id :: "i32 \<Rightarrow> i32" where
  "config_disconnect_id v = (if 766 \<le> sint v then 0x02 else 0x01)"

definition config_replies :: "i32 \<Rightarrow> raw_packet \<Rightarrow> raw_packet list" where
  "config_replies v p =
     (if rp_id p = 0x04 then [p]
      else if 766 \<le> sint v \<and> rp_id p = 0x05 then [p]
      else if 766 \<le> sint v \<and> rp_id p = 0x0E then [RawPacket 0x07 [0]]
      else [])"

definition config_cached :: "raw_packet \<Rightarrow> session_registry_cache \<Rightarrow> session_registry_cache" where
  "config_cached p cache = (if rp_id p = 0x07 then snd (cache_packet p cache) else cache)"

lemma config_action_cases:
  assumes "rp_id p \<noteq> config_finish_id v" "rp_id p \<noteq> config_disconnect_id v"
  obtains "config_action_of v p = CacheIt" "config_replies v p = []" "config_cached p = (\<lambda>c. snd (cache_packet p c))"
  | q where "config_action_of v p = Reply q" "config_replies v p = [q]" "config_cached p = (\<lambda>c. c)"
  | "config_action_of v p = Skip" "config_replies v p = []" "config_cached p = (\<lambda>c. c)"
proof -
  have refused: "rp_id p \<noteq> 0x07 \<Longrightarrow> snd (cache_packet p c) = c" for c
    by (simp add: cache_packet_def REGISTRY_DATA_PACKET_ID_def)
  have other: "rp_id p \<noteq> 0x07 \<Longrightarrow> config_cached p = (\<lambda>c. c)"
    by (intro ext) (simp add: config_cached_def)
  show ?thesis
  proof (cases "config_action_of v p")
    case CacheIt
    with assms refused that(1) show ?thesis
      by (auto simp: config_action_of_def config_replies_def config_cached_def Let_def REGISTRY_DATA_PACKET_ID_def
          fun_eq_iff split: if_splits)
  next
    case (Reply q)
    with assms that(2) other show ?thesis
      by (auto simp: config_action_of_def config_replies_def Let_def REGISTRY_DATA_PACKET_ID_def split: if_splits)
  next
    case Skip
    with assms that(3) other show ?thesis
      by (auto simp: config_action_of_def config_replies_def Let_def REGISTRY_DATA_PACKET_ID_def split: if_splits)
  qed (use assms in \<open>auto simp: config_action_of_def config_finish_id_def config_disconnect_id_def Let_def split: if_splits\<close>)
qed

lemma encode_is_wire: "zlib_ok z \<Longrightarrow> encode_packet_with_compression z p thr = Inr (wire z thr p)"
proof -
  assume "zlib_ok z"
  then obtain f where "\<And>bs. z_compress z bs = Inr (f bs)"
    unfolding zlib_ok_def by metis
  then show ?thesis
    by (auto simp: wire_def encode_packet_with_compression_def Let_def split: option.split)
qed

lemma read_wire:
  assumes "zlib_ok z" "sendable z DEFAULT_MAX_PACKET_SIZE thr p" "inb c = wire z thr p @ rest"
  shows "read_packet_with_compression z DEFAULT_MAX_PACKET_SIZE thr c = (Some (Inr p), c\<lparr>inb := rest\<rparr>)"
proof -
  have "DEFAULT_MAX_PACKET_SIZE < 2 ^ 31" by (simp add: DEFAULT_MAX_PACKET_SIZE_def)
  then show ?thesis
    using assms by (intro read_packet_encoded [OF assms(1) sendable_wire [OF assms(2)]])
      (auto simp: sendable_def wire_def)
qed

definition config_answers :: "zlib \<Rightarrow> i32 \<Rightarrow> nat option \<Rightarrow> raw_packet list \<Rightarrow> bytes" where
  "config_answers z v thr ps = concat (map (wire z thr) (concat (map (config_replies v) ps)))"

lemma config_loop_passes:
  assumes "zlib_ok z"
  shows "wfate nb = [] \<Longrightarrow>
    \<forall>p \<in> set ps. sendable z DEFAULT_MAX_PACKET_SIZE thr p \<and> rp_id p \<noteq> config_finish_id v \<and> rp_id p \<noteq> config_disconnect_id v \<Longrightarrow>
    inb nb = concat (map (wire z thr) ps) @ rest \<Longrightarrow>
    config_loop z v thr nb cache =
    config_loop z v thr (nb\<lparr>inb := rest, outb := outb nb @ config_answers z v thr ps\<rparr>) (fold config_cached ps cache)"
proof (induction ps arbitrary: nb cache)
  case Nil
  then have "nb\<lparr>inb := rest, outb := outb nb @ []\<rparr> = nb" by simp
  then show ?case by (simp add: config_answers_def)
next
  case (Cons p ps)
  let ?nb1 = "nb\<lparr>inb := concat (map (wire z thr) ps) @ rest\<rparr>"
  have rd: "read_packet_with_compression z DEFAULT_MAX_PACKET_SIZE thr nb = (Some (Inr p), ?nb1)"
    using Cons.prems by (intro read_wire [OF assms]) auto
  have w: "wfate ?nb1 = []" using Cons.prems(1) by simp
  note round = config_loop_round [OF rd w, of v cache, unfolded encode_is_wire [OF assms]]
  have IH: "config_loop z v thr (nb\<lparr>inb := concat (map (wire z thr) ps) @ rest, outb := out\<rparr>) cache1 =
    config_loop z v thr (nb\<lparr>inb := rest, outb := out @ config_answers z v thr ps\<rparr>) (fold config_cached ps cache1)"
    for out cache1
    using Cons.IH [of "nb\<lparr>inb := concat (map (wire z thr) ps) @ rest, outb := out\<rparr>" cache1] Cons.prems by simp
  have IH0: "config_loop z v thr ?nb1 cache1 =
    config_loop z v thr (nb\<lparr>inb := rest, outb := outb nb @ config_answers z v thr ps\<rparr>) (fold config_cached ps cache1)"
    for cache1
    using Cons.IH [of ?nb1 cache1] Cons.prems by simp
  from Cons.prems(2) have "rp_id p \<noteq> config_finish_id v" "rp_id p \<noteq> config_disconnect_id v" by auto
  then show ?case
    by (cases rule: config_action_cases) (simp_all add: round IH IH0 config_answers_def)
qed

lemma config_loop_timeout:
  "inb nb = [] \<Longrightarrow> in_end nb = Silent \<Longrightarrow>
   config_loop z v thr nb cache = (Some (Inl (str ''connection timed out'')), nb, cache)"
  by (subst config_loop.simps)
    (simp add: read_packet_with_compression_def bindS_def read_varint_def read_var_loop.simps read_u8_def at_end_def)

lemma config_loop_decided:
  assumes "zlib_ok z" and "wfate nb = []" and "sendable z DEFAULT_MAX_PACKET_SIZE thr p" and "inb nb = wire z thr p @ behind"
  shows "rp_id p = config_finish_id v \<Longrightarrow> config_loop z v thr nb cache =
      (Some (Inr ()), nb\<lparr>inb := behind, outb := outb nb @ wire z thr (finish_packet v)\<rparr>, cache)"
    and "rp_id p = config_disconnect_id v \<Longrightarrow> config_loop z v thr nb cache =
      (Some (Inl (from_utf8_lossy (payload p))), nb\<lparr>inb := behind\<rparr>, cache)"
proof -
  note round = config_loop_round [OF read_wire [OF assms(1,3,4)], of v cache, unfolded encode_is_wire [OF assms(1)]]
  show "rp_id p = config_finish_id v \<Longrightarrow> config_loop z v thr nb cache =
      (Some (Inr ()), nb\<lparr>inb := behind, outb := outb nb @ wire z thr (finish_packet v)\<rparr>, cache)"
    using round assms(2)
    by (simp add: config_action_of_def config_finish_id_def finish_packet_def Let_def REGISTRY_DATA_PACKET_ID_def)
  show "rp_id p = config_disconnect_id v \<Longrightarrow> config_loop z v thr nb cache =
      (Some (Inl (from_utf8_lossy (payload p))), nb\<lparr>inb := behind\<rparr>, cache)"
    using round assms(2)
    by (simp add: config_action_of_def config_disconnect_id_def Let_def REGISTRY_DATA_PACKET_ID_def)
qed

text \<open>C16. The configuration phase of a transfer, for a backend that takes what is written to it. Any number of packets
  that neither finish nor refuse the configuration leaves the proxy waiting exactly as before, except for the answers
  to keep-alives, pings and known packs and for the registry cache, so the phase has no bound of its own; only a wait
  for one packet has. Then silence ends it with the timeout, the finish packet with success after acknowledging it, and
  the disconnect packet with its reason. When the backend stops sending, the phase is over, and it has succeeded only if
  the acknowledgement is the last thing written. Before version 766 no registry packet (identifier 0x05) is cached.\<close>

theorem configuration_phase_outcome:
  assumes "zlib_ok z" and "wfate nb = []"
    and "\<forall>p \<in> set ps. sendable z DEFAULT_MAX_PACKET_SIZE thr p \<and> rp_id p \<noteq> config_finish_id v \<and> rp_id p \<noteq> config_disconnect_id v"
    and "inb nb = concat (map (wire z thr) ps) @ rest"
  shows "let waiting = nb\<lparr>inb := rest, outb := outb nb @ concat (map (wire z thr) (concat (map (config_replies v) ps)))\<rparr>;
             cached = fold (\<lambda>p c. if rp_id p = 0x07 then snd (cache_packet p c) else c) ps cache;
             result = config_loop z v thr nb cache
    in result = config_loop z v thr waiting cached
      \<and> (rest = [] \<and> in_end nb = Silent \<longrightarrow> result = (Some (Inl (str ''connection timed out'')), waiting, cached))
      \<and> (sendable z DEFAULT_MAX_PACKET_SIZE thr p \<and> rest = wire z thr p @ behind \<longrightarrow>
           (rp_id p = (if 766 \<le> sint v then 0x03 else 0x02) \<longrightarrow>
              result = (Some (Inr ()), waiting\<lparr>inb := behind, outb := outb waiting @ wire z thr (finish_packet v)\<rparr>, cached))
         \<and> (rp_id p = (if 766 \<le> sint v then 0x02 else 0x01) \<longrightarrow>
              result = (Some (Inl (from_utf8_lossy (payload p))), waiting\<lparr>inb := behind\<rparr>, cached)))
      \<and> fst result \<noteq> None
      \<and> (fst result = Some (Inr ()) \<longrightarrow> (\<exists>pre. outb (fst (snd result)) = pre @ wire z thr (finish_packet v)))"
proof -
  let ?waiting = "nb\<lparr>inb := rest, outb := outb nb @ config_answers z v thr ps\<rparr>"
  let ?cached = "fold config_cached ps cache"
  have cached: "(\<lambda>p c. if rp_id p = 0x07 then snd (cache_packet p c) else c) = config_cached"
    by (intro ext) (simp add: config_cached_def)
  note passes = config_loop_passes [OF assms, of cache]
  obtain r nb' cache' where cl: "config_loop z v thr nb cache = (r, nb', cache')"
    by (cases "config_loop z v thr nb cache")
  note ends = config_loop_ends [OF assms(2) cl]
  have w: "wfate ?waiting = []" using assms(2) by simp
  have over: "fst (config_loop z v thr nb cache) \<noteq> None"
    "fst (config_loop z v thr nb cache) = Some (Inr ()) \<longrightarrow>
      (\<exists>pre. outb (fst (snd (config_loop z v thr nb cache))) = pre @ wire z thr (finish_packet v))"
    using ends cl by simp_all
  show ?thesis
    unfolding Let_def cached config_answers_def [symmetric]
  proof (intro conjI)
    show "rest = [] \<and> in_end nb = Silent \<longrightarrow>
        config_loop z v thr nb cache = (Some (Inl (str ''connection timed out'')), ?waiting, ?cached)"
      unfolding passes using config_loop_timeout [of ?waiting z v thr ?cached] by simp
    show "sendable z DEFAULT_MAX_PACKET_SIZE thr p \<and> rest = wire z thr p @ behind \<longrightarrow>
           (rp_id p = (if 766 \<le> sint v then 0x03 else 0x02) \<longrightarrow>
              config_loop z v thr nb cache =
                (Some (Inr ()), ?waiting\<lparr>inb := behind, outb := outb ?waiting @ wire z thr (finish_packet v)\<rparr>, ?cached))
         \<and> (rp_id p = (if 766 \<le> sint v then 0x02 else 0x01) \<longrightarrow>
              config_loop z v thr nb cache =
                (Some (Inl (from_utf8_lossy (payload p))), ?waiting\<lparr>inb := behind\<rparr>, ?cached))"
      unfolding passes
      using config_loop_decided [OF assms(1) w, of thr p behind v ?cached]
      unfolding config_finish_id_def config_disconnect_id_def by simp
  qed (fact passes over)+
qed

theorem configuration_phase_outcome_witness:
  "let keep_alive = RawPacket 0x04 [1]; finish = RawPacket 0x03 [];
       nb = \<lparr>inb = wire stored None keep_alive @ wire stored None finish, in_end = Silent, outb = [], wfate = []\<rparr>
   in config_loop stored 766 None nb [] =
        (Some (Inr ()), nb\<lparr>inb := [], outb := wire stored None keep_alive @ wire stored None finish\<rparr>, [])"
proof -
  let ?k = "RawPacket 0x04 [1]" and ?f = "RawPacket 0x03 []"
  let ?nb = "\<lparr>inb = wire stored None ?k @ wire stored None ?f, in_end = Silent, outb = [], wfate = []\<rparr>"
  have s: "sendable stored DEFAULT_MAX_PACKET_SIZE None (RawPacket i bs)" if "length bs < 100" for i bs
    using that varint_size_bounds(2) [of i] varint_size_bounds(2) [of "usize_as_i32 (varint_size i + length bs)"]
    by (simp add: sendable_def wire_length_def encode_packet_with_compression_def Let_def DEFAULT_MAX_PACKET_SIZE_def
        length_encode_varint)
  have f: "finish_packet 766 = ?f" and r: "config_replies 766 ?k = [?k]"
    by (simp_all add: finish_packet_def config_replies_def)
  have "\<forall>p \<in> set [?k]. sendable stored DEFAULT_MAX_PACKET_SIZE None p
      \<and> rp_id p \<noteq> config_finish_id 766 \<and> rp_id p \<noteq> config_disconnect_id 766"
    by (simp add: s config_finish_id_def config_disconnect_id_def)
  from configuration_phase_outcome [OF zlib_ok_stored _ this, of ?nb "wire stored None ?f" "[]" ?f "[]",
      unfolded Let_def, THEN conjunct2, THEN conjunct2, THEN conjunct1]
  show ?thesis
    unfolding Let_def by (simp add: f r s)
qed

section \<open>The backend's answer to the login\<close>

lemma bindS_waits: "fst (m s) = None \<Longrightarrow> fst (bindS m f s) = None"
  by (auto simp: bindS_def split: prod.splits option.splits)

lemma read_packet_silent:
  assumes "inb s = []" and "in_end s = Silent"
  shows "read_packet z mx (s :: conn) = (None, s)"
  using assms by (simp add: read_packet_def read_packet_with_compression_def bindS_def read_varint_def
      read_var_loop.simps read_u8_def at_end_def)

lemma finish_backend_login_silent:
  assumes "inb s = []" and "in_end s = Silent"
  shows "fst (finish_backend_login z v s) = None"
  using read_packet_silent [OF assms] unfolding finish_backend_login_def read_login_answer_def by (intro bindS_waits) simp

lemma tcp_connect_waits:
  assumes "fe_connect env (bc_address cfg @ str '':'' @ dec_nat (unat (bc_port cfg))) = Some (Inr stream)"
    and "dispatch_forwarding env cfg profile ip v stream = (Some (Inr ()), s)" and "inb s = []" "in_end s = Silent"
  shows "tcp_connect env name cfg profile ip v = None"
  using assms(1,2) finish_backend_login_silent [OF assms(3,4), of "fe_z env" v]
  by (cases "finish_backend_login (fe_z env) v s") (simp add: tcp_connect_def connect_and_forward_def Let_def)

text \<open>What the negotiation of the forwarding gives for a silent backend.\<close>

lemma dispatch_silent:
  assumes "wfate stream = []" "in_end stream = Silent" "handshake_address env cfg profile ip = Inr addr" "inb stream = []"
    and "bc_forwarding_mode cfg = VelocityModern"
  shows "\<exists>s. dispatch_forwarding env cfg profile ip v stream = (Some (Inl (case bc_forwarding_secret cfg of
             None \<Rightarrow>
               ConfigError (str ''Backend server at '' @ bc_address cfg @ str '':'' @ dec_nat (unat (bc_port cfg))
                 @ str '' requires '' @ [0x27] @ str ''forwarding_secret'' @ [0x27] @ str '' for velocity_modern forwarding'')
           | Some _ \<Rightarrow> BackendConnectionFailed (str ''Timeout waiting for backend forwarding response''))), s)"
  using assms(5) assms(2,4)
    read_packet_silent [of "stream\<lparr>outb := outb stream @ opening_frames cfg profile v addr\<rparr>" "fe_z env" DEFAULT_MAX_PACKET_SIZE]
  by (auto simp: dispatch_opening [OF assms(1,3), of v] failS_def bindS_def timeoutS_def split: option.split)

text \<open>A Velocity backend that sends its request, and nothing after it.\<close>

lemma dispatch_request_answered:
  assumes "wfate stream = []" "handshake_address env cfg profile ip = Inr addr"
    and "bc_forwarding_mode cfg = VelocityModern" "bc_forwarding_secret cfg = Some secret"
    and "inb stream = frame (login_plugin_request_encode req)" "wf_string (lpq_channel req)"
    and "wire_length (login_plugin_request_encode req) \<le> DEFAULT_MAX_PACKET_SIZE"
    and "lpq_channel req = VELOCITY_FORWARDING_CHANNEL"
    and "fe_hmac env secret (create_velocity_forwarding_payload profile ip) = Inr mac"
  shows "\<exists>out. dispatch_forwarding env cfg profile ip v stream = (Some (Inr ()), stream\<lparr>inb := [], outb := out\<rparr>)"
proof -
  let ?p = "login_plugin_request_encode req" and ?s = "stream\<lparr>outb := outb stream @ opening_frames cfg profile v addr\<rparr>"
  have rd: "read_packet (fe_z env) DEFAULT_MAX_PACKET_SIZE ?s = (Some (Inr ?p), ?s\<lparr>inb := []\<rparr>)"
    using assms(5) by (intro read_packet_frame [OF assms(7)]) (simp_all add: DEFAULT_MAX_PACKET_SIZE_def)
  have dec: "login_plugin_request_decode ?p = Inr req"
    using assms(6) by (intro login_plugin_request_codec.decode_encode) (simp add: wf_login_plugin_request_def)
  have id: "rp_id ?p = 0x04" by (rule login_plugin_request_codec.encode_id)
  have "answer_forwarding_request env secret profile ip ?p (?s\<lparr>inb := []\<rparr>) =
      (Some (Inr ()), ?s\<lparr>inb := [], outb := outb ?s @ frame (login_plugin_response_encode
          \<lparr>lpr_message_id = lpq_message_id req, lpr_successful = True,
           lpr_data = mac @ create_velocity_forwarding_payload profile ip\<rparr>)\<rparr>)"
    using assms(8,9) dec id assms(1)
    by (simp add: answer_forwarding_request_def bindS_def liftS_def write_packet_accepted
        create_velocity_response_data_def calculate_velocity_hmac_def Let_def bindE_def)
  with rd show ?thesis
    unfolding dispatch_opening [OF assms(1,2), of v] by (intro exI) (simp add: assms(3,4) bindS_def timeoutS_def)
qed

text \<open>C18. What \<^verbatim>\<open>connect\<close> does with a backend that accepts the connection and then says nothing. Without Velocity
  forwarding nothing bounds the wait for the answer to the login, and it waits for ever. With Velocity forwarding the
  wait for the forwarding request is cut off, and connecting fails; but a backend that sends that request and nothing else
  again makes it wait for ever. (\<^verbatim>\<open>docs/CONFIGURATION.md\<close> promises that a transfer to a backend that stalls during login
  is cancelled after 5 seconds.)\<close>

theorem silent_backend_blocks_connect:
  assumes "fe_connect env (bc_address cfg @ str '':'' @ dec_nat (unat (bc_port cfg))) = Some (Inr stream)"
    and "wfate stream = []" and "in_end stream = Silent"
    and "handshake_address env cfg profile ip = Inr addr"
  shows "(inb stream = [] \<longrightarrow>
      tcp_connect env name cfg profile ip v =
        (if bc_forwarding_mode cfg \<noteq> VelocityModern then None
         else Some (Inl (case bc_forwarding_secret cfg of
             None \<Rightarrow>
               ConfigError (str ''Backend server at '' @ bc_address cfg @ str '':'' @ dec_nat (unat (bc_port cfg))
                 @ str '' requires '' @ [0x27] @ str ''forwarding_secret'' @ [0x27] @ str '' for velocity_modern forwarding'')
           | Some _ \<Rightarrow> BackendConnectionFailed (str ''Timeout waiting for backend forwarding response'')))))
    \<and> (bc_forwarding_mode cfg = VelocityModern \<and> bc_forwarding_secret cfg = Some secret
         \<and> inb stream = frame (login_plugin_request_encode req) \<and> wf_string (lpq_channel req)
         \<and> wire_length (login_plugin_request_encode req) \<le> DEFAULT_MAX_PACKET_SIZE
         \<and> lpq_channel req = VELOCITY_FORWARDING_CHANNEL
         \<and> fe_hmac env secret (create_velocity_forwarding_payload profile ip) = Inr mac \<longrightarrow>
       tcp_connect env name cfg profile ip v = None)"
proof -
  have fails: "tcp_connect env name cfg profile ip v = Some (Inl e)"
    if "dispatch_forwarding env cfg profile ip v stream = (Some (Inl e), s)" for e s
    using that assms(1) by (simp add: tcp_connect_def connect_and_forward_def Let_def)
  have "tcp_connect env name cfg profile ip v = None" if "inb stream = []" "bc_forwarding_mode cfg \<noteq> VelocityModern"
  proof -
    have "dispatch_forwarding env cfg profile ip v stream =
        (Some (Inr ()), stream\<lparr>outb := outb stream @ opening_frames cfg profile v addr\<rparr>)"
      using that(2) by (simp add: dispatch_opening [OF assms(2,4)] returnS_def)
    from tcp_connect_waits [OF assms(1) this] that(1) assms(3) show ?thesis by simp
  qed
  moreover note dispatch_silent [OF assms(2-4), of v] fails
  moreover have "tcp_connect env name cfg profile ip v = None"
    if h: "bc_forwarding_mode cfg = VelocityModern" "bc_forwarding_secret cfg = Some secret"
      "inb stream = frame (login_plugin_request_encode req)" "wf_string (lpq_channel req)"
      "wire_length (login_plugin_request_encode req) \<le> DEFAULT_MAX_PACKET_SIZE"
      "lpq_channel req = VELOCITY_FORWARDING_CHANNEL"
      "fe_hmac env secret (create_velocity_forwarding_payload profile ip) = Inr mac"
    using dispatch_request_answered [OF assms(2,4) h, of v] tcp_connect_waits [OF assms(1)] assms(3) by auto
  ultimately show ?thesis
    by (cases "bc_forwarding_mode cfg = VelocityModern") auto
qed

theorem silent_backend_blocks_connect_witness:
  "let env = example_env\<lparr>fe_connect := (\<lambda>_. Some (Inr \<lparr>inb = [], in_end = Silent, outb = [], wfate = []\<rparr>))\<rparr>
   in tcp_connect env (str ''lobby'') (example_backend NoForwarding) example_profile (str ''1.2.3.4'') 765 = None
      \<and> tcp_connect env (str ''lobby'') (example_backend VelocityModern) example_profile (str ''1.2.3.4'') 765 =
          Some (Inl (BackendConnectionFailed (str ''Timeout waiting for backend forwarding response'')))"
proof -
  let ?c = "\<lparr>inb = [], in_end = Silent, outb = [], wfate = []\<rparr>"
  let ?env = "example_env\<lparr>fe_connect := (\<lambda>_. Some (Inr ?c))\<rparr>"
  have c: "fe_connect ?env t = Some (Inr ?c)" "wfate ?c = []" "in_end ?c = Silent" for t
    by simp_all
  have a: "handshake_address ?env (example_backend mode) example_profile (str ''1.2.3.4'') = Inr (str ''127.0.0.1'')"
    if "mode \<noteq> LegacyBungee" for mode
    using that by (cases mode) (simp_all add: handshake_address_def example_backend_def)
  from silent_backend_blocks_connect [OF c a [of NoForwarding], where name = "str ''lobby''" and v = 765]
    silent_backend_blocks_connect [OF c a [of VelocityModern], where name = "str ''lobby''" and v = 765]
  show ?thesis by (simp add: Let_def example_backend_def)
qed

end
