(* ===== verification/Play_Packets.thy ===== *)
theory Play_Packets
  imports Settings
begin

text \<open>
  The packets of the play state that \<^verbatim>\<open>src/src/routing/state_machine.rs\<close> reads and writes: chat commands, command
  suggestions and the respawn packet, with their identifiers per protocol version. A protocol version is an
  \<^verbatim>\<open>i32\<close>; the tests on it are comparisons of its signed value.
\<close>

definition SERVERBOUND_CHAT_COMMAND_PACKET_ID :: i32 where
  "SERVERBOUND_CHAT_COMMAND_PACKET_ID = 0x04"

definition RESPAWN_PACKET_ID :: i32 where
  "RESPAWN_PACKET_ID = 0x45"

definition KEEP_ATTRIBUTES :: u8 where
  "KEEP_ATTRIBUTES = 0x01"

definition KEEP_METADATA :: u8 where
  "KEEP_METADATA = 0x02"

section \<open>Chat commands\<close>

record chat_command =
  cc_command :: str

definition is_command_packet :: "i32 \<Rightarrow> i32 \<Rightarrow> bool" where
  "is_command_packet i v =
     (if 776 \<le> sint v then i = 0x07 \<or> i = 0x08 \<or> i = 0x09
      else if 768 \<le> sint v then i = 0x05 \<or> i = 0x06 \<or> i = 0x07
      else if 766 \<le> sint v then i = 0x04 \<or> i = 0x05 \<or> i = 0x06
      else i = 0x04 \<or> i = 0x05 \<or> i = 0x06 \<or> i = SERVERBOUND_CHAT_COMMAND_PACKET_ID)"

definition chat_command_decode_with_version :: "i32 \<Rightarrow> raw_packet \<Rightarrow> chat_command res" where
  "chat_command_decode_with_version v packet =
     (if \<not> is_command_packet (rp_id packet) v then Inl (InvalidPacketId (rp_id packet))
      else
        bindE (take_string (str ''unexpected EOF reading command string'') (str ''invalid UTF-8 in command'')
                 (payload packet)) (\<lambda>(command, cursor).
        Inr \<lparr>cc_command = command\<rparr>))"

definition chat_command_id :: "i32 \<Rightarrow> i32" where
  "chat_command_id v =
     (if 776 \<le> sint v then 0x07
      else if 768 \<le> sint v then 0x05
      else if 766 \<le> sint v then 0x04
      else SERVERBOUND_CHAT_COMMAND_PACKET_ID)"

definition chat_command_encode_with_version :: "i32 \<Rightarrow> chat_command \<Rightarrow> raw_packet" where
  "chat_command_encode_with_version v p = RawPacket (chat_command_id v) (put_prefixed (cc_command p))"

definition normalized_command :: "chat_command \<Rightarrow> str" where
  "normalized_command p =
     (if starts_with (cc_command p) (str ''/'') then cc_command p else str ''/'' @ cc_command p)"

section \<open>Command suggestions\<close>

record tab_complete_request =
  tcq_transaction_id :: i32
  tcq_text :: str

definition is_tab_complete_request :: "i32 \<Rightarrow> i32 \<Rightarrow> bool" where
  "is_tab_complete_request i v =
     (if 776 \<le> sint v then i = 0x0F
      else if 768 \<le> sint v then i = 0x0D \<or> i = 0x0F
      else if 766 \<le> sint v then i = 0x0B
      else if 764 \<le> sint v then i = 0x0A
      else i = 0x09 \<or> i = 0x08 \<or> i = 0x06 \<or> i = 0x05)"

definition tab_complete_request_decode :: "i32 \<Rightarrow> raw_packet \<Rightarrow> tab_complete_request res" where
  "tab_complete_request_decode v packet =
     (if \<not> is_tab_complete_request (rp_id packet) v then Inl (InvalidPacketId (rp_id packet))
      else
        bindE (decode_varint (payload packet)) (\<lambda>(transaction_id, cursor).
        bindE (take_string (str ''unexpected EOF reading tab complete request text'')
                 (str ''invalid UTF-8 in tab complete request text'') cursor) (\<lambda>(txt, cursor).
        Inr \<lparr>tcq_transaction_id = transaction_id, tcq_text = txt\<rparr>)))"

definition tab_complete_request_id :: "i32 \<Rightarrow> i32" where
  "tab_complete_request_id v =
     (if 776 \<le> sint v then 0x0F
      else if 768 \<le> sint v then 0x0D
      else if 766 \<le> sint v then 0x0B
      else if 764 \<le> sint v then 0x0A
      else 0x06)"

definition tab_complete_request_encode_with_version :: "i32 \<Rightarrow> tab_complete_request \<Rightarrow> raw_packet" where
  "tab_complete_request_encode_with_version v p =
     RawPacket (tab_complete_request_id v) (encode_varint (tcq_transaction_id p) @ put_prefixed (tcq_text p))"

record tab_complete_response =
  tcr_transaction_id :: i32
  tcr_start :: i32
  tcr_length :: i32
  tcr_matches :: "str list"

definition tab_complete_response_id :: "i32 \<Rightarrow> i32" where
  "tab_complete_response_id v = (if 776 \<le> sint v then 0x0F else if 764 \<le> sint v then 0x10 else 0x0F)"

definition put_match :: "str \<Rightarrow> bytes" where
  "put_match m = put_prefixed m @ [0x00]"

definition tab_complete_response_encode_with_version :: "i32 \<Rightarrow> tab_complete_response \<Rightarrow> raw_packet" where
  "tab_complete_response_encode_with_version v p =
     RawPacket (tab_complete_response_id v)
       (encode_varint (tcr_transaction_id p) @ encode_varint (tcr_start p) @ encode_varint (tcr_length p)
        @ encode_varint (usize_as_i32 (length (tcr_matches p))) @ concat (map put_match (tcr_matches p)))"

definition take_match :: "bytes \<Rightarrow> (str \<times> bytes) res" where
  "take_match cursor =
     bindE (take_string (str ''unexpected EOF reading match string'') (str ''invalid UTF-8 in match string'') cursor)
       (\<lambda>(m, cursor). Inr (m, drop 1 cursor))"

definition tab_complete_response_decode :: "i32 \<Rightarrow> raw_packet \<Rightarrow> tab_complete_response res" where
  "tab_complete_response_decode v packet =
     (if rp_id packet \<noteq> tab_complete_response_id v \<and> rp_id packet \<noteq> 0x0F \<and> rp_id packet \<noteq> 0x10
      then Inl (InvalidPacketId (rp_id packet))
      else
        bindE (decode_varint (payload packet)) (\<lambda>(transaction_id, cursor).
        bindE (decode_varint cursor) (\<lambda>(start, cursor).
        bindE (decode_varint cursor) (\<lambda>(len, cursor).
        bindE (decode_varint cursor) (\<lambda>(count, cursor).
        if \<not> (0 \<le> sint count \<and> sint count \<le> 4096)
        then Inl (Io InvalidData (str ''invalid suggestion match count''))
        else
        bindE (decode_n take_match (nat (sint count)) cursor) (\<lambda>(ms, cursor).
        Inr \<lparr>tcr_transaction_id = transaction_id, tcr_start = start, tcr_length = len, tcr_matches = ms\<rparr>))))))"

section \<open>Respawn\<close>

record respawn =
  rs_dimension_type :: str
  rs_dimension_name :: str
  rs_hashed_seed :: i64
  rs_gamemode :: u8
  rs_previous_gamemode :: i8
  rs_is_debug :: bool
  rs_is_flat :: bool
  rs_data_kept :: u8

definition respawn_default_reset :: respawn where
  "respawn_default_reset =
     \<lparr>rs_dimension_type = str ''minecraft:overworld'', rs_dimension_name = str ''minecraft:overworld'',
      rs_hashed_seed = 0, rs_gamemode = 0, rs_previous_gamemode = - 1, rs_is_debug = False, rs_is_flat = False,
      rs_data_kept = 0\<rparr>"

definition is_valid_respawn_id :: "i32 \<Rightarrow> bool" where
  "is_valid_respawn_id i =
     (i = 0x52 \<or> i = 0x51 \<or> i = 0x4C \<or> i = 0x4A \<or> i = 0x47 \<or> i = 0x45 \<or> i = 0x43 \<or> i = 0x3F \<or> i = 0x3E
      \<or> i = 0x3D \<or> i = 0x39 \<or> i = 0x35)"

definition respawn_id :: "i32 \<Rightarrow> i32" where
  "respawn_id v =
     (if 776 \<le> sint v then 0x52
      else if 768 \<le> sint v then 0x4C
      else if 766 \<le> sint v then 0x47
      else if 764 \<le> sint v then 0x45
      else if 762 \<le> sint v then 0x43
      else if sint v = 761 then 0x3F
      else if 759 \<le> sint v then 0x3E
      else if 755 \<le> sint v then 0x3D
      else if 751 \<le> sint v then 0x39
      else if 340 \<le> sint v then 0x35
      else RESPAWN_PACKET_ID)"

definition as_flag :: "u8 \<Rightarrow> bool" where
  "as_flag b \<longleftrightarrow> b \<noteq> 0"

text \<open>The optional death position: a dimension and eight bytes, skipped.\<close>

definition skip_death :: "bytes \<Rightarrow> bytes res" where
  "skip_death cursor =
     bindE (get_u8 (str ''EOF reading death option'') cursor) (\<lambda>(has_death, cursor).
     if has_death \<noteq> 0 then
       bindE (decode_varint cursor) (\<lambda>(death_dim_len, cursor).
       if sint death_dim_len < 0 \<or> length cursor < i32_as_usize death_dim_len + 8
       then Inl (Io UnexpectedEof (str ''EOF reading death pos''))
       else Inr (drop (i32_as_usize death_dim_len + 8) cursor))
     else Inr cursor)"

definition respawn_decode_modern :: "i32 \<Rightarrow> bytes \<Rightarrow> respawn res" where
  "respawn_decode_modern v cursor =
     bindE (decode_varint cursor) (\<lambda>(dimension_idx, cursor).
     bindE (take_string (str ''unexpected EOF reading dimension_name'') (str ''invalid UTF-8 in dimension_name'') cursor)
       (\<lambda>(dimension_name, cursor).
     bindE (get_i64 (str ''EOF reading hashed_seed'') cursor) (\<lambda>(hashed_seed, cursor).
     bindE (get_u8 (str ''EOF reading gamemode'') cursor) (\<lambda>(gamemode, cursor).
     bindE (get_u8 (str ''EOF reading previous_gamemode'') cursor) (\<lambda>(prev_u8, cursor).
     bindE (get_u8 (str ''EOF reading is_debug'') cursor) (\<lambda>(is_debug, cursor).
     bindE (get_u8 (str ''EOF reading is_flat'') cursor) (\<lambda>(is_flat, cursor).
     bindE (skip_death cursor) (\<lambda>cursor.
     bindE (decode_varint cursor) (\<lambda>(portal_cooldown, cursor).
     bindE (if 768 \<le> sint v then bindE (decode_varint cursor) (\<lambda>(sea_level, cursor). Inr cursor) else Inr cursor)
       (\<lambda>cursor.
     bindE (get_u8 (str ''EOF reading data_kept'') cursor) (\<lambda>(data_kept, cursor).
     Inr \<lparr>rs_dimension_type = dimension_name, rs_dimension_name = dimension_name, rs_hashed_seed = hashed_seed,
          rs_gamemode = gamemode, rs_previous_gamemode = (if prev_u8 = 255 then - 1 else prev_u8),
          rs_is_debug = as_flag is_debug, rs_is_flat = as_flag is_flat, rs_data_kept = data_kept\<rparr>)))))))))))"

definition respawn_decode_legacy :: "bytes \<Rightarrow> respawn res" where
  "respawn_decode_legacy cursor =
     bindE (take_string (str ''unexpected EOF reading dimension_type'') (str ''invalid UTF-8 in dimension_type'') cursor)
       (\<lambda>(dimension_type, cursor).
     bindE (take_string (str ''unexpected EOF reading dimension_name'') (str ''invalid UTF-8 in dimension_name'') cursor)
       (\<lambda>(dimension_name, cursor).
     bindE (get_i64 (str ''EOF reading hashed_seed'') cursor) (\<lambda>(hashed_seed, cursor).
     bindE (get_u8 (str ''EOF reading gamemode'') cursor) (\<lambda>(gamemode, cursor).
     bindE (get_u8 (str ''EOF reading previous_gamemode'') cursor) (\<lambda>(previous_gamemode, cursor).
     bindE (get_u8 (str ''EOF reading is_debug'') cursor) (\<lambda>(is_debug, cursor).
     bindE (get_u8 (str ''EOF reading is_flat'') cursor) (\<lambda>(is_flat, cursor).
     bindE (get_u8 (str ''EOF reading data_kept'') cursor) (\<lambda>(data_kept, cursor).
     Inr \<lparr>rs_dimension_type = dimension_type, rs_dimension_name = dimension_name, rs_hashed_seed = hashed_seed,
          rs_gamemode = gamemode, rs_previous_gamemode = previous_gamemode,
          rs_is_debug = as_flag is_debug, rs_is_flat = as_flag is_flat, rs_data_kept = data_kept\<rparr>))))))))"

definition respawn_decode_with_version :: "i32 \<Rightarrow> raw_packet \<Rightarrow> respawn res" where
  "respawn_decode_with_version v packet =
     (if rp_id packet \<noteq> respawn_id v \<and> \<not> is_valid_respawn_id (rp_id packet)
      then Inl (InvalidPacketId (rp_id packet))
      else if 766 \<le> sint v then respawn_decode_modern v (payload packet)
      else respawn_decode_legacy (payload packet))"

definition respawn_encode_with_version :: "i32 \<Rightarrow> respawn \<Rightarrow> raw_packet" where
  "respawn_encode_with_version v p =
     RawPacket (respawn_id v)
       (if 766 \<le> sint v then
          encode_varint 0 @ put_prefixed (rs_dimension_name p) @ put_i64 (rs_hashed_seed p)
          @ [rs_gamemode p, if sint (rs_previous_gamemode p) < 0 then 255 else rs_previous_gamemode p]
          @ put_bool (rs_is_debug p) @ put_bool (rs_is_flat p) @ [0] @ encode_varint 0
          @ (if 768 \<le> sint v then encode_varint 63 else [])
          @ [rs_data_kept p]
        else
          put_prefixed (rs_dimension_type p) @ put_prefixed (rs_dimension_name p) @ put_i64 (rs_hashed_seed p)
          @ [rs_gamemode p, rs_previous_gamemode p] @ put_bool (rs_is_debug p) @ put_bool (rs_is_flat p)
          @ [rs_data_kept p] @ [0] @ encode_varint 0)"

section \<open>Join game\<close>

definition is_login_play_packet :: "i32 \<Rightarrow> i32 \<Rightarrow> bool" where
  "is_login_play_packet i v =
     (if 776 \<le> sint v then i = 0x31
      else if 768 \<le> sint v then i = 0x2C
      else if 766 \<le> sint v then i = 0x2B
      else if 764 \<le> sint v then i = 0x29
      else if 762 \<le> sint v then i = 0x28
      else if sint v = 761 then i = 0x24
      else if 759 \<le> sint v then i = 0x25
      else if 755 \<le> sint v then i = 0x26
      else if 735 \<le> sint v then i = 0x24
      else if 573 \<le> sint v then i = 0x26
      else if 393 \<le> sint v then i = 0x25
      else i = 0x23)"

text \<open>Moving the cursor without looking, as the extraction does: \<open>None\<close> when there is too little.\<close>

definition skip :: "nat \<Rightarrow> bytes \<Rightarrow> bytes option" where
  "skip n cursor = (if length cursor < n then None else Some (drop n cursor))"

definition skip_varint :: "bytes \<Rightarrow> bytes option" where
  "skip_varint cursor = map_option snd (ok (decode_varint cursor))"

definition skip_string :: "bytes \<Rightarrow> bytes option" where
  "skip_string cursor = map_option snd (ok (take_prefixed [] cursor))"

text \<open>Fields 1 to 9 of the join game packet, common to the two layouts.\<close>

definition skip_login_head :: "bytes \<Rightarrow> bytes option" where
  "skip_login_head cursor =
     Option.bind (skip 4 cursor) (\<lambda>cursor.
     Option.bind (skip 1 cursor) (\<lambda>cursor.
     Option.bind (ok (decode_varint cursor)) (\<lambda>(dim_count, cursor).
     if \<not> (0 \<le> sint dim_count \<and> sint dim_count \<le> 1024) then None
     else
     Option.bind (ok (decode_n (take_prefixed []) (nat (sint dim_count)) cursor)) (\<lambda>(names, cursor).
     Option.bind (skip_varint cursor) (\<lambda>cursor.
     Option.bind (skip_varint cursor) (\<lambda>cursor.
     Option.bind (skip_varint cursor) (\<lambda>cursor.
     Option.bind (skip 1 cursor) (\<lambda>cursor.
     Option.bind (skip 1 cursor) (\<lambda>cursor.
     skip 1 cursor)))))))))"

definition skip_spawn_info :: "i32 \<Rightarrow> bytes \<Rightarrow> bytes option" where
  "skip_spawn_info v cursor =
     Option.bind (skip_varint cursor) (\<lambda>cursor.
     Option.bind (skip_string cursor) (\<lambda>cursor.
     Option.bind (skip 8 cursor) (\<lambda>cursor.
     Option.bind (skip 1 cursor) (\<lambda>cursor.
     Option.bind (skip 1 cursor) (\<lambda>cursor.
     Option.bind (skip 1 cursor) (\<lambda>cursor.
     Option.bind (skip 1 cursor) (\<lambda>cursor.
     Option.bind (ok (skip_death cursor)) (\<lambda>cursor.
     Option.bind (skip_varint cursor) (\<lambda>cursor.
     if 768 \<le> sint v then skip_varint cursor else Some cursor)))))))))"

definition extract_respawn_modern :: "raw_packet \<Rightarrow> i32 \<Rightarrow> u8 \<Rightarrow> raw_packet option" where
  "extract_respawn_modern login_pkt v data_to_keep =
     Option.bind (skip_login_head (payload login_pkt)) (\<lambda>start.
     Option.bind (skip_spawn_info v start) (\<lambda>stop.
     let spawn_info = take (length start - length stop) start in
     Some (RawPacket (respawn_id v) (spawn_info @ [data_to_keep]))))"

definition extract_respawn_764 :: "raw_packet \<Rightarrow> i32 \<Rightarrow> u8 \<Rightarrow> raw_packet option" where
  "extract_respawn_764 login_pkt v data_to_keep =
     Option.bind (skip_login_head (payload login_pkt)) (\<lambda>cursor.
     Option.bind (ok (take_string [] [] cursor)) (\<lambda>(dimension_type, cursor).
     Option.bind (ok (take_string [] [] cursor)) (\<lambda>(dimension_name, cursor).
     Option.bind (ok (get_i64 [] cursor)) (\<lambda>(hashed_seed, cursor).
     Option.bind (ok (get_u8 [] cursor)) (\<lambda>(gamemode, cursor).
     Option.bind (ok (get_u8 [] cursor)) (\<lambda>(previous_gamemode, cursor).
     Option.bind (ok (get_u8 [] cursor)) (\<lambda>(is_debug, cursor).
     Option.bind (ok (get_u8 [] cursor)) (\<lambda>(is_flat, cursor).
     Some (respawn_encode_with_version v
       \<lparr>rs_dimension_type = dimension_type, rs_dimension_name = dimension_name, rs_hashed_seed = hashed_seed,
        rs_gamemode = gamemode, rs_previous_gamemode = previous_gamemode,
        rs_is_debug = as_flag is_debug, rs_is_flat = as_flag is_flat, rs_data_kept = data_to_keep\<rparr>)))))))))"

definition extract_respawn_from_login_with_data_kept :: "raw_packet \<Rightarrow> i32 \<Rightarrow> u8 \<Rightarrow> raw_packet option" where
  "extract_respawn_from_login_with_data_kept login_pkt v data_to_keep =
     (if 766 \<le> sint v then extract_respawn_modern login_pkt v data_to_keep
      else if 764 \<le> sint v then extract_respawn_764 login_pkt v data_to_keep
      else Some (respawn_encode_with_version v (respawn_default_reset\<lparr>rs_data_kept := data_to_keep\<rparr>)))"

definition extract_respawn_from_login :: "raw_packet \<Rightarrow> i32 \<Rightarrow> raw_packet option" where
  "extract_respawn_from_login login_pkt v = extract_respawn_from_login_with_data_kept login_pkt v 0"

section \<open>Contracts\<close>

lemma chat_command_id_accepted: "is_command_packet (chat_command_id v) v"
  by (simp add: is_command_packet_def chat_command_id_def SERVERBOUND_CHAT_COMMAND_PACKET_ID_def)

interpretation chat_command_codec:
  packet_family "chat_command_encode_with_version v" "chat_command_decode_with_version v"
    "\<lambda>i. is_command_packet i v" "\<lambda>p. wf_string (cc_command p)"
  by unfold_locales (auto simp: chat_command_encode_with_version_def chat_command_decode_with_version_def
      chat_command_id_accepted codec_simps)

lemma tab_complete_request_id_accepted: "is_tab_complete_request (tab_complete_request_id v) v"
  by (simp add: is_tab_complete_request_def tab_complete_request_id_def)

interpretation tab_complete_request_codec:
  packet_family "tab_complete_request_encode_with_version v" "tab_complete_request_decode v"
    "\<lambda>i. is_tab_complete_request i v" "\<lambda>p. wf_string (tcq_text p)"
  by unfold_locales (auto simp: tab_complete_request_encode_with_version_def tab_complete_request_decode_def
      tab_complete_request_id_accepted codec_simps)

lemma take_match_put [codec_simps]: "wf_string m \<Longrightarrow> take_match (put_match m @ rest) = Inr (m, rest)"
  by (simp add: take_match_def put_match_def codec_simps)

lemma take_match_progress: "take_match buf = Inr (m, rest) \<Longrightarrow> length rest < length buf"
  by (auto simp: take_match_def bindE_eq_Inr_iff dest!: take_string_progress)

interpretation match_field: progress_codec put_match take_match wf_string
  by unfold_locales (auto simp: codec_simps dest: take_match_progress)

definition wf_tab_complete_response :: "tab_complete_response \<Rightarrow> bool" where
  "wf_tab_complete_response p \<longleftrightarrow> length (tcr_matches p) \<le> 4096 \<and> list_all wf_string (tcr_matches p)"

interpretation tab_complete_response_codec:
  packet_family "tab_complete_response_encode_with_version v" "tab_complete_response_decode v"
    "\<lambda>i. i = tab_complete_response_id v \<or> i = 0x0F \<or> i = 0x10" wf_tab_complete_response
proof
  fix x
  assume "wf_tab_complete_response x"
  then show "tab_complete_response_decode v (tab_complete_response_encode_with_version v x) = Inr x"
    using match_field.dec_enc_list [of "tcr_matches x" "[]"]
    by (simp add: tab_complete_response_encode_with_version_def tab_complete_response_decode_def
        wf_tab_complete_response_def codec_simps cast_simps list_all_iff)
qed (auto simp: tab_complete_response_encode_with_version_def tab_complete_response_decode_def)

section \<open>Respawn round trip\<close>

text \<open>The values a version carries: from 766 on the dimension type is not transmitted and a negative previous
  game mode becomes -1.\<close>

definition wf_respawn :: "i32 \<Rightarrow> respawn \<Rightarrow> bool" where
  "wf_respawn v p \<longleftrightarrow> wf_string (rs_dimension_type p) \<and> wf_string (rs_dimension_name p)
     \<and> (766 \<le> sint v \<longrightarrow> rs_dimension_type p = rs_dimension_name p
          \<and> (sint (rs_previous_gamemode p) < 0 \<longrightarrow> rs_previous_gamemode p = - 1))"

lemma as_flag_put [codec_simps]: "as_flag (if b then 1 else 0) = b"
  by (simp add: as_flag_def)

lemma skip_death_none [codec_simps]: "skip_death (0 # rest) = Inr rest"
  by (simp add: skip_death_def)

lemma respawn_id_listed: "respawn_id v = p \<or> is_valid_respawn_id p \<Longrightarrow> \<not> (p \<noteq> respawn_id v \<and> \<not> is_valid_respawn_id p)"
  by auto

lemma u8_255: "(255 :: u8) = - 1"
  by simp

lemma previous_gamemode_roundtrip:
  "(sint (g :: i8) < 0 \<longrightarrow> g = - 1) \<Longrightarrow> (let b = (if sint g < 0 then 255 else g) in if b = 255 then - 1 else b) = g"
  by (auto simp: Let_def u8_255)

interpretation respawn_codec:
  packet_family "respawn_encode_with_version v" "respawn_decode_with_version v"
    "\<lambda>i. i = respawn_id v \<or> is_valid_respawn_id i" "wf_respawn v"
proof
  fix x
  assume wf: "wf_respawn v x"
  show "respawn_decode_with_version v (respawn_encode_with_version v x) = Inr x"
  proof (cases "766 \<le> sint v")
    case True
    with wf previous_gamemode_roundtrip [of "rs_previous_gamemode x"] show ?thesis
      by (simp add: respawn_encode_with_version_def respawn_decode_with_version_def respawn_decode_modern_def
          wf_respawn_def codec_simps Let_def)
  next
    case False
    with wf show ?thesis
      by (simp add: respawn_encode_with_version_def respawn_decode_with_version_def respawn_decode_legacy_def
          wf_respawn_def codec_simps)
  qed
qed (auto simp: respawn_encode_with_version_def respawn_decode_with_version_def)

section \<open>The respawn packet cut out of a join game packet\<close>

text \<open>The layout of the join game packet as the comment above \<^verbatim>\<open>extract_respawn_from_login_with_data_kept\<close> gives it:
  its head, the spawn information, and fields behind it that differ between versions. Up to version 765 the dimension type
  is its name, from 766 on a number.\<close>

record login_head =
  lh_entity_id :: i32
  lh_is_hardcore :: u8
  lh_dimension_names :: "str list"
  lh_max_players :: i32
  lh_view_distance :: i32
  lh_simulation_distance :: i32
  lh_flags :: "u8 \<times> u8 \<times> u8"

record spawn_info =
  si_dimension :: i32
  si_dimension_type :: str
  si_dimension_name :: str
  si_hashed_seed :: i64
  si_gamemode :: u8
  si_previous_gamemode :: u8
  si_is_debug :: u8
  si_is_flat :: u8
  si_death :: "(str \<times> i64) option"
  si_portal_cooldown :: i32
  si_sea_level :: i32

definition put_login_head :: "login_head \<Rightarrow> bytes" where
  "put_login_head h =
     put_i32 (lh_entity_id h) @ [lh_is_hardcore h]
     @ encode_varint (usize_as_i32 (length (lh_dimension_names h))) @ concat (map put_prefixed (lh_dimension_names h))
     @ encode_varint (lh_max_players h) @ encode_varint (lh_view_distance h) @ encode_varint (lh_simulation_distance h)
     @ (case lh_flags h of (a, b, c) \<Rightarrow> [a, b, c])"

definition put_spawn_info :: "i32 \<Rightarrow> spawn_info \<Rightarrow> bytes" where
  "put_spawn_info v s =
     (if 766 \<le> sint v then encode_varint (si_dimension s) else put_prefixed (si_dimension_type s))
     @ put_prefixed (si_dimension_name s) @ put_i64 (si_hashed_seed s)
     @ [si_gamemode s, si_previous_gamemode s, si_is_debug s, si_is_flat s]
     @ (case si_death s of None \<Rightarrow> [0] | Some (dim, pos) \<Rightarrow> 1 # put_prefixed dim @ put_i64 pos)
     @ encode_varint (si_portal_cooldown s)
     @ (if 768 \<le> sint v then encode_varint (si_sea_level s) else [])"

definition wf_login_head :: "login_head \<Rightarrow> bool" where
  "wf_login_head h \<longleftrightarrow> length (lh_dimension_names h) \<le> 1024 \<and> list_all fits_i32 (lh_dimension_names h)"

definition wf_spawn_info :: "spawn_info \<Rightarrow> bool" where
  "wf_spawn_info s \<longleftrightarrow> wf_string (si_dimension_type s) \<and> wf_string (si_dimension_name s)
     \<and> (case si_death s of None \<Rightarrow> True | Some (dim, pos) \<Rightarrow> fits_i32 dim)"

lemma length_put_i32 [simp]: "length (put_i32 v) = 4"
  by (simp add: put_i32_def)

lemma length_put_i64 [simp]: "length (put_i64 v) = 8"
  by (simp add: put_i64_def)

lemma skip_append [codec_simps]: "length a = n \<Longrightarrow> skip n (a @ rest) = Some rest"
  by (auto simp: skip_def)

lemma skip_Cons [codec_simps]: "skip 1 (b # rest) = Some rest" "skip (Suc 0) (b # rest) = Some rest"
  by (simp_all add: skip_def)

lemma skip_varint_put [codec_simps]: "skip_varint (encode_varint v @ rest) = Some rest"
  by (simp add: skip_varint_def codec_simps)

lemma skip_string_put [codec_simps]: "fits_i32 s \<Longrightarrow> skip_string (put_prefixed s @ rest) = Some rest"
  by (simp add: skip_string_def codec_simps)

lemma skip_death_some [codec_simps]:
  "fits_i32 dim \<Longrightarrow> skip_death (1 # put_prefixed dim @ put_i64 pos @ rest) = Inr rest"
  by (simp add: skip_death_def put_prefixed_def fits_i32_def codec_simps cast_simps)

lemma skip_death_put:
  "(case d of None \<Rightarrow> True | Some (dim, pos) \<Rightarrow> fits_i32 dim) \<Longrightarrow>
   skip_death ((case d of None \<Rightarrow> [0] | Some (dim, pos) \<Rightarrow> 1 # put_prefixed dim @ put_i64 pos) @ rest) = Inr rest"
  by (auto simp: codec_simps split: option.splits)

lemma skip_login_head_put [codec_simps]:
  assumes "wf_login_head h"
  shows "skip_login_head (put_login_head h @ rest) = Some rest"
proof -
  obtain a b c where f: "lh_flags h = (a, b, c)" by (cases "lh_flags h")
  have "length (lh_dimension_names h) < 2 ^ 31"
    using assms by (simp add: wf_login_head_def)
  then show ?thesis
    using assms f prefixed_field.dec_enc_list [of "lh_dimension_names h" "[]"]
    by (simp add: skip_login_head_def put_login_head_def wf_login_head_def codec_simps cast_simps list_all_iff
        prefixed_field.dec_enc_list)
qed

lemma skip_spawn_info_put [codec_simps]:
  "wf_spawn_info s \<Longrightarrow> 766 \<le> sint v \<Longrightarrow> skip_spawn_info v (put_spawn_info v s @ rest) = Some rest"
  by (simp add: skip_spawn_info_def put_spawn_info_def wf_spawn_info_def wf_string_def codec_simps skip_death_put)

lemma extract_respawn_modern_put:
  assumes "wf_login_head h" "wf_spawn_info s" "766 \<le> sint v"
  shows "extract_respawn_from_login_with_data_kept (RawPacket i (put_login_head h @ put_spawn_info v s @ rest)) v keep =
    Some (RawPacket (respawn_id v) (put_spawn_info v s @ [keep]))"
  using assms by (simp add: extract_respawn_from_login_with_data_kept_def extract_respawn_modern_def codec_simps Let_def)

text \<open>The respawn that stands for a spawn information.\<close>

definition spawn_respawn :: "i32 \<Rightarrow> spawn_info \<Rightarrow> u8 \<Rightarrow> respawn" where
  "spawn_respawn v s keep =
     \<lparr>rs_dimension_type = (if 766 \<le> sint v then si_dimension_name s else si_dimension_type s),
      rs_dimension_name = si_dimension_name s, rs_hashed_seed = si_hashed_seed s, rs_gamemode = si_gamemode s,
      rs_previous_gamemode = si_previous_gamemode s,
      rs_is_debug = as_flag (si_is_debug s), rs_is_flat = as_flag (si_is_flat s), rs_data_kept = keep\<rparr>"

lemma respawn_decode_spawn_info:
  assumes "wf_spawn_info s" "766 \<le> sint v"
  shows "respawn_decode_with_version v (RawPacket (respawn_id v) (put_spawn_info v s @ [keep])) =
    Inr (spawn_respawn v s keep)"
  using assms
  by (simp add: respawn_decode_with_version_def respawn_decode_modern_def put_spawn_info_def wf_spawn_info_def
      spawn_respawn_def u8_255 codec_simps skip_death_put)

lemma extract_respawn_764_put:
  assumes "wf_login_head h" "wf_spawn_info s" "764 \<le> sint v" "sint v < 766"
  shows "extract_respawn_from_login_with_data_kept (RawPacket i (put_login_head h @ put_spawn_info v s @ rest)) v keep =
    Some (respawn_encode_with_version v (spawn_respawn v s keep))"
  using assms
  by (simp add: extract_respawn_from_login_with_data_kept_def extract_respawn_764_def put_spawn_info_def wf_spawn_info_def
      spawn_respawn_def codec_simps)

lemma wf_default_reset: "wf_respawn v (respawn_default_reset\<lparr>rs_data_kept := keep\<rparr>)"
proof -
  have "wf_string (str ''minecraft:overworld'')"
    by (simp add: wf_string_def fits_i32_def str_def utf8_first_def of_char_def)
  then show ?thesis by (simp add: wf_respawn_def respawn_default_reset_def)
qed

section \<open>Properties\<close>

text \<open>C35. The respawn packet made from a backend's join game packet, for every protocol version. From 764 on a client that
  decodes it finds the dimension, seed and game modes of the join game packet and the flags of the data to keep; from
  766 on its payload is exactly the bytes of the spawn information, whatever follows them. Below 764 the join
  game packet is not read: the client is sent the constant respawn into the overworld.\<close>

theorem respawn_from_login_is_exact:
  assumes "wf_login_head h" and "wf_spawn_info s"
  shows "\<exists>r. extract_respawn_from_login_with_data_kept (RawPacket i (put_login_head h @ put_spawn_info v s @ rest)) v keep =
      Some r
    \<and> rp_id r = respawn_id v
    \<and> (766 \<le> sint v \<longrightarrow> payload r = put_spawn_info v s @ [keep])
    \<and> respawn_decode_with_version v r =
      Inr (if 764 \<le> sint v
           then \<lparr>rs_dimension_type = (if 766 \<le> sint v then si_dimension_name s else si_dimension_type s),
                 rs_dimension_name = si_dimension_name s,
                 rs_hashed_seed = si_hashed_seed s, rs_gamemode = si_gamemode s,
                 rs_previous_gamemode = si_previous_gamemode s,
                 rs_is_debug = as_flag (si_is_debug s), rs_is_flat = as_flag (si_is_flat s), rs_data_kept = keep\<rparr>
           else respawn_default_reset\<lparr>rs_data_kept := keep\<rparr>)"
proof (cases "766 \<le> sint v")
  case True
  with extract_respawn_modern_put [OF assms True, of i rest keep] respawn_decode_spawn_info [OF assms(2) True, of keep]
  show ?thesis by (simp add: spawn_respawn_def)
next
  case False
  have id: "rp_id (respawn_encode_with_version v p) = respawn_id v" for p
    by (simp add: respawn_encode_with_version_def)
  show ?thesis
  proof (cases "764 \<le> sint v")
    case True
    with False assms(2) have "wf_respawn v (spawn_respawn v s keep)"
      by (simp add: wf_respawn_def spawn_respawn_def wf_spawn_info_def)
    from respawn_codec.decode_encode [OF this] extract_respawn_764_put [OF assms True, of i rest keep] id True False
    show ?thesis by (simp add: spawn_respawn_def)
  next
    case old: False
    with respawn_codec.decode_encode [OF wf_default_reset, of v keep] False id show ?thesis
      by (simp add: extract_respawn_from_login_with_data_kept_def)
  qed
qed

theorem respawn_from_login_is_exact_witness:
  "let h = \<lparr>lh_entity_id = 1, lh_is_hardcore = 0, lh_dimension_names = [str ''a''], lh_max_players = 20,
           lh_view_distance = 10, lh_simulation_distance = 10, lh_flags = (0, 1, 0)\<rparr>;
       s = \<lparr>si_dimension = 0, si_dimension_type = str ''t'', si_dimension_name = str ''a'', si_hashed_seed = 7, si_gamemode = 1,
           si_previous_gamemode = 255, si_is_debug = 0, si_is_flat = 1, si_death = Some (str ''a'', 3),
           si_portal_cooldown = 0, si_sea_level = 63\<rparr>
   in (\<exists>r. extract_respawn_from_login_with_data_kept
            (RawPacket 0x2C (put_login_head h @ put_spawn_info 768 s @ [1])) 768 0 = Some r
        \<and> payload r = put_spawn_info 768 s @ [0])
      \<and> (\<exists>r d. extract_respawn_from_login_with_data_kept
            (RawPacket 0x29 (put_login_head h @ put_spawn_info 764 s @ [1])) 764 0 = Some r
        \<and> respawn_decode_with_version 764 r = Inr d \<and> rs_dimension_type d = str ''t'' \<and> rs_hashed_seed d = 7)"
proof -
  let ?h = "\<lparr>lh_entity_id = 1, lh_is_hardcore = 0, lh_dimension_names = [str ''a''], lh_max_players = 20,
           lh_view_distance = 10, lh_simulation_distance = 10, lh_flags = (0, 1, 0)\<rparr>"
  let ?s = "\<lparr>si_dimension = 0, si_dimension_type = str ''t'', si_dimension_name = str ''a'', si_hashed_seed = 7, si_gamemode = 1,
           si_previous_gamemode = 255, si_is_debug = 0, si_is_flat = 1, si_death = Some (str ''a'', 3),
           si_portal_cooldown = 0, si_sea_level = 63\<rparr>"
  have w: "wf_login_head ?h" "wf_spawn_info ?s"
    by (simp_all add: wf_login_head_def wf_spawn_info_def wf_string_def fits_i32_def str_def utf8_first_def of_char_def)
  from respawn_from_login_is_exact [OF w, of "0x2C" 768 "[1]" 0] respawn_from_login_is_exact [OF w, of "0x29" 764 "[1]" 0]
  show ?thesis
    unfolding Let_def by (intro conjI) auto
qed

text \<open>C36. The packet types of the play state that the proxy both writes and reads (commands, suggestion requests and
  responses, respawn) are read back from their own encoding under the same protocol version, for every
  version.\<close>

theorem play_packets_roundtrip:
  "(wf_string (cc_command c) \<longrightarrow>
      chat_command_decode_with_version v (chat_command_encode_with_version v c) = Inr c)
   \<and> (wf_string (tcq_text q) \<longrightarrow>
      tab_complete_request_decode v (tab_complete_request_encode_with_version v q) = Inr q)
   \<and> (wf_tab_complete_response r \<longrightarrow>
      tab_complete_response_decode v (tab_complete_response_encode_with_version v r) = Inr r)
   \<and> (wf_respawn v s \<longrightarrow> respawn_decode_with_version v (respawn_encode_with_version v s) = Inr s)"
  using chat_command_codec.decode_encode tab_complete_request_codec.decode_encode
    tab_complete_response_codec.decode_encode respawn_codec.decode_encode by blast

theorem play_packets_roundtrip_witness:
  "chat_command_decode_with_version 765 (chat_command_encode_with_version 765 \<lparr>cc_command = str ''hub''\<rparr>)
     = Inr \<lparr>cc_command = str ''hub''\<rparr>
   \<and> respawn_decode_with_version 776 (respawn_encode_with_version 776 respawn_default_reset) = Inr respawn_default_reset"
proof -
  have "wf_string (str ''hub'')" "wf_string (str ''minecraft:overworld'')"
    by (simp_all add: wf_string_def fits_i32_def str_def utf8_first_def of_char_def)
  then have "wf_string (cc_command \<lparr>cc_command = str ''hub''\<rparr>)" "wf_respawn 776 respawn_default_reset"
    by (simp_all add: wf_respawn_def respawn_default_reset_def)
  with play_packets_roundtrip [of "\<lparr>cc_command = str ''hub''\<rparr>" 765]
    play_packets_roundtrip [of _ 776 _ _ respawn_default_reset] show ?thesis by blast
qed

end
