(* ===== verification/Screen_Packets.thy ===== *)
theory Screen_Packets
  imports Play_Packets
begin

text \<open>
  The packets of \<^verbatim>\<open>src/src/routing/state_machine.rs\<close> that show something to the player: chat lines, windows, sounds,
  boss bars and scoreboards. The proxy sends them to clear the screen before a player changes servers
  and reads them to know what there is to clear. JSON texts (\<^verbatim>\<open>serde_json\<close>) are the parameters \<open>json_text\<close> (printing)
  and \<open>json_get_text\<close> (parsing, then the string under \<^verbatim>\<open>text\<close>, if there is one).
\<close>

unbundle bit_operations_syntax

definition SYSTEM_CHAT_MESSAGE_PACKET_ID :: i32 where "SYSTEM_CHAT_MESSAGE_PACKET_ID = 0x69"
definition CLOSE_CONTAINER_PACKET_ID :: i32 where "CLOSE_CONTAINER_PACKET_ID = 0x12"
definition STOP_SOUND_PACKET_ID :: i32 where "STOP_SOUND_PACKET_ID = 0x66"
definition BOSS_BAR_PACKET_ID :: i32 where "BOSS_BAR_PACKET_ID = 0x0A"
definition SCOREBOARD_OBJECTIVE_PACKET_ID :: i32 where "SCOREBOARD_OBJECTIVE_PACKET_ID = 0x5A"
definition DISPLAY_OBJECTIVE_PACKET_ID :: i32 where "DISPLAY_OBJECTIVE_PACKET_ID = 0x53"

section \<open>System chat\<close>

record system_chat =
  sc_message :: str
  sc_overlay :: bool

definition is_valid_system_chat_id :: "i32 \<Rightarrow> bool" where
  "is_valid_system_chat_id i =
     (i = 0x79 \<or> i = 0x78 \<or> i = 0x73 \<or> i = 0x70 \<or> i = 0x6C \<or> i = 0x67 \<or> i = 0x64 \<or> i = 0x60 \<or> i = 0x5F
      \<or> i = 0x69)"

definition system_chat_id :: "i32 \<Rightarrow> i32" where
  "system_chat_id v =
     (if 776 \<le> sint v then 0x79
      else if 768 \<le> sint v then 0x73
      else if 766 \<le> sint v then 0x6C
      else if 764 \<le> sint v then SYSTEM_CHAT_MESSAGE_PACKET_ID
      else if sint v = 763 then 0x67
      else if sint v = 762 then 0x64
      else if sint v = 761 then 0x60
      else if 759 \<le> sint v then 0x5F
      else SYSTEM_CHAT_MESSAGE_PACKET_ID)"

definition system_chat_encode_with_version :: "(str \<Rightarrow> str) \<Rightarrow> i32 \<Rightarrow> system_chat \<Rightarrow> raw_packet" where
  "system_chat_encode_with_version json_text v p =
     RawPacket (system_chat_id v)
       (if 766 \<le> sint v then
          [0x0A, 0x08] @ put_u16 4 @ str ''text'' @ put_u16 (usize_as_u16 (length (sc_message p))) @ sc_message p
          @ [0x00] @ put_bool (sc_overlay p)
        else put_prefixed (json_text (sc_message p)) @ put_bool (sc_overlay p))"

text \<open>The loop over the tags of the NBT compound: the cursor where it stops, and the last string named \<^verbatim>\<open>text\<close>.\<close>

function nbt_loop :: "str \<Rightarrow> bytes \<Rightarrow> str \<times> bytes" where
  "nbt_loop message [] = (message, [])"
| "nbt_loop message (tag_type # cursor) =
     (if tag_type = 0x00 then (message, cursor)
      else
        (case get_u16 [] cursor of
           Inl _ \<Rightarrow> (message, cursor)
         | Inr (key_len, cursor) \<Rightarrow>
             if length cursor < unat key_len then (message, cursor)
             else
               (let key = (if utf8_valid (take (unat key_len) cursor) then take (unat key_len) cursor else []);
                    cursor = drop (unat key_len) cursor
                in if tag_type = 0x08 then
                     (case get_u16 [] cursor of
                        Inl _ \<Rightarrow> (message, cursor)
                      | Inr (str_len, cursor) \<Rightarrow>
                          if length cursor < unat str_len then (message, cursor)
                          else
                            (let val = (if utf8_valid (take (unat str_len) cursor) then take (unat str_len) cursor else [])
                             in nbt_loop (if key = str ''text'' then val else message) (drop (unat str_len) cursor)))
                   else nbt_loop message cursor)))"
  by pat_completeness auto
termination
proof (relation "measure (\<lambda>(m, c). length c)", goal_cases)
  case 1
  then show ?case by simp
next
  case (2 m t c x kl c1 key c2 y sl c3 val)
  then show ?case using get_u16_progress [of "[]" c kl c1] get_u16_progress [of "[]" c2 sl c3] by auto
next
  case (3 m t c x kl c1 key c2)
  then show ?case using get_u16_progress [of "[]" c kl c1] by auto
qed

definition last_flag :: "bytes \<Rightarrow> bool" where
  "last_flag cursor = (case cursor of b # _ \<Rightarrow> b \<noteq> 0 | [] \<Rightarrow> False)"

definition system_chat_decode_with_version ::
  "(str \<Rightarrow> str + str option) \<Rightarrow> i32 \<Rightarrow> raw_packet \<Rightarrow> system_chat res" where
  "system_chat_decode_with_version json_get_text v packet =
     (if rp_id packet \<noteq> system_chat_id v \<and> \<not> is_valid_system_chat_id (rp_id packet)
      then Inl (InvalidPacketId (rp_id packet))
      else
        (case payload packet of
           [] \<Rightarrow> Inl (Io UnexpectedEof (str ''empty system chat message payload''))
         | first # rest \<Rightarrow>
             if first = 0x0A then
               (let (message, cursor) = nbt_loop [] rest in
                Inr \<lparr>sc_message = message, sc_overlay = last_flag cursor\<rparr>)
             else
               bindE (take_string (str ''unexpected EOF reading system chat message JSON'')
                        (str ''invalid UTF-8 in message JSON'') (payload packet)) (\<lambda>(json_str, cursor).
               case json_get_text json_str of
                 Inl e \<Rightarrow> Inl (Io InvalidData e)
               | Inr txt \<Rightarrow>
                   Inr \<lparr>sc_message = (case txt of Some t \<Rightarrow> t | None \<Rightarrow> json_str), sc_overlay = last_flag cursor\<rparr>)))"

section \<open>Windows and sounds\<close>

record close_container =
  clc_window_id :: u8

definition close_container_id :: "i32 \<Rightarrow> i32" where
  "close_container_id v =
     (if 776 \<le> sint v then 0x11
      else if 764 \<le> sint v then CLOSE_CONTAINER_PACKET_ID
      else if 762 \<le> sint v then 0x11
      else if sint v = 761 then 0x0F
      else if 759 \<le> sint v then 0x10
      else CLOSE_CONTAINER_PACKET_ID)"

definition close_container_encode_with_version :: "i32 \<Rightarrow> close_container \<Rightarrow> raw_packet" where
  "close_container_encode_with_version v p = RawPacket (close_container_id v) [clc_window_id p]"

definition close_container_decode :: "i32 \<Rightarrow> raw_packet \<Rightarrow> close_container res" where
  "close_container_decode v packet =
     (if rp_id packet \<noteq> close_container_id v then Inl (InvalidPacketId (rp_id packet))
      else bindE (get_u8 (str ''Unexpected EOF reading window_id in CloseContainer'') (payload packet))
             (\<lambda>(window_id, cursor). Inr \<lparr>clc_window_id = window_id\<rparr>))"

record stop_sound =
  ss_flags :: u8
  ss_source :: "i32 option"
  ss_sound :: "str option"

definition stop_sound_all :: stop_sound where
  "stop_sound_all = \<lparr>ss_flags = 0, ss_source = None, ss_sound = None\<rparr>"

definition stop_sound_with_source :: "i32 \<Rightarrow> stop_sound" where
  "stop_sound_with_source source = \<lparr>ss_flags = 1, ss_source = Some source, ss_sound = None\<rparr>"

definition stop_sound_with_sound :: "str \<Rightarrow> stop_sound" where
  "stop_sound_with_sound sound = \<lparr>ss_flags = 2, ss_source = None, ss_sound = Some sound\<rparr>"

definition stop_sound_with_source_and_sound :: "i32 \<Rightarrow> str \<Rightarrow> stop_sound" where
  "stop_sound_with_source_and_sound source sound = \<lparr>ss_flags = 3, ss_source = Some source, ss_sound = Some sound\<rparr>"

definition stop_sound_id :: "i32 \<Rightarrow> i32" where
  "stop_sound_id v =
     (if 776 \<le> sint v then 0x77
      else if 768 \<le> sint v then 0x71
      else if 766 \<le> sint v then 0x6A
      else if 765 \<le> sint v then 0x68
      else if 764 \<le> sint v then STOP_SOUND_PACKET_ID
      else if 762 \<le> sint v then 0x63
      else if sint v = 761 then 0x5F
      else if 759 \<le> sint v then 0x61
      else STOP_SOUND_PACKET_ID)"

definition stop_sound_encode_with_version :: "i32 \<Rightarrow> stop_sound \<Rightarrow> raw_packet" where
  "stop_sound_encode_with_version v p =
     RawPacket (stop_sound_id v)
       ([ss_flags p]
        @ (if ss_flags p AND 1 \<noteq> 0 then (case ss_source p of Some src \<Rightarrow> encode_varint src | None \<Rightarrow> []) else [])
        @ (if ss_flags p AND 2 \<noteq> 0 then (case ss_sound p of Some snd' \<Rightarrow> put_prefixed snd' | None \<Rightarrow> []) else []))"

definition stop_sound_decode :: "i32 \<Rightarrow> raw_packet \<Rightarrow> stop_sound res" where
  "stop_sound_decode v packet =
     (if rp_id packet \<noteq> stop_sound_id v then Inl (InvalidPacketId (rp_id packet))
      else
        bindE (get_u8 (str ''Unexpected EOF reading flags in StopSound'') (payload packet)) (\<lambda>(flags, cursor).
        bindE (if flags AND 1 \<noteq> 0 then bindE (decode_varint cursor) (\<lambda>(src, cursor). Inr (Some src, cursor))
               else Inr (None, cursor)) (\<lambda>(source, cursor).
        bindE (if flags AND 2 \<noteq> 0
               then bindE (take_string (str ''Unexpected EOF reading sound in StopSound'') (str ''Invalid UTF-8 in sound'') cursor)
                      (\<lambda>(s, cursor). Inr (Some s, cursor))
               else Inr (None, cursor)) (\<lambda>(sound, cursor).
        Inr \<lparr>ss_flags = flags, ss_source = source, ss_sound = sound\<rparr>))))"

section \<open>Boss bars and scoreboards\<close>

record boss_bar =
  bb_uuid :: uuid
  bb_action :: i32

definition BOSS_BAR_ACTION_ADD :: i32 where "BOSS_BAR_ACTION_ADD = 0"
definition BOSS_BAR_ACTION_REMOVE :: i32 where "BOSS_BAR_ACTION_REMOVE = 1"

definition boss_bar_remove :: "uuid \<Rightarrow> boss_bar" where
  "boss_bar_remove uuid = \<lparr>bb_uuid = uuid, bb_action = BOSS_BAR_ACTION_REMOVE\<rparr>"

definition boss_bar_id :: "i32 \<Rightarrow> i32" where
  "boss_bar_id v =
     (if 776 \<le> sint v then 0x09
      else if 764 \<le> sint v then BOSS_BAR_PACKET_ID
      else if 762 \<le> sint v then 0x0B
      else BOSS_BAR_PACKET_ID)"

definition boss_bar_encode_with_version :: "i32 \<Rightarrow> boss_bar \<Rightarrow> raw_packet" where
  "boss_bar_encode_with_version v p = RawPacket (boss_bar_id v) (bb_uuid p @ encode_varint (bb_action p))"

definition boss_bar_decode :: "i32 \<Rightarrow> raw_packet \<Rightarrow> boss_bar res" where
  "boss_bar_decode v packet =
     (if rp_id packet \<noteq> boss_bar_id v then Inl (InvalidPacketId (rp_id packet))
      else
        bindE (get_bytes (str ''Unexpected EOF reading UUID in BossBar'') 16 (payload packet)) (\<lambda>(uuid, cursor).
        bindE (decode_varint cursor) (\<lambda>(action, cursor).
        Inr \<lparr>bb_uuid = uuid, bb_action = action\<rparr>)))"

record scoreboard_objective =
  so_name :: str
  so_action :: u8

definition OBJECTIVE_ACTION_CREATE :: u8 where "OBJECTIVE_ACTION_CREATE = 0"
definition OBJECTIVE_ACTION_REMOVE :: u8 where "OBJECTIVE_ACTION_REMOVE = 1"

definition scoreboard_objective_remove :: "str \<Rightarrow> scoreboard_objective" where
  "scoreboard_objective_remove name = \<lparr>so_name = name, so_action = OBJECTIVE_ACTION_REMOVE\<rparr>"

definition scoreboard_objective_id :: "i32 \<Rightarrow> i32" where
  "scoreboard_objective_id v =
     (if 776 \<le> sint v then 0x6A
      else if 768 \<le> sint v then 0x64
      else if 766 \<le> sint v then 0x5E
      else if 765 \<le> sint v then 0x5C
      else if 764 \<le> sint v then SCOREBOARD_OBJECTIVE_PACKET_ID
      else if 762 \<le> sint v then 0x58
      else if sint v = 761 then 0x54
      else 0x56)"

definition scoreboard_objective_encode_with_version :: "i32 \<Rightarrow> scoreboard_objective \<Rightarrow> raw_packet" where
  "scoreboard_objective_encode_with_version v p =
     RawPacket (scoreboard_objective_id v) (put_prefixed (so_name p) @ [so_action p])"

definition scoreboard_objective_decode :: "i32 \<Rightarrow> raw_packet \<Rightarrow> scoreboard_objective res" where
  "scoreboard_objective_decode v packet =
     (if rp_id packet \<noteq> scoreboard_objective_id v then Inl (InvalidPacketId (rp_id packet))
      else
        bindE (take_string (str ''Unexpected EOF reading name in ScoreboardObjective'')
                 (str ''Invalid UTF-8 in ScoreboardObjective name'') (payload packet)) (\<lambda>(name, cursor).
        bindE (get_u8 (str ''Unexpected EOF reading action in ScoreboardObjective'') cursor) (\<lambda>(action, cursor).
        Inr \<lparr>so_name = name, so_action = action\<rparr>)))"

record display_objective =
  do_position :: i32
  do_name :: str

definition POSITION_LIST :: i32 where "POSITION_LIST = 0"
definition POSITION_SIDEBAR :: i32 where "POSITION_SIDEBAR = 1"
definition POSITION_BELOW_NAME :: i32 where "POSITION_BELOW_NAME = 2"

definition display_objective_clear :: "i32 \<Rightarrow> display_objective" where
  "display_objective_clear position = \<lparr>do_position = position, do_name = []\<rparr>"

definition display_objective_id :: "i32 \<Rightarrow> i32" where
  "display_objective_id v =
     (if 776 \<le> sint v then 0x62
      else if 768 \<le> sint v then 0x5C
      else if 766 \<le> sint v then 0x57
      else if 765 \<le> sint v then 0x55
      else if 764 \<le> sint v then DISPLAY_OBJECTIVE_PACKET_ID
      else if 762 \<le> sint v then 0x51
      else if sint v = 761 then 0x4D
      else 0x4F)"

definition display_objective_encode_with_version :: "i32 \<Rightarrow> display_objective \<Rightarrow> raw_packet" where
  "display_objective_encode_with_version v p =
     RawPacket (display_objective_id v) (encode_varint (do_position p) @ put_prefixed (do_name p))"

definition display_objective_decode :: "i32 \<Rightarrow> raw_packet \<Rightarrow> display_objective res" where
  "display_objective_decode v packet =
     (if rp_id packet \<noteq> display_objective_id v then Inl (InvalidPacketId (rp_id packet))
      else
        bindE (decode_varint (payload packet)) (\<lambda>(position, cursor).
        bindE (take_string (str ''Unexpected EOF reading name in DisplayObjective'')
                 (str ''Invalid UTF-8 in DisplayObjective name'') cursor) (\<lambda>(name, cursor).
        Inr \<lparr>do_position = position, do_name = name\<rparr>)))"

section \<open>Packets recognised by their identifier\<close>

definition is_open_window_packet :: "i32 \<Rightarrow> i32 \<Rightarrow> bool" where
  "is_open_window_packet i v =
     (if 776 \<le> sint v then i = 0x3B
      else if 768 \<le> sint v then i = 0x35
      else if 766 \<le> sint v then i = 0x33
      else if 764 \<le> sint v then i = 0x31
      else if 762 \<le> sint v then i = 0x30
      else if sint v = 761 then i = 0x2D
      else i = 0x2E)"

definition is_sound_packet :: "i32 \<Rightarrow> i32 \<Rightarrow> bool" where
  "is_sound_packet i v =
     (if 776 \<le> sint v then i = 0x75 \<or> i = 0x74
      else if 768 \<le> sint v then i = 0x6F \<or> i = 0x6E
      else if 766 \<le> sint v then i = 0x68 \<or> i = 0x67
      else if 765 \<le> sint v then i = 0x66 \<or> i = 0x65
      else if 764 \<le> sint v then i = 0x64 \<or> i = 0x63
      else i = 0x61 \<or> i = 0x60)"

definition is_serverbound_close_container_packet :: "i32 \<Rightarrow> i32 \<Rightarrow> bool" where
  "is_serverbound_close_container_packet i v =
     (if 776 \<le> sint v then i = 0x13
      else if 768 \<le> sint v then i = 0x11
      else if 766 \<le> sint v then i = 0x0F
      else if 764 \<le> sint v then i = 0x0E
      else if 762 \<le> sint v then i = 0x0D
      else i = 0x0C \<or> i = 0x0A \<or> i = 0x09)"

section \<open>Contracts\<close>

interpretation close_container_codec:
  packet_codec "close_container_encode_with_version v" "close_container_decode v" "close_container_id v" "\<lambda>_. True"
  by unfold_locales (auto simp: close_container_encode_with_version_def close_container_decode_def)

text \<open>A stop sound packet as its four constructors build it: a field is present exactly when its flag is set.\<close>

definition wf_stop_sound :: "stop_sound \<Rightarrow> bool" where
  "wf_stop_sound p \<longleftrightarrow> (ss_flags p AND 1 \<noteq> 0 \<longleftrightarrow> ss_source p \<noteq> None) \<and> (ss_flags p AND 2 \<noteq> 0 \<longleftrightarrow> ss_sound p \<noteq> None)
     \<and> (case ss_sound p of None \<Rightarrow> True | Some s \<Rightarrow> wf_string s)"

lemma wf_stop_sound_constructors:
  "wf_stop_sound stop_sound_all" "wf_stop_sound (stop_sound_with_source i)"
  "wf_string s \<Longrightarrow> wf_stop_sound (stop_sound_with_sound s)"
  "wf_string s \<Longrightarrow> wf_stop_sound (stop_sound_with_source_and_sound i s)"
  by (simp_all add: wf_stop_sound_def stop_sound_all_def stop_sound_with_source_def stop_sound_with_sound_def
      stop_sound_with_source_and_sound_def)

interpretation stop_sound_codec:
  packet_codec "stop_sound_encode_with_version v" "stop_sound_decode v" "stop_sound_id v" wf_stop_sound
proof
  fix x
  assume wf: "wf_stop_sound x"
  show "stop_sound_decode v (stop_sound_encode_with_version v x) = Inr x"
    using wf by (cases "ss_source x"; cases "ss_sound x")
      (auto simp: wf_stop_sound_def stop_sound_encode_with_version_def stop_sound_decode_def codec_simps)
qed (simp_all add: stop_sound_encode_with_version_def stop_sound_decode_def)

interpretation boss_bar_codec:
  packet_codec "boss_bar_encode_with_version v" "boss_bar_decode v" "boss_bar_id v" "\<lambda>p. wf_uuid (bb_uuid p)"
  by unfold_locales (auto simp: boss_bar_encode_with_version_def boss_bar_decode_def wf_uuid_def codec_simps)

interpretation scoreboard_objective_codec:
  packet_codec "scoreboard_objective_encode_with_version v" "scoreboard_objective_decode v" "scoreboard_objective_id v"
    "\<lambda>p. wf_string (so_name p)"
  by unfold_locales (auto simp: scoreboard_objective_encode_with_version_def scoreboard_objective_decode_def codec_simps)

interpretation display_objective_codec:
  packet_codec "display_objective_encode_with_version v" "display_objective_decode v" "display_objective_id v"
    "\<lambda>p. wf_string (do_name p)"
  by unfold_locales (auto simp: display_objective_encode_with_version_def display_objective_decode_def codec_simps)

section \<open>System chat round trip\<close>

lemma hd_encode_varint:
  assumes "hd (encode_varint v) = 0x0A"
  shows "v = 10"
proof (cases "unat v < 128")
  case True
  then have "ucast v = (0x0A :: u8)"
    using assms by (simp add: encode_varint_def encode_var_loop_last)
  then have "(ucast ((ucast v :: u8) AND 0x7F) :: i32) = 10" by simp
  then show ?thesis using last_byte(2) [OF True] by simp
next
  case False
  then have "ucast ((v AND 0x7F) OR 0x80) = (0x0A :: u8)"
    using assms by (simp add: encode_varint_def encode_var_loop_more)
  then show ?thesis using more_byte(1) [of v] by simp
qed

lemma nbt_loop_text:
  assumes "length s < 65536" "utf8_valid s"
  shows "nbt_loop m (0x08 # put_u16 4 @ str ''text'' @ put_u16 (usize_as_u16 (length s)) @ s @ 0 # rest) = (s, rest)"
proof -
  have t: "utf8_valid (str ''text'')" "length (str ''text'') = 4"
    by (simp_all add: str_def utf8_first_def of_char_def)
  have g: "get_u16 [] (put_u16 4 @ str ''text'' @ r) = Inr (4, str ''text'' @ r)" for r
    by (simp add: codec_simps)
  show ?thesis
    using assms t by (simp add: g codec_simps cast_simps Let_def)
qed

definition wf_system_chat :: "(str \<Rightarrow> str) \<Rightarrow> (str \<Rightarrow> str + str option) \<Rightarrow> i32 \<Rightarrow> system_chat \<Rightarrow> bool" where
  "wf_system_chat json_text json_get_text v p \<longleftrightarrow>
     (if 766 \<le> sint v then length (sc_message p) < 65536 \<and> utf8_valid (sc_message p)
      else wf_string (json_text (sc_message p)) \<and> length (json_text (sc_message p)) \<noteq> 10
        \<and> json_get_text (json_text (sc_message p)) = Inr (Some (sc_message p)))"

lemma last_flag_put_bool: "last_flag (put_bool b) = b"
  by (simp add: last_flag_def put_bool_def)

lemma system_chat_roundtrip:
  assumes "wf_system_chat json_text json_get_text v p"
  shows "system_chat_decode_with_version json_get_text v (system_chat_encode_with_version json_text v p) = Inr p"
proof (cases "766 \<le> sint v")
  case True
  with assms nbt_loop_text [of "sc_message p" "[]" "put_bool (sc_overlay p)"] show ?thesis
    by (simp add: system_chat_encode_with_version_def system_chat_decode_with_version_def wf_system_chat_def
        last_flag_put_bool)
next
  case False
  let ?j = "json_text (sc_message p)"
  have "length ?j < 2 ^ 31" "length ?j \<noteq> 10"
    using assms False by (auto simp: wf_system_chat_def wf_string_def fits_i32_def)
  then have "usize_as_i32 (length ?j) \<noteq> 10"
    using usize_as_i32_inj [of "length ?j" 10] by (simp add: usize_as_i32_def)
  then have "hd (encode_varint (usize_as_i32 (length ?j))) \<noteq> 0x0A"
    using hd_encode_varint by blast
  then obtain b bs where b: "put_prefixed ?j @ put_bool (sc_overlay p) = b # bs" "b \<noteq> 0x0A"
    using varint.enc_not_Nil [of "usize_as_i32 (length ?j)"]
    by (cases "encode_varint (usize_as_i32 (length ?j))") (auto simp: put_prefixed_def)
  have "take_string e1 e2 (b # bs) = Inr (?j, put_bool (sc_overlay p))" for e1 e2
    unfolding b(1) [symmetric] using assms False by (simp add: wf_system_chat_def codec_simps)
  with b False assms show ?thesis
    by (simp add: system_chat_encode_with_version_def system_chat_decode_with_version_def wf_system_chat_def
        last_flag_put_bool)
qed

interpretation system_chat_codec:
  packet_family "system_chat_encode_with_version json_text v" "system_chat_decode_with_version json_get_text v"
    "\<lambda>i. i = system_chat_id v \<or> is_valid_system_chat_id i" "wf_system_chat json_text json_get_text v"
proof
  show "rp_id (system_chat_encode_with_version json_text v x) = system_chat_id v \<or>
      is_valid_system_chat_id (rp_id (system_chat_encode_with_version json_text v x))" for x
    by (simp add: system_chat_encode_with_version_def)
  show "\<not> (rp_id p = system_chat_id v \<or> is_valid_system_chat_id (rp_id p)) \<Longrightarrow>
      system_chat_decode_with_version json_get_text v p = Inl (InvalidPacketId (rp_id p))" for p
    by (simp add: system_chat_decode_with_version_def)
qed (rule system_chat_roundtrip)

text \<open>A text form for examples: the message in quotes as the value of \<^verbatim>\<open>text\<close>, without escapes.\<close>

definition text_object :: "str \<Rightarrow> str" where
  "text_object m = [0x7B, 0x22] @ str ''text'' @ [0x22, 0x3A, 0x22] @ m @ [0x22, 0x7D]"

definition text_of_object :: "str \<Rightarrow> str + str option" where
  "text_of_object j =
     (case strip_prefix ([0x7B, 0x22] @ str ''text'' @ [0x22, 0x3A, 0x22]) j of
        None \<Rightarrow> Inl (str ''expected an object'')
      | Some r \<Rightarrow> Inr (Some (take (length r - 2) r)))"

lemma text_of_text_object: "text_of_object (text_object m) = Inr (Some m)"
proof -
  let ?p = "[0x7B, 0x22] @ str ''text'' @ [0x22, 0x3A, 0x22] :: str"
  have "strip_prefix ?p (text_object m) = Some (m @ [0x22, 0x7D])"
    by (simp add: strip_prefix_Some_iff text_object_def)
  then show ?thesis by (simp add: text_of_object_def)
qed

text \<open>C37. The packets about the player's screen are read back from their own encoding under the same protocol version, for
  every version: closed windows, stopped sounds, boss bars and scoreboard objectives with every action, displays at
  every position, and chat lines. A chat line goes as NBT from version 766 on, where it must be shorter than 65536 bytes,
  and as JSON text below, where the text parses back to the message and is not 10 bytes long (as the text of an
  object with the key \<^verbatim>\<open>text\<close> never is): the decoder takes a length byte of 10 for the start of an NBT compound.\<close>

theorem screen_packets_roundtrip:
  "close_container_decode v (close_container_encode_with_version v w) = Inr w
   \<and> (wf_stop_sound s \<longrightarrow> stop_sound_decode v (stop_sound_encode_with_version v s) = Inr s)
   \<and> (wf_uuid (bb_uuid b) \<longrightarrow> boss_bar_decode v (boss_bar_encode_with_version v b) = Inr b)
   \<and> (wf_string (so_name n) \<longrightarrow> scoreboard_objective_decode v (scoreboard_objective_encode_with_version v n) = Inr n)
   \<and> (wf_string (do_name d) \<longrightarrow> display_objective_decode v (display_objective_encode_with_version v d) = Inr d)
   \<and> (wf_system_chat json_text json_get_text v m \<longrightarrow>
        system_chat_decode_with_version json_get_text v (system_chat_encode_with_version json_text v m) = Inr m)"
  using close_container_codec.decode_encode [of v w] stop_sound_codec.decode_encode [of s v]
    boss_bar_codec.decode_encode [of b v] scoreboard_objective_codec.decode_encode [of n v]
    display_objective_codec.decode_encode [of d v]
    system_chat_codec.decode_encode [of json_text json_get_text v m]
  by simp

theorem screen_packets_roundtrip_witness:
  "let b = \<lparr>bb_uuid = nil_uuid, bb_action = BOSS_BAR_ACTION_ADD\<rparr>;
       n = scoreboard_objective_remove (str ''kills'');
       d = \<lparr>do_position = POSITION_SIDEBAR, do_name = str ''kills''\<rparr>;
       m = \<lparr>sc_message = str ''hi'', sc_overlay = True\<rparr>
   in boss_bar_decode 776 (boss_bar_encode_with_version 776 b) = Inr b
      \<and> scoreboard_objective_decode 765 (scoreboard_objective_encode_with_version 765 n) = Inr n
      \<and> display_objective_decode 765 (display_objective_encode_with_version 765 d) = Inr d
      \<and> stop_sound_decode 765 (stop_sound_encode_with_version 765 stop_sound_all) = Inr stop_sound_all
      \<and> system_chat_decode_with_version text_of_object 766 (system_chat_encode_with_version text_object 766 m) = Inr m
      \<and> system_chat_decode_with_version text_of_object 765 (system_chat_encode_with_version text_object 765 m) = Inr m"
proof -
  let ?b = "\<lparr>bb_uuid = nil_uuid, bb_action = BOSS_BAR_ACTION_ADD\<rparr>"
  let ?n = "scoreboard_objective_remove (str ''kills'')"
  let ?d = "\<lparr>do_position = POSITION_SIDEBAR, do_name = str ''kills''\<rparr>"
  let ?m = "\<lparr>sc_message = str ''hi'', sc_overlay = True\<rparr>"
  have k: "wf_uuid (bb_uuid ?b)" "wf_string (so_name ?n)" "wf_string (do_name ?d)"
    by (simp_all add: wf_uuid_def nil_uuid_def scoreboard_objective_remove_def wf_string_def fits_i32_def str_def
        utf8_first_def of_char_def)
  have j: "wf_string (text_object (str ''hi''))" "length (text_object (str ''hi'')) = 13"
    by (simp_all add: text_object_def wf_string_def fits_i32_def str_def utf8_first_def of_char_def)
  have m: "wf_system_chat text_object text_of_object 766 ?m" "wf_system_chat text_object text_of_object 765 ?m"
    using j by (simp_all add: wf_system_chat_def text_of_text_object) (simp add: str_def utf8_first_def of_char_def)
  from screen_packets_roundtrip [of 776 _ _ ?b]
    screen_packets_roundtrip [of 765 _ stop_sound_all _ ?n ?d text_object text_of_object ?m]
    screen_packets_roundtrip [of 766 _ _ _ _ _ text_object text_of_object ?m] k m wf_stop_sound_constructors(1)
  show ?thesis unfolding Let_def by blast
qed

end
