(* ===== verification/Declare_Commands.thy ===== *)
theory Declare_Commands
  imports Screen_Packets
begin

text \<open>
  \<^verbatim>\<open>inject_proxy_commands_into_declare_commands\<close> of \<^verbatim>\<open>src/src/routing/state_machine.rs\<close>: the proxy adds its own
  commands to the command graph a backend declares. \<^verbatim>\<open>str::to_lowercase\<close> (Unicode tables) is the parameter
  \<open>lowercase\<close>. Indices are \<^verbatim>\<open>i32\<close> sums, kept as words.

  The main result: on a graph the output is again a graph with the same root index; its new nodes are exactly the
  proxy's and stand behind the old ones, and the new children of node 0 are exactly the indices of the new literals.
\<close>

unbundle bit_operations_syntax

definition is_declare_commands_packet :: "i32 \<Rightarrow> i32 \<Rightarrow> bool" where
  "is_declare_commands_packet i v =
     (if 776 \<le> sint v then i = 0x10
      else if 764 \<le> sint v then i = 0x11
      else if 762 \<le> sint v then i = 0x0F
      else if 759 \<le> sint v then i = 0x0E
      else if 755 \<le> sint v then i = 0x12
      else if 735 \<le> sint v then i = 0x10
      else if 393 \<le> sint v then i = 0x11
      else False)"

text \<open>The trailing root index is found from the end: the lengths a VarInt that ends the buffer may have, longest first,
  taken when the bytes decode to a canonical number below the node count.\<close>

fun cont_lens :: "bytes \<Rightarrow> nat list \<Rightarrow> nat list" where
  "cont_lens cursor [] = []"
| "cont_lens cursor (len # lens) =
     (if cursor ! (length cursor - len) AND 0x80 \<noteq> 0 then len # cont_lens cursor lens else [])"

definition root_index_at :: "i32 \<Rightarrow> bytes \<Rightarrow> nat \<Rightarrow> (nat \<times> i32) option" where
  "root_index_at original_count cursor len =
     (case decode_varint (drop (length cursor - len) cursor) of
        Inl _ \<Rightarrow> None
      | Inr (val, rest) \<Rightarrow>
          if rest = [] \<and> varint_size val = len \<and> 0 \<le> sint val \<and> i32_as_usize val < i32_as_usize original_count
          then Some (len, val) else None)"

definition find_root_index :: "i32 \<Rightarrow> bytes \<Rightarrow> (nat \<times> i32) option" where
  "find_root_index original_count cursor =
     (let rem = length cursor; final = cursor ! (rem - 1) in
      if final = 0x00 then Some (1, 0)
      else if final AND 0x80 = 0 then
        (let possible_lens = 1 # cont_lens cursor [2 ..< Suc (min 5 rem)] in
         first_some (root_index_at original_count cursor) (rev possible_lens))
      else None)"

definition add_literal :: "(str \<Rightarrow> str) \<Rightarrow> str \<Rightarrow> str list \<Rightarrow> str list" where
  "add_literal lowercase s root_literals =
     (let name = lowercase (trim s) in
      if name \<noteq> [] \<and> name \<noteq> str ''server'' \<and> name \<notin> set root_literals then root_literals @ [name]
      else root_literals)"

definition root_literals :: "(str \<Rightarrow> str) \<Rightarrow> str list \<Rightarrow> str list" where
  "root_literals lowercase custom_servers =
     fold (add_literal lowercase) custom_servers [str ''hub'', str ''lobby'', str ''steel'']"

definition server_literal_node :: "i32 \<Rightarrow> bytes" where
  "server_literal_node server_arg_idx =
     [0x05] @ encode_varint 1 @ encode_varint server_arg_idx @ encode_varint 6 @ str ''server''"

definition server_arg_node :: bytes where
  "server_arg_node =
     [0x16] @ encode_varint 0 @ encode_varint 4 @ str ''name'' @ encode_varint 5 @ encode_varint 0
     @ put_prefixed (str ''minecraft:ask_server'')"

definition literal_node :: "str \<Rightarrow> bytes" where
  "literal_node literal = [0x05] @ encode_varint 0 @ put_prefixed literal"

text \<open>The loop over the literals: the running index, the children added and the bytes of the nodes.\<close>

fun literal_loop :: "i32 \<Rightarrow> str list \<Rightarrow> i32 \<times> i32 list \<times> bytes" where
  "literal_loop current_index [] = (current_index, [], [])"
| "literal_loop current_index (literal # literals) =
     (let (index, children, nodes) = literal_loop (current_index + 1) literals in
      (index, current_index # children, literal_node literal @ nodes))"

definition assemble_graph :: "(str \<Rightarrow> str) \<Rightarrow> str list \<Rightarrow> i32 \<Rightarrow> i32 list \<Rightarrow> bytes \<Rightarrow> i32 \<Rightarrow> bytes" where
  "assemble_graph lowercase custom_servers original_count original_children rest_of_nodes root_index =
     (let server_literal_idx = original_count;
          server_arg_idx = original_count + 1;
          (new_total_count, literal_children, literal_nodes) =
            literal_loop (original_count + 2) (root_literals lowercase custom_servers);
          new_root_children = server_literal_idx # literal_children;
          new_nodes_payload = server_literal_node server_arg_idx @ server_arg_node @ literal_nodes
      in encode_varint new_total_count
         @ [0x00] @ encode_varint (usize_as_i32 (length original_children + length new_root_children))
         @ concat (map encode_varint original_children) @ concat (map encode_varint new_root_children)
         @ rest_of_nodes @ new_nodes_payload @ encode_varint root_index)"

definition inject_after_children ::
  "(str \<Rightarrow> str) \<Rightarrow> raw_packet \<Rightarrow> str list \<Rightarrow> i32 \<Rightarrow> i32 list \<Rightarrow> bytes \<Rightarrow> raw_packet" where
  "inject_after_children lowercase packet custom_servers original_count original_children cursor =
     (if length cursor < 1 then packet
      else
        (case find_root_index original_count cursor of
           None \<Rightarrow> packet
         | Some (root_index_len, root_index) \<Rightarrow>
             RawPacket (rp_id packet)
               (assemble_graph lowercase custom_servers original_count original_children
                  (take (length cursor - root_index_len) cursor) root_index)))"

definition inject_proxy_commands_into_declare_commands ::
  "(str \<Rightarrow> str) \<Rightarrow> raw_packet \<Rightarrow> i32 \<Rightarrow> str list \<Rightarrow> raw_packet res" where
  "inject_proxy_commands_into_declare_commands lowercase packet v custom_servers =
     (if sint v < 393 then Inr packet
      else if \<not> is_declare_commands_packet (rp_id packet) v then Inr packet
      else
        bindE (decode_varint (payload packet)) (\<lambda>(original_count, cursor).
        if sint original_count \<le> 0 then Inr packet
        else
        (case cursor of
           [] \<Rightarrow> Inr packet
         | root_flags # cursor \<Rightarrow>
             if root_flags \<noteq> 0x00 then Inr packet
             else
               bindE (decode_varint cursor) (\<lambda>(original_child_count, cursor).
               if sint original_child_count < 0 \<or> length cursor < i32_as_usize original_child_count then Inr packet
               else
                 bindE (decode_n decode_varint (nat (sint original_child_count)) cursor) (\<lambda>(original_children, cursor).
                 Inr (inject_after_children lowercase packet custom_servers original_count original_children cursor))))))"

section \<open>Literals\<close>

lemma root_literals_fold:
  "distinct ls \<Longrightarrow> str ''server'' \<notin> set ls \<Longrightarrow> [] \<notin> set ls \<Longrightarrow>
   distinct (fold (add_literal lowercase) ss ls) \<and> str ''server'' \<notin> set (fold (add_literal lowercase) ss ls)
   \<and> [] \<notin> set (fold (add_literal lowercase) ss ls) \<and> (\<exists>ms. fold (add_literal lowercase) ss ls = ls @ ms)"
proof (induction ss arbitrary: ls)
  case (Cons s ss)
  let ?ls = "add_literal lowercase s ls"
  have "distinct ?ls" "str ''server'' \<notin> set ?ls" "[] \<notin> set ?ls" "\<exists>ms. ?ls = ls @ ms"
    using Cons.prems by (auto simp: add_literal_def Let_def)
  with Cons.IH [of ?ls] show ?case by auto
qed simp

lemma root_literals_ok:
  "distinct (root_literals lowercase ss)" "str ''server'' \<notin> set (root_literals lowercase ss)"
  "[] \<notin> set (root_literals lowercase ss)"
  "{str ''hub'', str ''lobby'', str ''steel''} \<subseteq> set (root_literals lowercase ss)"
proof -
  have n: "[] \<notin> set [str ''hub'', str ''lobby'', str ''steel'']" by (simp add: str_def)
  note f = root_literals_fold [of "[str ''hub'', str ''lobby'', str ''steel'']" lowercase ss, OF _ _ n]
  show "distinct (root_literals lowercase ss)" "str ''server'' \<notin> set (root_literals lowercase ss)"
    "[] \<notin> set (root_literals lowercase ss)"
    using f by (auto simp: root_literals_def)
  show "{str ''hub'', str ''lobby'', str ''steel''} \<subseteq> set (root_literals lowercase ss)"
    using f by (auto simp: root_literals_def)
qed

lemma literal_loop_eq:
  "literal_loop i ls =
     (i + word_of_nat (length ls), map (\<lambda>k. i + word_of_nat k) [0 ..< length ls], concat (map literal_node ls))"
proof (induction ls arbitrary: i)
  case (Cons l ls)
  have "map (\<lambda>k. i + word_of_nat k) [0 ..< length (l # ls)] = i # map (\<lambda>k. i + 1 + word_of_nat k) [0 ..< length ls]"
    by (simp add: upt_conv_Cons map_Suc_upt [symmetric] add.assoc del: upt_Suc)
  with Cons show ?case by (simp add: add.assoc)
qed simp

section \<open>Graphs\<close>

text \<open>A command graph on the wire: the root with its children, the other nodes as byte strings, the root index.\<close>

definition put_graph :: "nat list \<Rightarrow> bytes list \<Rightarrow> nat \<Rightarrow> bytes" where
  "put_graph children nodes root_index =
     encode_varint (usize_as_i32 (1 + length nodes))
     @ [0x00] @ encode_varint (usize_as_i32 (length children))
     @ concat (map (\<lambda>c. encode_varint (usize_as_i32 c)) children)
     @ concat nodes @ encode_varint (usize_as_i32 root_index)"

definition proxy_nodes :: "(str \<Rightarrow> str) \<Rightarrow> str list \<Rightarrow> nat \<Rightarrow> bytes list" where
  "proxy_nodes lowercase ss n =
     [server_literal_node (usize_as_i32 (n + 1)), server_arg_node] @ map literal_node (root_literals lowercase ss)"

definition proxy_children :: "(str \<Rightarrow> str) \<Rightarrow> str list \<Rightarrow> nat \<Rightarrow> nat list" where
  "proxy_children lowercase ss n = n # [n + 2 ..< n + 2 + length (root_literals lowercase ss)]"

text \<open>The root index is found again behind nodes whose last byte is ASCII: all its bytes but the last have the high bit, that
  byte has not.\<close>

lemma encode_var_loop_bits:
  fixes t :: "'a::len word"
  assumes "8 \<le> LENGTH('a)"
  shows "(\<forall>b \<in> set (butlast (encode_var_loop t)). b AND 0x80 \<noteq> 0)
    \<and> last (encode_var_loop t) AND 0x80 = 0 \<and> (t \<noteq> 0 \<longrightarrow> last (encode_var_loop t) \<noteq> 0)"
proof (induction t rule: encode_var_loop.induct)
  case (1 t)
  show ?case
  proof (cases "unat t < 128")
    case True
    from last_byte [OF this assms] have "(ucast t :: u8) AND 0x80 = 0" "t \<noteq> 0 \<longrightarrow> (ucast t :: u8) \<noteq> 0"
      by auto
    then show ?thesis by (simp add: encode_var_loop_last [OF True])
  next
    case False
    then have "unat (drop_bit 7 t) \<noteq> 0"
      by (simp add: unat_drop_bit_7 div_eq_0_iff)
    then have "drop_bit 7 t \<noteq> 0" by auto
    with "1.IH" False more_byte(1) [OF assms, of t] show ?thesis
      by (simp only: encode_var_loop_more [OF False] butlast.simps last.simps encode_var_loop_not_Nil if_False
          set_simps and_not_127_eq_0_iff) auto
  qed
qed

lemma cont_lens_takeWhile: "cont_lens c lens = takeWhile (\<lambda>len. c ! (length c - len) AND 0x80 \<noteq> 0) lens"
  by (induction lens) auto

lemma find_root_index_put:
  assumes "r < n" and "n < 2 ^ 31" and "bs = [] \<or> last bs AND 0x80 = 0"
  shows "find_root_index (usize_as_i32 n) (bs @ encode_varint (usize_as_i32 r)) =
    Some (length (encode_varint (usize_as_i32 r)), usize_as_i32 r)"
proof (cases "r = 0")
  case True
  then have "encode_varint (usize_as_i32 r) = [0]" by (simp add: usize_as_i32_def)
  then show ?thesis using True by (simp add: find_root_index_def Let_def usize_as_i32_def)
next
  case False
  define e where "e = encode_varint (usize_as_i32 r)"
  define c where "c = bs @ e"
  define k where "k = length e"
  have i: "sint (usize_as_i32 r) = int r" "i32_as_usize (usize_as_i32 r) = r" "i32_as_usize (usize_as_i32 n) = n"
    using assms(1,2) by (simp_all add: cast_simps)
  with False have nz: "usize_as_i32 r \<noteq> 0" by auto
  have e: "e \<noteq> []" "k = varint_size (usize_as_i32 r)" "1 \<le> k" "k \<le> 5"
    unfolding e_def k_def using varint_size_bounds [of "usize_as_i32 r"] varint.enc_not_Nil
    by (simp_all add: length_encode_varint)
  have bits: "\<forall>b \<in> set (butlast e). b AND 0x80 \<noteq> 0" "last e AND 0x80 = 0" "last e \<noteq> 0"
    using encode_var_loop_bits [of "usize_as_i32 r"] nz by (simp_all add: e_def encode_varint_def)
  have high: "c ! (length c - len) AND 0x80 \<noteq> 0" if "2 \<le> len" "len \<le> k" for len
  proof -
    have "length c - len = length bs + (k - len)"
      using that by (simp add: c_def k_def)
    then have "c ! (length c - len) = e ! (k - len)"
      by (simp only: c_def nth_append_length_plus)
    also have "\<dots> = butlast e ! (k - len)"
      using that by (simp add: k_def nth_butlast)
    finally have "c ! (length c - len) = butlast e ! (k - len)" .
    moreover have "k - len < length (butlast e)" using that by (simp add: k_def)
    ultimately show ?thesis using bits(1) by (simp add: nth_mem)
  qed
  have low: "c ! (length c - Suc k) AND 0x80 = 0" if "Suc k \<le> length c"
  proof -
    have "bs \<noteq> []" using that by (auto simp: c_def k_def)
    then have "c ! (length c - Suc k) = last bs"
      by (simp add: c_def k_def nth_append last_conv_nth)
    with assms(3) \<open>bs \<noteq> []\<close> show ?thesis by simp
  qed
  let ?P = "\<lambda>len. c ! (length c - len) AND 0x80 \<noteq> 0"
  let ?m = "min 5 (length c)"
  have km: "k \<le> ?m" using e by (simp add: c_def k_def)
  have "takeWhile ?P [2 ..< Suc ?m] = takeWhile ?P ([2 ..< Suc k] @ [Suc k ..< Suc ?m])"
    using km e(3) upt_add_eq_append [of 2 "Suc k" "?m - k"] by (simp del: upt_Suc)
  also have "\<dots> = [2 ..< Suc k] @ takeWhile ?P [Suc k ..< Suc ?m]"
    using high by (intro takeWhile_append2) auto
  also have "takeWhile ?P [Suc k ..< Suc ?m] = []"
  proof (cases "Suc k < Suc ?m")
    case True
    then have "[Suc k ..< Suc ?m] = Suc k # [Suc (Suc k) ..< Suc ?m]"
      by (rule upt_conv_Cons)
    with low True show ?thesis by (simp del: upt_Suc)
  next
    case False
    then show ?thesis by (simp only: upt_conv_Nil not_less takeWhile.simps)
  qed
  finally have "cont_lens c [2 ..< Suc ?m] = [2 ..< Suc k]"
    by (simp add: cont_lens_takeWhile)
  moreover have "1 # [2 ..< Suc k] = [1 ..< k] @ [k]"
    using e(3) by (cases "k = 1") (simp_all add: upt_conv_Cons numeral_2_eq_2)
  ultimately have lens: "rev (1 # cont_lens c [2 ..< Suc ?m]) = k # rev [1 ..< k]"
    by simp
  have "drop (length c - k) c = e" by (simp add: c_def k_def)
  then have at: "root_index_at (usize_as_i32 n) c k = Some (k, usize_as_i32 r)"
    using codec_simps(1) assms(1) i e(2) decode_varint_encode [of "usize_as_i32 r" "[]"]
    by (simp add: root_index_at_def e_def)
  have final: "c ! (length c - 1) = last e"
  proof -
    have "c \<noteq> []" "last c = last e" using e(1) by (simp_all add: c_def)
    then show ?thesis using last_conv_nth [of c] by (simp only: simp_thms)
  qed
  show ?thesis
    unfolding e_def [symmetric] c_def [symmetric] k_def [symmetric] find_root_index_def Let_def lens
    using final bits at by (simp add: lens [unfolded Let_def])
qed

lemma concat_length_ge: "\<forall>x \<in> set xs. f x \<noteq> [] \<Longrightarrow> length xs \<le> length (concat (map f xs))"
proof (induction xs)
  case (Cons x xs)
  then have "1 \<le> length (f x)" by (simp add: Suc_le_eq)
  with Cons show ?case by simp
qed simp

lemma usize_as_i32_add: "usize_as_i32 (a + b) = usize_as_i32 a + usize_as_i32 b"
  by (simp add: usize_as_i32_def)

lemma map_upt_offset: "map (\<lambda>k. usize_as_i32 n + usize_as_i32 k) [0 ..< m] = map usize_as_i32 [n ..< n + m]"
  by (simp add: usize_as_i32_add [symmetric] map_add_upt [symmetric] comp_def add.commute)

text \<open>The assembled payload is the graph with the new nodes behind the old ones.\<close>

lemma assemble_graph_eq:
  assumes "n = 1 + length nodes"
  shows "assemble_graph lowercase ss (usize_as_i32 n) (map usize_as_i32 children) (concat nodes) (usize_as_i32 r) =
    put_graph (children @ proxy_children lowercase ss n) (nodes @ proxy_nodes lowercase ss n) r"
proof -
  let ?ls = "root_literals lowercase ss"
  have two: "usize_as_i32 n + 2 = usize_as_i32 (n + 2)" and one: "usize_as_i32 n + 1 = usize_as_i32 (n + 1)"
    by (simp_all add: usize_as_i32_def)
  have loop: "literal_loop (usize_as_i32 (n + 2)) ?ls =
      (usize_as_i32 (n + 2 + length ?ls), map usize_as_i32 [n + 2 ..< n + 2 + length ?ls], concat (map literal_node ?ls))"
    unfolding literal_loop_eq usize_as_i32_def [symmetric] map_upt_offset by (simp only: usize_as_i32_add [of "n + 2"])
  have count: "1 + length (nodes @ proxy_nodes lowercase ss n) = n + 2 + length ?ls"
    by (simp add: assms proxy_nodes_def)
  show ?thesis
    unfolding put_graph_def count assemble_graph_def Let_def two one loop prod.case
    by (simp add: proxy_children_def proxy_nodes_def comp_def)
qed

lemma inject_into_graph:
  assumes "393 \<le> sint v" and "is_declare_commands_packet i v" and "1 + length nodes < 2 ^ 31" and "length children < 2 ^ 31"
    and "r < 1 + length nodes" and "concat nodes = [] \<or> last (concat nodes) AND 0x80 = 0"
  shows "inject_proxy_commands_into_declare_commands lowercase (RawPacket i (put_graph children nodes r)) v ss =
    Inr (RawPacket i (put_graph (children @ proxy_children lowercase ss (1 + length nodes))
                        (nodes @ proxy_nodes lowercase ss (1 + length nodes)) r))"
proof -
  let ?p = "RawPacket i (put_graph children nodes r)"
  let ?n = "1 + length nodes"
  let ?cs = "map usize_as_i32 children"
  let ?e = "encode_varint (usize_as_i32 r)"
  have cs: "concat (map (\<lambda>c. encode_varint (usize_as_i32 c)) children) = concat (map encode_varint ?cs)"
    by (simp add: comp_def)
  have dn: "decode_n decode_varint (length children) (concat (map encode_varint ?cs) @ rest) = Inr (?cs, rest)" for rest
    using varint.dec_enc_list [of ?cs rest] by simp
  have len: "length children \<le> length (concat (map encode_varint ?cs) @ rest)" for rest
    using concat_length_ge [of ?cs encode_varint] varint.enc_not_Nil by (auto intro: trans_le_add1)
  have after: "inject_after_children lowercase ?p ss (usize_as_i32 ?n) ?cs (concat nodes @ ?e) =
      RawPacket i (put_graph (children @ proxy_children lowercase ss ?n) (nodes @ proxy_nodes lowercase ss ?n) r)"
    using assemble_graph_eq [OF refl, of lowercase ss nodes children r] varint.enc_not_Nil [of "usize_as_i32 r"]
      find_root_index_put [OF assms(5,3,6)]
    by (simp add: inject_after_children_def Suc_le_eq)
  have "sint (usize_as_i32 ?n) = int ?n" "\<not> sint (usize_as_i32 ?n) \<le> 0"
    using assms(3) by (simp_all add: cast_simps)
  moreover have "sint (usize_as_i32 (length children)) = int (length children)"
    "i32_as_usize (usize_as_i32 (length children)) = length children"
    using assms(4) by (simp_all add: cast_simps)
  ultimately show ?thesis
    using assms(1,2) len [of "concat nodes @ ?e"] after dn [of "concat nodes @ ?e"]
    unfolding inject_proxy_commands_into_declare_commands_def
    by (simp add: put_graph_def [of children nodes] cs codec_simps not_less)
qed

text \<open>The shortcuts: the three fixed ones and the names of the servers in lower case.\<close>

lemma set_fold_add_literal:
  "set (fold (add_literal lowercase) ss ls) =
     set ls \<union> ((\<lambda>s. lowercase (trim s)) ` set ss - {[], str ''server''})"
  by (induction ss arbitrary: ls) (auto simp: add_literal_def Let_def)

lemma set_root_literals:
  "set (root_literals lowercase ss) =
     {str ''hub'', str ''lobby'', str ''steel''} \<union> ((\<lambda>s. lowercase (trim s)) ` set ss - {[], str ''server''})"
  by (auto simp: root_literals_def set_fold_add_literal)

text \<open>C38. Injecting the proxy's commands into a command graph appends exactly the proxy's nodes behind the old ones, which are
  untouched: the literal \<^verbatim>\<open>server\<close> with its argument node as its only child, the argument node, and one literal without
  children for each shortcut. Node 0 keeps its children and gets exactly the indices of the literals as further ones,
  and the root index stays. The shortcuts are \<^verbatim>\<open>hub\<close>, \<^verbatim>\<open>lobby\<close>, \<^verbatim>\<open>steel\<close> and the trimmed names of the servers
  in lower case, each once, without empty names and \<^verbatim>\<open>server\<close>. The graph may have any root index; the code looks for it
  from the end of the packet, so the byte before it must not look like part of it.\<close>

theorem proxy_commands_injected:
  assumes "393 \<le> sint v" and "is_declare_commands_packet i v" and "1 + length nodes < 2 ^ 31" and "length children < 2 ^ 31"
    and "r < 1 + length nodes" and "concat nodes = [] \<or> last (concat nodes) AND 0x80 = 0"
  shows "let n = 1 + length nodes; shortcuts = root_literals lowercase ss in
    inject_proxy_commands_into_declare_commands lowercase (RawPacket i (put_graph children nodes r)) v ss =
      Inr (RawPacket i (put_graph
        (children @ n # [n + 2 ..< n + 2 + length shortcuts])
        (nodes @ ([0x05] @ encode_varint 1 @ encode_varint (usize_as_i32 (n + 1)) @ put_prefixed (str ''server''))
               # server_arg_node
               # map (\<lambda>l. [0x05] @ encode_varint 0 @ put_prefixed l) shortcuts)
        r))
    \<and> distinct shortcuts
    \<and> set shortcuts =
        {str ''hub'', str ''lobby'', str ''steel''} \<union> ((\<lambda>s. lowercase (trim s)) ` set ss - {[], str ''server''})"
proof -
  have "encode_varint 6 @ str ''server'' = put_prefixed (str ''server'')"
    by (simp add: put_prefixed_def usize_as_i32_def)
  then have "proxy_nodes lowercase ss n =
      ([0x05] @ encode_varint 1 @ encode_varint (usize_as_i32 (n + 1)) @ put_prefixed (str ''server''))
      # server_arg_node # map (\<lambda>l. [0x05] @ encode_varint 0 @ put_prefixed l) (root_literals lowercase ss)" for n
    by (simp add: proxy_nodes_def server_literal_node_def literal_node_def [abs_def])
  with inject_into_graph [OF assms, of lowercase ss] show ?thesis
    unfolding Let_def by (simp only: proxy_children_def root_literals_ok set_root_literals simp_thms)
qed

theorem proxy_commands_injected_witness:
  "let help_node = literal_node (str ''help'');
       shortcut = (\<lambda>l. [0x05] @ encode_varint 0 @ put_prefixed (str l))
   in inject_proxy_commands_into_declare_commands (\<lambda>s. s) (RawPacket 0x11 (put_graph [1] [help_node] 1)) 765 [str '' a ''] =
        Inr (RawPacket 0x11 (put_graph [1, 2, 4, 5, 6, 7]
          [help_node, [0x05] @ encode_varint 1 @ encode_varint 3 @ put_prefixed (str ''server''), server_arg_node,
           shortcut ''hub'', shortcut ''lobby'', shortcut ''steel'', shortcut ''a''] 1))"
proof -
  let ?node = "literal_node (str ''help'')"
  have "last (concat [?node]) AND 0x80 = 0"
    by (simp add: literal_node_def put_prefixed_def str_def of_char_def)
  then have "let n = 1 + length [?node]; shortcuts = root_literals (\<lambda>s. s) [str '' a ''] in
    inject_proxy_commands_into_declare_commands (\<lambda>s. s) (RawPacket 0x11 (put_graph [1] [?node] 1)) 765 [str '' a ''] =
      Inr (RawPacket 0x11 (put_graph
        ([1] @ n # [n + 2 ..< n + 2 + length shortcuts])
        ([?node] @ ([0x05] @ encode_varint 1 @ encode_varint (usize_as_i32 (n + 1)) @ put_prefixed (str ''server''))
               # server_arg_node
               # map (\<lambda>l. [0x05] @ encode_varint 0 @ put_prefixed l) shortcuts)
        1))
    \<and> distinct shortcuts
    \<and> set shortcuts =
        {str ''hub'', str ''lobby'', str ''steel''} \<union> ((\<lambda>s. s) ` trim ` set [str '' a ''] - {[], str ''server''})"
    using proxy_commands_injected [of 765 "0x11" "[?node]" "[1]" 1 "\<lambda>s. s" "[str '' a '']"]
    by (simp add: is_declare_commands_packet_def image_image)
  moreover have "trim (str '' a '') = str ''a''"
    by (simp add: trim_def trim_end_def trim_start_def whitespace_chars_def strip_all.simps [of _ "[32, 97, 32]"]
        strip_all.simps [of _ "[97, 32]"] strip_all.simps [of _ "[32, 97]"] strip_all.simps [of _ "[97]"]
        starts_with_def str_def of_char_def)
  then have "root_literals (\<lambda>s. s) [str '' a ''] = [str ''hub'', str ''lobby'', str ''steel'', str ''a'']"
    by (simp add: root_literals_def add_literal_def Let_def) (simp add: str_def)
  ultimately show ?thesis
    by (simp add: Let_def usize_as_i32_def upt_conv_Cons eval_nat_numeral)
qed

end
