(* ===== verification/Scripting.thy ===== *)
theory Scripting
  imports Text Btree "HOL-Library.AList" "HOL-Library.Multiset"
begin

text \<open>
  \<^verbatim>\<open>src/src/script/engine.rs\<close> and \<^verbatim>\<open>src/src/script/events.rs\<close>: the script host, the functions it registers for scripts,
  loading of scripts and plugins, and the evaluation of the three event hooks over all loaded plugins and the main
  script. The Rhai interpreter is a parameter (\<open>rhai\<close>): how it compiles a text, which functions a compiled script
  has, and what a call does to the state that the registered functions reach. The file system is a parameter too.

  Locks of \<^verbatim>\<open>std::sync\<close> are not poisoned (no holder of one panics). The \<^verbatim>\<open>HashMap\<close> of the plugin storage is the
  list of its entries in the order its iterator visits them. That order is unspecified: nothing here relies on one
  (\<open>hash_invar\<close> says only that no key occurs twice), and the runs of \<open>kv_runs\<close> may rearrange the entries at any time.
\<close>

section \<open>Values of the script language\<close>

text \<open>Other kinds of values (floats, characters, function pointers, ...) are opaque here: no code looks into them.\<close>

datatype dynamic =
    DUnit
  | DBool bool
  | DInt i64
  | DStr str
  | DArr "dynamic list"
  | DMap "(str \<times> dynamic) list"
  | DOther nat

type_synonym rhai_map = "(str, dynamic) btree"

fun as_bool :: "dynamic \<Rightarrow> bool option" where
  "as_bool (DBool b) = Some b"
| "as_bool _ = None"

fun into_string :: "dynamic \<Rightarrow> str option" where
  "into_string (DStr s) = Some s"
| "into_string _ = None"

fun into_map :: "dynamic \<Rightarrow> rhai_map option" where
  "into_map (DMap m) = Some m"
| "into_map _ = None"

fun into_array :: "dynamic \<Rightarrow> dynamic list option" where
  "into_array (DArr xs) = Some xs"
| "into_array _ = None"

section \<open>Functions registered for scripts\<close>

text \<open>\<^verbatim>\<open>HashMap\<close>: the entries in some order.\<close>

type_synonym ('k, 'v) hash_map = "('k \<times> 'v) list"

definition hash_invar :: "('k, 'v) hash_map \<Rightarrow> bool" where
  "hash_invar m \<longleftrightarrow> distinct (map fst m)"

text \<open>What the registered functions read and change. \<open>sw_clock\<close> is the system time in milliseconds since the
  epoch, \<open>None\<close> for a clock before it.\<close>

record script_world =
  sw_servers :: "str list"
  sw_default_server :: str
  sw_kv :: "(str, dynamic) hash_map"
  sw_clock :: "nat option"

definition get_servers :: "script_world \<Rightarrow> dynamic" where
  "get_servers w = DArr (map DStr (sw_servers w))"

definition get_default_server :: "script_world \<Rightarrow> dynamic" where
  "get_default_server w = DStr (sw_default_server w)"

definition server_exists :: "str \<Rightarrow> script_world \<Rightarrow> bool" where
  "server_exists name w = list_ex (\<lambda>s. eq_ignore_ascii_case s name) (sw_servers w)"

definition kv_set :: "str \<Rightarrow> dynamic \<Rightarrow> script_world \<Rightarrow> script_world" where
  "kv_set key v w = w\<lparr>sw_kv := AList.update key v (sw_kv w)\<rparr>"

definition kv_get :: "str \<Rightarrow> script_world \<Rightarrow> dynamic" where
  "kv_get key w = (case map_of (sw_kv w) key of Some v \<Rightarrow> v | None \<Rightarrow> DUnit)"

definition kv_has :: "str \<Rightarrow> script_world \<Rightarrow> bool" where
  "kv_has key w \<longleftrightarrow> map_of (sw_kv w) key \<noteq> None"

definition kv_remove :: "str \<Rightarrow> script_world \<Rightarrow> bool \<times> script_world" where
  "kv_remove key w = (kv_has key w, w\<lparr>sw_kv := AList.delete key (sw_kv w)\<rparr>)"

definition kv_keys :: "str \<Rightarrow> script_world \<Rightarrow> str list" where
  "kv_keys prefix w = sort (filter (\<lambda>k. prefix = [] \<or> starts_with k prefix) (map fst (sw_kv w)))"

definition kv_clear :: "script_world \<Rightarrow> script_world" where
  "kv_clear w = w\<lparr>sw_kv := []\<rparr>"

definition timestamp_sec :: "script_world \<Rightarrow> i64" where
  "timestamp_sec w = (case sw_clock w of Some ms \<Rightarrow> word_of_nat (ms div 1000) | None \<Rightarrow> 0)"

definition timestamp_ms :: "script_world \<Rightarrow> i64" where
  "timestamp_ms w = (case sw_clock w of Some ms \<Rightarrow> word_of_nat ms | None \<Rightarrow> 0)"

text \<open>The table of registered functions: name and arguments to result and new state; \<open>None\<close> where no function of
  that name and argument types is registered. The three logging functions have no effect in the model.\<close>

definition native :: "str \<Rightarrow> dynamic list \<Rightarrow> script_world \<Rightarrow> (dynamic \<times> script_world) option" where
  "native name args w =
     (case args of
        [] \<Rightarrow>
          if name = str ''get_servers'' then Some (get_servers w, w)
          else if name = str ''get_default_server'' then Some (get_default_server w, w)
          else if name = str ''kv_clear'' then Some (DUnit, kv_clear w)
          else if name = str ''timestamp_sec'' then Some (DInt (timestamp_sec w), w)
          else if name = str ''timestamp_ms'' then Some (DInt (timestamp_ms w), w)
          else None
      | [DStr s] \<Rightarrow>
          if name = str ''proxy_info'' \<or> name = str ''proxy_warn'' \<or> name = str ''proxy_error'' then Some (DUnit, w)
          else if name = str ''server_exists'' then Some (DBool (server_exists s w), w)
          else if name = str ''kv_get'' then Some (kv_get s w, w)
          else if name = str ''kv_has'' then Some (DBool (kv_has s w), w)
          else if name = str ''kv_remove'' then (case kv_remove s w of (b, w') \<Rightarrow> Some (DBool b, w'))
          else if name = str ''kv_keys'' then Some (DArr (map DStr (kv_keys s w)), w)
          else None
      | [DStr s, v] \<Rightarrow> if name = str ''kv_set'' then Some (DUnit, kv_set s v w) else None
      | _ \<Rightarrow> None)"

section \<open>The engine and the host\<close>

record engine_limits =
  max_operations :: nat
  max_call_levels :: nat
  max_string_size :: nat
  max_expr_depth :: nat
  max_function_expr_depth :: nat

definition script_limits :: engine_limits where
  "script_limits = \<lparr>max_operations = 50000, max_call_levels = 32, max_string_size = 1024,
     max_expr_depth = 128, max_function_expr_depth = 64\<rparr>"

type_synonym natives = "str \<Rightarrow> dynamic list \<Rightarrow> script_world \<Rightarrow> (dynamic \<times> script_world) option"

text \<open>The interpreter. Every run ends: \<^verbatim>\<open>max_operations\<close> turns a longer one into an error. \<open>rh_mismatch\<close> is the
  message of the error for a result of another type than the caller asked for.\<close>

record 'ast rhai =
  rh_default :: 'ast
  rh_functions :: "'ast \<Rightarrow> str list"
  rh_compile :: "engine_limits \<Rightarrow> str \<Rightarrow> str + 'ast"
  rh_call :: "engine_limits \<Rightarrow> natives \<Rightarrow> 'ast \<Rightarrow> str \<Rightarrow> dynamic list \<Rightarrow> script_world \<Rightarrow> (str + dynamic) \<times> script_world"
  rh_eval :: "engine_limits \<Rightarrow> natives \<Rightarrow> 'ast \<Rightarrow> script_world \<Rightarrow> (str + dynamic) \<times> script_world"
  rh_mismatch :: "dynamic \<Rightarrow> str"

record 'ast plugin_info =
  pi_name :: str
  pi_path :: str
  pi_ast :: 'ast

record 'ast script_host =
  sh_engine :: "'ast rhai"
  sh_ast :: 'ast
  sh_plugins :: "'ast plugin_info list"
  sh_world :: script_world

definition ScriptHost_new :: "'ast rhai \<Rightarrow> nat option \<Rightarrow> 'ast script_host" where
  "ScriptHost_new engine clock =
     \<lparr>sh_engine = engine, sh_ast = rh_default engine, sh_plugins = [],
      sh_world = \<lparr>sw_servers = [], sw_default_server = str ''lobby'', sw_kv = [], sw_clock = clock\<rparr>\<rparr>"

definition set_servers :: "str list \<Rightarrow> str \<Rightarrow> 'ast script_host \<Rightarrow> 'ast script_host" where
  "set_servers servers default_server h =
     h\<lparr>sh_world := (sh_world h)\<lparr>sw_servers := servers, sw_default_server := default_server\<rparr>\<rparr>"

text \<open>\<^verbatim>\<open>engine.call_fn::<T>\<close>: \<open>conv\<close> is the conversion to the type the caller asks for.\<close>

definition engine_call_fn ::
  "'ast rhai \<Rightarrow> (dynamic \<Rightarrow> 'b option) \<Rightarrow> 'ast \<Rightarrow> str \<Rightarrow> dynamic list \<Rightarrow> script_world \<Rightarrow> (str + 'b) \<times> script_world" where
  "engine_call_fn rh conv ast name args w =
     (case rh_call rh script_limits native ast name args w of
        (Inl e, w') \<Rightarrow> (Inl e, w')
      | (Inr d, w') \<Rightarrow> (case conv d of Some x \<Rightarrow> (Inr x, w') | None \<Rightarrow> (Inl (rh_mismatch rh d), w')))"

definition has_fn :: "'ast rhai \<Rightarrow> str \<Rightarrow> 'ast \<Rightarrow> bool" where
  "has_fn rh name ast = list_ex (\<lambda>f. f = name) (rh_functions rh ast)"

section \<open>Loading\<close>

text \<open>\<^verbatim>\<open>rsplit_once\<close> at a byte: what is before and what is behind its last occurrence.\<close>

definition split_last :: "u8 \<Rightarrow> str \<Rightarrow> (str \<times> str) option" where
  "split_last b s =
     (let behind = takeWhile (\<lambda>x. x \<noteq> b) (rev s) in
      if length behind = length s then None
      else Some (take (length s - length behind - 1) s, rev behind))"

text \<open>\<^verbatim>\<open>Path::file_name\<close>, \<^verbatim>\<open>file_stem\<close> and \<^verbatim>\<open>extension\<close> on Unix paths: trailing slashes and components \<^verbatim>\<open>.\<close> are
  skipped; a path that ends in \<^verbatim>\<open>..\<close> has no name; a leading dot does not start an extension.\<close>

fun path_parts :: "str \<Rightarrow> str \<Rightarrow> str list" where
  "path_parts acc [] = [rev acc]"
| "path_parts acc (b # bs) = (if b = 0x2F then rev acc # path_parts [] bs else path_parts (b # acc) bs)"

definition file_name :: "str \<Rightarrow> str option" where
  "file_name path =
     (case filter (\<lambda>c. c \<noteq> [] \<and> c \<noteq> str ''.'') (path_parts [] path) of
        [] \<Rightarrow> None
      | cs \<Rightarrow> if last cs = str ''..'' then None else Some (last cs))"

definition file_stem :: "str \<Rightarrow> str option" where
  "file_stem path =
     map_option (\<lambda>n. case split_last 0x2E n of None \<Rightarrow> n | Some (before, _) \<Rightarrow> if before = [] then n else before)
       (file_name path)"

definition extension :: "str \<Rightarrow> str option" where
  "extension path =
     Option.bind (file_name path) (\<lambda>n.
       case split_last 0x2E n of None \<Rightarrow> None | Some (before, behind) \<Rightarrow> if before = [] then None else Some behind)"

definition strip_bom :: "str \<Rightarrow> str" where
  "strip_bom s = (case strip_prefix [0xEF, 0xBB, 0xBF] s of Some r \<Rightarrow> r | None \<Rightarrow> s)"

text \<open>The files as the code sees them: \<open>pf_read\<close> is \<^verbatim>\<open>read_to_string\<close> with the kind and the message of its error,
  \<open>pf_create\<close> whether \<^verbatim>\<open>create_dir_all\<close> succeeds, \<open>pf_entries\<close> the paths that \<^verbatim>\<open>read_dir\<close> lists before its end or
  first error, each with \<^verbatim>\<open>is_file\<close>, or \<open>None\<close> when it fails.\<close>

record plugin_fs =
  pf_read :: "str \<Rightarrow> (io_kind \<times> str) + str"
  pf_exists :: "str \<Rightarrow> bool"
  pf_create :: "str \<Rightarrow> bool"
  pf_entries :: "str \<Rightarrow> (str \<times> bool) list option"

fun upsert_plugin :: "'ast plugin_info \<Rightarrow> 'ast plugin_info list \<Rightarrow> 'ast plugin_info list" where
  "upsert_plugin p [] = [p]"
| "upsert_plugin p (q # qs) =
     (if pi_name q = pi_name p then q\<lparr>pi_path := pi_path p, pi_ast := pi_ast p\<rparr> # qs else q # upsert_plugin p qs)"

definition load_plugin_file :: "plugin_fs \<Rightarrow> str \<Rightarrow> 'ast script_host \<Rightarrow> unit res \<times> 'ast script_host" where
  "load_plugin_file fs path h =
     (case pf_read fs path of
        Inl (kind, e) \<Rightarrow>
          (Inl (Io kind (str ''Failed to read plugin file at '' @ [0x27] @ path @ [0x27] @ str '': '' @ e)), h)
      | Inr script_content \<Rightarrow>
          let name = (case file_stem path of Some s \<Rightarrow> s | None \<Rightarrow> str ''plugin'') in
          (case rh_compile (sh_engine h) script_limits (strip_bom script_content) of
             Inl e \<Rightarrow> (Inl (ScriptError (str ''Failed to compile plugin '' @ [0x27] @ path @ [0x27] @ str '': '' @ e)), h)
           | Inr ast \<Rightarrow>
               (Inr (), h\<lparr>sh_plugins := upsert_plugin \<lparr>pi_name = name, pi_path = path, pi_ast = ast\<rparr> (sh_plugins h)\<rparr>)))"

fun load_files :: "plugin_fs \<Rightarrow> str list \<Rightarrow> nat \<Rightarrow> 'ast script_host \<Rightarrow> nat \<times> 'ast script_host" where
  "load_files fs [] loaded h = (loaded, h)"
| "load_files fs (file # files) loaded h =
     (case load_plugin_file fs file h of
        (Inr _, h') \<Rightarrow> load_files fs files (loaded + 1) h'
      | (Inl _, h') \<Rightarrow> load_files fs files loaded h')"

definition plugin_files :: "(str \<times> bool) list \<Rightarrow> str list" where
  "plugin_files entries =
     sort (map (\<lambda>(path, _). from_utf8_lossy path)
       (filter (\<lambda>(path, is_file). is_file \<and> extension path = Some (str ''rhai'')) entries))"

definition load_plugins_dir :: "plugin_fs \<Rightarrow> str \<Rightarrow> 'ast script_host \<Rightarrow> nat res \<times> 'ast script_host" where
  "load_plugins_dir fs dir_path h =
     (if \<not> pf_exists fs dir_path \<and> \<not> pf_create fs dir_path then (Inr 0, h)
      else
        (case pf_entries fs dir_path of
           None \<Rightarrow> (Inr 0, h)
         | Some entries \<Rightarrow> (case load_files fs (plugin_files entries) 0 h of (loaded, h') \<Rightarrow> (Inr loaded, h'))))"

definition load_script :: "str \<Rightarrow> 'ast script_host \<Rightarrow> unit res \<times> 'ast script_host" where
  "load_script script h =
     (case rh_compile (sh_engine h) script_limits script of
        Inl e \<Rightarrow> (Inl (ScriptError (str ''Failed to compile script: '' @ e)), h)
      | Inr new_ast \<Rightarrow> (Inr (), h\<lparr>sh_ast := new_ast\<rparr>))"

definition reload :: "plugin_fs \<Rightarrow> str \<Rightarrow> 'ast script_host \<Rightarrow> unit res \<times> 'ast script_host" where
  "reload fs path h =
     (case pf_read fs path of
        Inl (kind, e) \<Rightarrow>
          (Inl (Io kind (str ''Failed to read script file at '' @ [0x27] @ path @ [0x27] @ str '': '' @ e)), h)
      | Inr script_content \<Rightarrow>
          (case rh_compile (sh_engine h) script_limits (strip_bom script_content) of
             Inl e \<Rightarrow> (Inl (ScriptError (str ''Failed to compile script '' @ [0x27] @ path @ [0x27] @ str '': '' @ e)), h)
           | Inr new_ast \<Rightarrow> (Inr (), h\<lparr>sh_ast := new_ast\<rparr>)))"

definition eval_active :: "(dynamic \<Rightarrow> 'b option) \<Rightarrow> 'ast script_host \<Rightarrow> 'b res \<times> 'ast script_host" where
  "eval_active conv h =
     (case rh_eval (sh_engine h) script_limits native (sh_ast h) (sh_world h) of
        (Inl e, w) \<Rightarrow> (Inl (ScriptError (str ''Rhai execution error: '' @ e)), h\<lparr>sh_world := w\<rparr>)
      | (Inr d, w) \<Rightarrow>
          (case conv d of
             Some x \<Rightarrow> (Inr x, h\<lparr>sh_world := w\<rparr>)
           | None \<Rightarrow> (Inl (ScriptError (str ''Rhai execution error: '' @ rh_mismatch (sh_engine h) d)), h\<lparr>sh_world := w\<rparr>)))"

definition call_fn :: "(dynamic \<Rightarrow> 'b option) \<Rightarrow> str \<Rightarrow> dynamic list \<Rightarrow> 'ast script_host \<Rightarrow> 'b res \<times> 'ast script_host" where
  "call_fn conv fn_name args h =
     (case find (\<lambda>p. has_fn (sh_engine h) fn_name (pi_ast p)) (sh_plugins h) of
        Some p \<Rightarrow>
          (case engine_call_fn (sh_engine h) conv (pi_ast p) fn_name args (sh_world h) of
             (Inr x, w) \<Rightarrow> (Inr x, h\<lparr>sh_world := w\<rparr>)
           | (Inl e, w) \<Rightarrow>
               (Inl (ScriptError (str ''Rhai call to '' @ [0x27] @ fn_name @ [0x27] @ str '' in plugin '' @ [0x27]
                  @ pi_name p @ [0x27] @ str '' failed: '' @ e)), h\<lparr>sh_world := w\<rparr>))
      | None \<Rightarrow>
          (case engine_call_fn (sh_engine h) conv (sh_ast h) fn_name args (sh_world h) of
             (Inr x, w) \<Rightarrow> (Inr x, h\<lparr>sh_world := w\<rparr>)
           | (Inl e, w) \<Rightarrow>
               (Inl (ScriptError (str ''Rhai call to '' @ [0x27] @ fn_name @ [0x27] @ str '' failed: '' @ e)),
                h\<lparr>sh_world := w\<rparr>)))"

definition has_function :: "str \<Rightarrow> 'ast script_host \<Rightarrow> bool" where
  "has_function fn_name h \<longleftrightarrow>
     list_ex (\<lambda>p. has_fn (sh_engine h) fn_name (pi_ast p)) (sh_plugins h) \<or> has_fn (sh_engine h) fn_name (sh_ast h)"

section \<open>The plugin storage\<close>

lemma kv_set_kv [simp]: "sw_kv (kv_set k v w) = AList.update k v (sw_kv w)"
  by (simp add: kv_set_def)

lemma hash_invar_update [simp]: "hash_invar m \<Longrightarrow> hash_invar (AList.update k v m)"
  by (simp add: hash_invar_def distinct_update)

lemma hash_invar_delete [simp]: "hash_invar m \<Longrightarrow> hash_invar (AList.delete k m)"
  by (simp add: hash_invar_def distinct_delete)

lemma hash_invar_Nil [simp]: "hash_invar []"
  by (simp add: hash_invar_def)

interpretation kv: map_laws "sw_kv_empty\<lparr>sw_kv := []\<rparr>" kv_set "\<lambda>w. map_of (sw_kv w)" "\<lambda>w. hash_invar (sw_kv w)"
  for sw_kv_empty :: script_world
  by unfold_locales (auto simp: update_conv')

text \<open>What an iteration shows of a map does not depend on the order of its entries.\<close>

lemma hash_reorder:
  assumes "mset es = mset m" and "hash_invar m"
  shows "hash_invar es" "map_of es = map_of m"
proof -
  have "mset (map fst es) = mset (map fst m)" using assms(1) by simp
  with assms(2) show "hash_invar es" by (metis hash_invar_def mset_eq_imp_distinct_iff)
  with assms show "map_of es = map_of m"
    by (metis hash_invar_def map_of_inject_set set_mset_mset)
qed

lemma sorted_keys_of:
  assumes "hash_invar m"
  shows "sort (filter P (map fst m)) = sorted_list_of_set {k \<in> dom (map_of m). P k}"
proof -
  have "{k \<in> dom (map_of m). P k} = set (filter P (map fst m))"
    by (auto simp: dom_map_of_conv_image_fst)
  with assms show ?thesis
    by (simp add: hash_invar_def sorted_list_of_set_sort_remdups remdups_filter distinct_remdups_id
        del: filter_map set_filter)
qed

text \<open>The contract: the storage functions on a finite map.\<close>

definition kv_spec :: "str \<Rightarrow> dynamic list \<Rightarrow> (str \<rightharpoonup> dynamic) \<Rightarrow> (dynamic \<times> (str \<rightharpoonup> dynamic)) option" where
  "kv_spec name args m =
     (case args of
        [] \<Rightarrow> if name = str ''kv_clear'' then Some (DUnit, Map.empty) else None
      | [DStr s] \<Rightarrow>
          if name = str ''kv_get'' then Some (case m s of Some v \<Rightarrow> v | None \<Rightarrow> DUnit, m)
          else if name = str ''kv_has'' then Some (DBool (s \<in> dom m), m)
          else if name = str ''kv_remove'' then Some (DBool (s \<in> dom m), m(s := None))
          else if name = str ''kv_keys''
            then Some (DArr (map DStr (sorted_list_of_set {k \<in> dom m. starts_with k s})), m)
          else None
      | [DStr s, v] \<Rightarrow> if name = str ''kv_set'' then Some (DUnit, m(s \<mapsto> v)) else None
      | _ \<Rightarrow> None)"

text \<open>A run of registered functions: the calls with what they returned. Between two calls the entries of the storage may be
  rearranged in any way.\<close>

inductive kv_runs :: "script_world \<Rightarrow> (str \<times> dynamic list \<times> dynamic) list \<Rightarrow> script_world \<Rightarrow> bool" where
  finished: "kv_runs w [] w"
| rearranged: "mset es = mset (sw_kv w) \<Longrightarrow> kv_runs (w\<lparr>sw_kv := es\<rparr>) calls w' \<Longrightarrow> kv_runs w calls w'"
| called: "native name args w = Some (d, w1) \<Longrightarrow> kv_runs w1 calls w' \<Longrightarrow> kv_runs w ((name, args, d) # calls) w'"

text \<open>The calls are answered as the contract says, and the map at the end is the one it says; calls of functions that are
  not about the storage are left out.\<close>

fun kv_answered :: "(str \<rightharpoonup> dynamic) \<Rightarrow> (str \<times> dynamic list \<times> dynamic) list \<Rightarrow> (str \<rightharpoonup> dynamic) \<Rightarrow> bool" where
  "kv_answered m [] m' \<longleftrightarrow> m' = m"
| "kv_answered m ((name, args, d) # calls) m' \<longleftrightarrow>
     (case kv_spec name args m of
        Some (d1, m1) \<Rightarrow> d = d1 \<and> kv_answered m1 calls m'
      | None \<Rightarrow> kv_answered m calls m')"

text \<open>The functions one by one.\<close>

lemma kv_get_spec: "kv_get s w = (case map_of (sw_kv w) s of Some v \<Rightarrow> v | None \<Rightarrow> DUnit)"
  by (simp add: kv_get_def)

lemma kv_has_spec: "kv_has s w \<longleftrightarrow> s \<in> dom (map_of (sw_kv w))"
  by (simp add: kv_has_def domIff)

lemma kv_remove_spec: "kv_remove s w = (kv_has s w, w\<lparr>sw_kv := AList.delete s (sw_kv w)\<rparr>)"
  by (simp add: kv_remove_def)

lemma kv_keys_spec:
  assumes "hash_invar (sw_kv w)"
  shows "kv_keys prefix w = sorted_list_of_set {k \<in> dom (map_of (sw_kv w)). starts_with k prefix}"
proof -
  have "(\<lambda>k. prefix = [] \<or> starts_with k prefix) = (\<lambda>k. starts_with k prefix)"
    by auto
  then show ?thesis by (simp only: kv_keys_def sorted_keys_of [OF assms])
qed

lemma native_no_args:
  "native name [] w = Some (d, w1) \<Longrightarrow>
   (case kv_spec name [] (map_of (sw_kv w)) of Some r \<Rightarrow> (d, map_of (sw_kv w1)) = r | None \<Rightarrow> sw_kv w1 = sw_kv w)"
  by (auto simp: native_def kv_spec_def kv_clear_def split: if_splits)

lemma native_one_arg:
  assumes "hash_invar (sw_kv w)" and "native name [DStr s] w = Some (d, w1)"
  shows "case kv_spec name [DStr s] (map_of (sw_kv w)) of Some r \<Rightarrow> (d, map_of (sw_kv w1)) = r | None \<Rightarrow> sw_kv w1 = sw_kv w"
proof -
  consider "name = str ''kv_get''" | "name = str ''kv_has''" | "name = str ''kv_remove''" | "name = str ''kv_keys''"
    | "name \<noteq> str ''kv_get''" "name \<noteq> str ''kv_has''" "name \<noteq> str ''kv_remove''" "name \<noteq> str ''kv_keys''"
    by blast
  then show ?thesis
    using assms
    by cases (simp_all add: native_def kv_spec_def kv_get_spec kv_has_spec kv_remove_spec kv_keys_spec,
      auto simp: delete_conv' split: if_splits)
qed

lemma native_two_args:
  "native name [DStr s, v] w = Some (d, w1) \<Longrightarrow>
   (case kv_spec name [DStr s, v] (map_of (sw_kv w)) of Some r \<Rightarrow> (d, map_of (sw_kv w1)) = r | None \<Rightarrow> sw_kv w1 = sw_kv w)"
  by (auto simp: native_def kv_spec_def update_conv' split: if_splits)

lemma native_args:
  assumes "native name args w = Some r"
  obtains "args = []" | s where "args = [DStr s]" | s v where "args = [DStr s, v]"
proof (cases args)
  case (Cons a as)
  show ?thesis
  proof (cases as)
    case Nil
    with Cons assms that show ?thesis by (cases a) (simp_all add: native_def)
  next
    case as: (Cons b bs)
    with Cons assms that show ?thesis by (cases a; cases bs) (simp_all add: native_def)
  qed
qed (use that in blast)

lemma native_kv:
  assumes "hash_invar (sw_kv w)" and "native name args w = Some (d, w1)"
  shows "case kv_spec name args (map_of (sw_kv w)) of Some r \<Rightarrow> (d, map_of (sw_kv w1)) = r | None \<Rightarrow> sw_kv w1 = sw_kv w"
  using assms(2) by (rule native_args)
    (use assms in \<open>simp_all only: native_no_args native_one_arg native_two_args\<close>)

lemma native_cases:
  assumes "native name args w = Some (d, w')"
  obtains "w' = w" | "w' = kv_clear w" | k where "w' = snd (kv_remove k w)" | k v where "w' = kv_set k v w"
  using assms
  by (auto simp: native_def kv_remove_def split: list.splits dynamic.splits if_splits)

lemma native_hash_invar:
  assumes "hash_invar (sw_kv w)" and "native name args w = Some (d, w1)"
  shows "hash_invar (sw_kv w1)"
  using assms(2) by (cases rule: native_cases) (use assms(1) in \<open>simp_all add: kv_remove_def kv_clear_def\<close>)

text \<open>C22. The plugin storage is a map for scripts, whatever the order in which the hash table keeps its entries and however it
  rearranges them: in every run of registered functions each \<^verbatim>\<open>kv_get\<close> returns the value set last under the key and not
  removed or cleared since, or the unit value, \<^verbatim>\<open>kv_has\<close> and \<^verbatim>\<open>kv_remove\<close> say whether there is one, \<^verbatim>\<open>kv_remove\<close>
  removes exactly one key, and \<^verbatim>\<open>kv_keys\<close> lists exactly the keys with the prefix, each once, in increasing order.\<close>

theorem kv_storage_is_map:
  assumes "kv_runs w calls w'" and "hash_invar (sw_kv w)"
  shows "kv_answered (map_of (sw_kv w)) calls (map_of (sw_kv w')) \<and> hash_invar (sw_kv w')"
  using assms
proof (induction rule: kv_runs.induct)
  case (rearranged es w calls w')
  note same = hash_reorder [OF rearranged.hyps(1) rearranged.prems]
  from rearranged.IH same show ?case by simp
next
  case (called name args w d w1 calls w')
  from native_kv [OF called.prems called.hyps(1)] native_hash_invar [OF called.prems called.hyps(1)] called.IH
  show ?case
    by (auto split: option.splits prod.splits)
qed simp

theorem kv_storage_is_map_witness:
  "let w = \<lparr>sw_servers = [], sw_default_server = [], sw_kv = [(str ''b'', DUnit), (str ''a'', DBool True)], sw_clock = None\<rparr>
   in native (str ''kv_keys'') [DStr []] w = Some (DArr [DStr (str ''a''), DStr (str ''b'')], w)"
proof -
  let ?w = "\<lparr>sw_servers = [], sw_default_server = [], sw_kv = [(str ''b'', DUnit), (str ''a'', DBool True)], sw_clock = None\<rparr>"
  have i: "hash_invar (sw_kv ?w)" by (simp add: hash_invar_def str_def of_char_def)
  have n: "native (str ''kv_keys'') [DStr []] ?w = Some (DArr (map DStr (kv_keys [] ?w)), ?w)"
    by (simp add: native_def str_def of_char_def)
  have "kv_runs ?w [(str ''kv_keys'', [DStr []], DArr (map DStr (kv_keys [] ?w)))] ?w"
    by (rule kv_runs.called [OF n kv_runs.finished])
  from kv_storage_is_map [OF this i]
  have "map DStr (kv_keys [] ?w) = map DStr (sorted_list_of_set {k. k = str ''b'' \<or> k = str ''a''})"
    by (simp add: kv_spec_def)
  also have "{k. k = str ''b'' \<or> k = str ''a''} = insert (str ''a'') {str ''b''}"
    by auto
  also have "sorted_list_of_set (insert (str ''a'') {str ''b''}) = [str ''a'', str ''b'']"
    by (simp add: str_def of_char_def)
  finally show ?thesis by (simp add: Let_def n)
qed

section \<open>Loading plugins\<close>

definition plugin_names :: "'ast script_host \<Rightarrow> str list" where
  "plugin_names h = map pi_name (sh_plugins h)"

definition plugin_name :: "str \<Rightarrow> str" where
  "plugin_name path = (case file_stem path of Some s \<Rightarrow> s | None \<Rightarrow> str ''plugin'')"

definition loadable :: "plugin_fs \<Rightarrow> 'ast rhai \<Rightarrow> str \<Rightarrow> bool" where
  "loadable fs rh path =
     (case pf_read fs path of Inl _ \<Rightarrow> False | Inr s \<Rightarrow> is_ok (rh_compile rh script_limits (strip_bom s)))"

lemma names_upsert:
  "set (map pi_name (upsert_plugin p ps)) = insert (pi_name p) (set (map pi_name ps))"
  "distinct (map pi_name ps) \<Longrightarrow> distinct (map pi_name (upsert_plugin p ps))"
  by (induction p ps rule: upsert_plugin.induct) auto

lemma load_plugin_file_effect:
  assumes "load_plugin_file fs path h = (r, h')"
  shows "is_ok r \<longleftrightarrow> loadable fs (sh_engine h) path"
    and "\<not> is_ok r \<Longrightarrow> h' = h"
    and "sh_engine h' = sh_engine h" "sh_ast h' = sh_ast h" "sh_world h' = sh_world h"
    and "set (plugin_names h') = set (plugin_names h) \<union> (if is_ok r then {plugin_name path} else {})"
    and "distinct (plugin_names h) \<Longrightarrow> distinct (plugin_names h')"
  using assms
  by (auto simp: load_plugin_file_def loadable_def plugin_names_def plugin_name_def names_upsert Let_def
      simp del: set_map split: sum.splits prod.splits)

lemma load_files_effect:
  assumes "load_files fs files n h = (m, h')"
  shows "m = n + length (filter (loadable fs (sh_engine h)) files)
    \<and> sh_engine h' = sh_engine h \<and> sh_ast h' = sh_ast h \<and> sh_world h' = sh_world h
    \<and> set (plugin_names h') = set (plugin_names h) \<union> plugin_name ` set (filter (loadable fs (sh_engine h)) files)
    \<and> (distinct (plugin_names h) \<longrightarrow> distinct (plugin_names h'))"
  using assms
proof (induction files arbitrary: n h)
  case (Cons pl pls)
  obtain r h1 where l: "load_plugin_file fs pl h = (r, h1)" by (cases "load_plugin_file fs pl h")
  have "load_files fs pls (if is_ok r then n + 1 else n) h1 = (m, h')"
    using Cons.prems l by (cases r) auto
  from Cons.IH [OF this] load_plugin_file_effect [OF l] show ?case by auto
qed simp

text \<open>Loading a directory of plugins always succeeds. It reports the number of files with the extension \<^verbatim>\<open>rhai\<close> that can be
  read and compiled; afterwards exactly these are loaded besides what was loaded before, one plugin per
  name, and main script, engine and script state are untouched.\<close>

theorem plugins_dir_loaded:
  assumes "distinct (plugin_names h)" and "load_plugins_dir fs dir h = (r, h')"
    and "pf_exists fs dir" and "pf_entries fs dir = Some entries"
  shows "r = Inr (length (filter (loadable fs (sh_engine h)) (plugin_files entries)))
    \<and> distinct (plugin_names h')
    \<and> set (plugin_names h') =
        set (plugin_names h) \<union> plugin_name ` set (filter (loadable fs (sh_engine h)) (plugin_files entries))
    \<and> sh_ast h' = sh_ast h \<and> sh_engine h' = sh_engine h \<and> sh_world h' = sh_world h"
  using assms load_files_effect [of fs "plugin_files entries" 0 h]
  by (auto simp: load_plugins_dir_def split: prod.splits)

text \<open>A script for examples is the table of its functions with the value each returns; its text is the name of the
  only function, which returns the unit value.\<close>

definition example_rhai :: "(str \<times> dynamic) list rhai" where
  "example_rhai = \<lparr>rh_default = [], rh_functions = map fst, rh_compile = (\<lambda>_ s. if s = [] then Inl [] else Inr [(s, DUnit)]),
     rh_call = (\<lambda>_ _ ast f _ w. (case map_of ast f of Some d \<Rightarrow> Inr d | None \<Rightarrow> Inl f, w)),
     rh_eval = (\<lambda>_ _ ast w. (Inr DUnit, w)), rh_mismatch = (\<lambda>_. [])\<rparr>"

theorem plugins_dir_loaded_witness:
  "let fs = \<lparr>pf_read = (\<lambda>p. if p = str ''d/a.rhai'' then Inr (str ''f'') else Inr []), pf_exists = (\<lambda>_. True),
              pf_create = (\<lambda>_. True),
              pf_entries = (\<lambda>_. Some [(str ''d/b.rhai'', True), (str ''d/a.rhai'', True), (str ''d/c.txt'', True)])\<rparr>;
       h = load_plugins_dir fs (str ''d'') (ScriptHost_new example_rhai None)
   in fst h = Inr 1 \<and> plugin_names (snd h) = [str ''a'']"
proof -
  let ?fs = "\<lparr>pf_read = (\<lambda>p. if p = str ''d/a.rhai'' then Inr (str ''f'') else Inr []), pf_exists = (\<lambda>_. True),
              pf_create = (\<lambda>_. True),
              pf_entries = (\<lambda>_. Some [(str ''d/b.rhai'', True), (str ''d/a.rhai'', True), (str ''d/c.txt'', True)])\<rparr>"
  let ?host = "ScriptHost_new example_rhai None"
  let ?h = "load_plugins_dir ?fs (str ''d'') ?host"
  have ext: "extension (str ''d/b.rhai'') = Some (str ''rhai'')" "extension (str ''d/a.rhai'') = Some (str ''rhai'')"
    "extension (str ''d/c.txt'') = Some (str ''txt'')" "plugin_name (str ''d/a.rhai'') = str ''a''"
    by (simp_all add: extension_def plugin_name_def file_stem_def file_name_def split_last_def str_def of_char_def)
  have lossy: "from_utf8_lossy (str ''d/a.rhai'') = str ''d/a.rhai''" "from_utf8_lossy (str ''d/b.rhai'') = str ''d/b.rhai''"
    by (simp_all add: str_def of_char_def from_utf8_lossy.simps utf8_first_def)
  let ?files = "plugin_files [(str ''d/b.rhai'', True), (str ''d/a.rhai'', True), (str ''d/c.txt'', True)]"
  have le: "str ''d/a.rhai'' < str ''d/b.rhai''"
    by (simp add: str_def of_char_def)
  have files: "?files = [str ''d/a.rhai'', str ''d/b.rhai'']"
    using le by (simp add: plugin_files_def ext lossy)
  have ld: "filter (loadable ?fs (sh_engine ?host)) ?files = [str ''d/a.rhai'']"
    unfolding files
    by (simp add: loadable_def example_rhai_def ScriptHost_new_def strip_bom_def) (simp add: str_def of_char_def)
  have n0: "plugin_names ?host = []" by (simp add: plugin_names_def ScriptHost_new_def)
  obtain r h' where rh: "?h = (r, h')" by (cases ?h)
  have "distinct (plugin_names ?host)" by (simp add: n0)
  from plugins_dir_loaded [OF this rh, of "[(str ''d/b.rhai'', True), (str ''d/a.rhai'', True), (str ''d/c.txt'', True)]"]
  have r: "r = Inr 1" and d: "distinct (plugin_names h')" and s: "set (plugin_names h') = {str ''a''}"
    by (simp_all add: ld n0 ext)
  have "xs = [a]" if "distinct xs" "set xs = {a}" for xs and a :: str
    using that by (cases xs; cases "tl xs") auto
  from this [OF d s] have "plugin_names h' = [str ''a'']" .
  with r rh show ?thesis by (simp add: Let_def)
qed

end
