(* ===== verification/Script_Events.thy ===== *)
theory Script_Events
  imports Scripting
begin

text \<open>
  \<^verbatim>\<open>src/src/script/events.rs\<close>: the events handed to scripts, the results read from what they return, and the three
  hooks. Each hook runs over the loaded plugins in order and then over the main script, which the code writes
  as a loop followed by the same steps once more; here both are one recursion over the list of compiled scripts.

  The lemmas reduce each hook to the list of what the single scripts answer (\<open>answers\<close>): a join is refused by the
  first script that refuses it, a command is decided by the first script that cancels or reroutes it, and the
  suggestions are those of all scripts without repetitions.
\<close>

section \<open>Events and results\<close>

record join_event =
  je_player_name :: str
  je_uuid :: str
  je_ip :: str
  je_protocol_version :: i32

record join_result =
  jr_allow :: bool
  jr_disconnect_reason :: str
  jr_target_server :: str

definition join_result_default :: join_result where
  "join_result_default = \<lparr>jr_allow = True, jr_disconnect_reason = [], jr_target_server = []\<rparr>"

record command_event =
  ce_player_name :: str
  ce_command :: str
  ce_current_server :: str

definition PlayerCommandEvent_new :: "str \<Rightarrow> str \<Rightarrow> command_event" where
  "PlayerCommandEvent_new name command =
     \<lparr>ce_player_name = name, ce_command = command, ce_current_server = str ''lobby''\<rparr>"

record command_result =
  cr_cancel :: bool
  cr_reroute_server :: str
  cr_send_message :: str

definition command_result_default :: command_result where
  "command_result_default = \<lparr>cr_cancel = False, cr_reroute_server = [], cr_send_message = []\<rparr>"

record tab_event =
  te_player_name :: str
  te_command :: str
  te_current_server :: str

definition tab_event_map :: "tab_event \<Rightarrow> rhai_map" where
  "tab_event_map e =
     btree_insert (str ''current_server'') (DStr (te_current_server e))
      (btree_insert (str ''command'') (DStr (te_command e))
       (btree_insert (str ''player_name'') (DStr (te_player_name e)) []))"

definition join_event_map :: "join_event \<Rightarrow> rhai_map" where
  "join_event_map e =
     btree_insert (str ''protocol_version'') (DInt (scast (je_protocol_version e)))
      (btree_insert (str ''ip'') (DStr (je_ip e))
       (btree_insert (str ''uuid'') (DStr (je_uuid e))
        (btree_insert (str ''player_name'') (DStr (je_player_name e)) [])))"

definition bool_field :: "rhai_map \<Rightarrow> str \<Rightarrow> bool \<Rightarrow> bool" where
  "bool_field m key d = (case Option.bind (btree_get m key) as_bool of Some b \<Rightarrow> b | None \<Rightarrow> d)"

definition string_field :: "rhai_map \<Rightarrow> str \<Rightarrow> str" where
  "string_field m key =
     (case btree_get m key of
        Some v \<Rightarrow> (case into_string v of Some s \<Rightarrow> s | None \<Rightarrow> [])
      | None \<Rightarrow> [])"

definition join_result_from :: "rhai_map \<Rightarrow> join_result" where
  "join_result_from m =
     \<lparr>jr_allow = bool_field m (str ''allow'') True,
      jr_disconnect_reason = string_field m (str ''disconnect_reason''),
      jr_target_server = string_field m (str ''target_server'')\<rparr>"

definition command_event_map :: "command_event \<Rightarrow> rhai_map" where
  "command_event_map e =
     btree_insert (str ''current_server'') (DStr (ce_current_server e))
      (btree_insert (str ''command'') (DStr (ce_command e))
       (btree_insert (str ''player_name'') (DStr (ce_player_name e)) []))"

definition command_result_from :: "rhai_map \<Rightarrow> command_result" where
  "command_result_from m =
     \<lparr>cr_cancel = bool_field m (str ''cancel'') False,
      cr_reroute_server = string_field m (str ''reroute_server''),
      cr_send_message = string_field m (str ''send_message'')\<rparr>"

section \<open>Hooks\<close>

definition ON_PLAYER_JOIN :: str where "ON_PLAYER_JOIN = str ''on_player_join''"
definition ON_PLAYER_COMMAND :: str where "ON_PLAYER_COMMAND = str ''on_player_command''"
definition ON_TAB_COMPLETE :: str where "ON_TAB_COMPLETE = str ''on_tab_complete''"

text \<open>One script asked: \<open>None\<close> when it does not have the hook or the call fails (which is logged).\<close>

definition ask ::
  "'ast rhai \<Rightarrow> (dynamic \<Rightarrow> 'b option) \<Rightarrow> str \<Rightarrow> rhai_map \<Rightarrow> 'ast \<Rightarrow> script_world \<Rightarrow> 'b option \<times> script_world" where
  "ask rh conv hook event_map ast w =
     (if has_fn rh hook ast then
        (case engine_call_fn rh conv ast hook [DMap event_map] w of
           (Inr x, w') \<Rightarrow> (Some x, w')
         | (Inl e, w') \<Rightarrow> (None, w'))
      else (None, w))"

fun join_loop :: "'ast rhai \<Rightarrow> join_event \<Rightarrow> 'ast list \<Rightarrow> join_result \<Rightarrow> script_world \<Rightarrow> join_result \<times> script_world" where
  "join_loop rh event [] final_result w = (final_result, w)"
| "join_loop rh event (ast # asts) final_result w =
     (case ask rh into_map ON_PLAYER_JOIN (join_event_map event) ast w of
        (None, w') \<Rightarrow> join_loop rh event asts final_result w'
      | (Some m, w') \<Rightarrow>
          let res = join_result_from m in
          if \<not> jr_allow res then (res, w')
          else join_loop rh event asts
                 (if jr_target_server res \<noteq> [] then final_result\<lparr>jr_target_server := jr_target_server res\<rparr>
                  else final_result) w')"

fun command_loop :: "'ast rhai \<Rightarrow> command_event \<Rightarrow> 'ast list \<Rightarrow> script_world \<Rightarrow> command_result \<times> script_world" where
  "command_loop rh event [] w = (command_result_default, w)"
| "command_loop rh event (ast # asts) w =
     (case ask rh into_map ON_PLAYER_COMMAND (command_event_map event) ast w of
        (None, w') \<Rightarrow> command_loop rh event asts w'
      | (Some m, w') \<Rightarrow>
          let res = command_result_from m in
          if cr_cancel res \<or> cr_reroute_server res \<noteq> [] then (res, w')
          else command_loop rh event asts w')"

definition push_new :: "dynamic \<Rightarrow> str list \<Rightarrow> str list" where
  "push_new item results =
     (case into_string item of
        Some s \<Rightarrow> if s \<in> set results then results else results @ [s]
      | None \<Rightarrow> results)"

fun tab_loop :: "'ast rhai \<Rightarrow> tab_event \<Rightarrow> 'ast list \<Rightarrow> str list \<Rightarrow> script_world \<Rightarrow> str list \<times> script_world" where
  "tab_loop rh event [] results w = (results, w)"
| "tab_loop rh event (ast # asts) results w =
     (case ask rh into_array ON_TAB_COMPLETE (tab_event_map event) ast w of
        (None, w') \<Rightarrow> tab_loop rh event asts results w'
      | (Some arr, w') \<Rightarrow> tab_loop rh event asts (fold push_new arr results) w')"

definition scripts :: "'ast script_host \<Rightarrow> 'ast list" where
  "scripts h = map pi_ast (sh_plugins h) @ [sh_ast h]"

definition eval_join :: "join_event \<Rightarrow> 'ast script_host \<Rightarrow> join_result \<times> 'ast script_host" where
  "eval_join event h =
     (case join_loop (sh_engine h) event (scripts h) join_result_default (sh_world h) of
        (r, w) \<Rightarrow> (r, h\<lparr>sh_world := w\<rparr>))"

definition eval_command :: "command_event \<Rightarrow> 'ast script_host \<Rightarrow> command_result \<times> 'ast script_host" where
  "eval_command event h =
     (case command_loop (sh_engine h) event (scripts h) (sh_world h) of (r, w) \<Rightarrow> (r, h\<lparr>sh_world := w\<rparr>))"

definition eval_tab_complete :: "tab_event \<Rightarrow> 'ast script_host \<Rightarrow> str list \<times> 'ast script_host" where
  "eval_tab_complete event h =
     (case tab_loop (sh_engine h) event (scripts h) [] (sh_world h) of (r, w) \<Rightarrow> (r, h\<lparr>sh_world := w\<rparr>))"

section \<open>What the single scripts answer\<close>

fun answers ::
  "'ast rhai \<Rightarrow> (dynamic \<Rightarrow> 'b option) \<Rightarrow> str \<Rightarrow> rhai_map \<Rightarrow> 'ast list \<Rightarrow> script_world \<Rightarrow> 'b list" where
  "answers rh conv hook em [] w = []"
| "answers rh conv hook em (ast # asts) w =
     (case ask rh conv hook em ast w of
        (None, w') \<Rightarrow> answers rh conv hook em asts w'
      | (Some x, w') \<Rightarrow> x # answers rh conv hook em asts w')"

definition last_target :: "join_result list \<Rightarrow> str \<Rightarrow> str" where
  "last_target rs d = fold (\<lambda>r t. if jr_target_server r \<noteq> [] then jr_target_server r else t) rs d"

definition decisive :: "command_result \<Rightarrow> bool" where
  "decisive r \<longleftrightarrow> cr_cancel r \<or> cr_reroute_server r \<noteq> []"

lemma join_loop_answers:
  "fst (join_loop rh event asts final w) =
     (let rs = map join_result_from (answers rh into_map ON_PLAYER_JOIN (join_event_map event) asts w) in
      case find (\<lambda>r. \<not> jr_allow r) rs of
        Some r \<Rightarrow> r
      | None \<Rightarrow> final\<lparr>jr_target_server := last_target rs (jr_target_server final)\<rparr>)"
proof (induction asts arbitrary: final w)
  case (Cons ast asts)
  show ?case
    using Cons.IH by (auto simp: last_target_def Let_def split: prod.split option.split)
qed (simp add: last_target_def)

lemma command_loop_answers:
  "fst (command_loop rh event asts w) =
     (case find decisive
         (map command_result_from (answers rh into_map ON_PLAYER_COMMAND (command_event_map event) asts w)) of
        Some r \<Rightarrow> r
      | None \<Rightarrow> command_result_default)"
proof (induction asts arbitrary: w)
  case (Cons ast asts)
  obtain r w' where a: "ask rh into_map ON_PLAYER_COMMAND (command_event_map event) ast w = (r, w')"
    by (cases "ask rh into_map ON_PLAYER_COMMAND (command_event_map event) ast w")
  show ?case
    using Cons.IH [of w'] a by (cases r) (auto simp: decisive_def Let_def)
qed simp

lemma fold_push_new:
  "fold push_new arr results =
     fold (\<lambda>s rs. if s \<in> set rs then rs else rs @ [s]) (List.map_filter into_string arr) results"
  by (induction arr arbitrary: results) (auto simp: push_new_def List.map_filter_simps split: option.split)

lemma tab_loop_answers:
  "fst (tab_loop rh event asts results w) =
     fold push_new (concat (answers rh into_array ON_TAB_COMPLETE (tab_event_map event) asts w)) results"
  by (induction asts arbitrary: results w) (auto split: prod.split option.split)

text \<open>Appending only new elements keeps the first occurrence of each.\<close>

lemma append_new_first:
  "fold (\<lambda>s rs. if s \<in> set rs then rs else rs @ [s]) xs (rev (remdups (rev ys))) = rev (remdups (rev (ys @ xs)))"
proof (induction xs arbitrary: ys)
  case (Cons x xs)
  have "(if x \<in> set (rev (remdups (rev ys))) then rev (remdups (rev ys)) else rev (remdups (rev ys)) @ [x]) =
      rev (remdups (rev (ys @ [x])))"
    by simp
  then show ?case
    using Cons.IH [of "ys @ [x]"] by (simp only: fold_simps append.simps append_assoc)
qed simp

section \<open>Confinement\<close>

text \<open>While a script runs, registered functions are called and time passes.\<close>

inductive world_step :: "script_world \<Rightarrow> script_world \<Rightarrow> bool" where
  registered: "native name args w = Some (d, w') \<Longrightarrow> world_step w w'"
| tick: "world_step w (w\<lparr>sw_clock := t\<rparr>)"

text \<open>The documented behaviour of the sandbox: a script reaches the state of the host only through the registered
  functions.\<close>

definition sandboxed :: "'ast rhai \<Rightarrow> bool" where
  "sandboxed rh \<longleftrightarrow>
     (\<forall>ast name args w. world_step\<^sup>*\<^sup>* w (snd (rh_call rh script_limits native ast name args w)))
   \<and> (\<forall>ast w. world_step\<^sup>*\<^sup>* w (snd (rh_eval rh script_limits native ast w)))"

definition same_servers :: "script_world \<Rightarrow> script_world \<Rightarrow> bool" where
  "same_servers w w' \<longleftrightarrow> sw_servers w' = sw_servers w \<and> sw_default_server w' = sw_default_server w
     \<and> (hash_invar (sw_kv w) \<longrightarrow> hash_invar (sw_kv w'))"

lemma same_servers_refl [simp]: "same_servers w w"
  by (simp add: same_servers_def)

lemma same_servers_trans [trans]: "same_servers w w' \<Longrightarrow> same_servers w' w'' \<Longrightarrow> same_servers w w''"
  by (auto simp: same_servers_def)

lemma world_step_same_servers: "world_step w w' \<Longrightarrow> same_servers w w'"
proof (induction rule: world_step.induct)
  case (registered name args w d w')
  then show ?case
    by (cases rule: native_cases)
       (auto simp: same_servers_def kv_clear_def kv_remove_def kv_set_def)
qed (simp add: same_servers_def)

lemma world_steps_same_servers: "world_step\<^sup>*\<^sup>* w w' \<Longrightarrow> same_servers w w'"
  by (induction rule: rtranclp_induct) (auto intro: same_servers_trans world_step_same_servers)

lemma ask_same_servers: "sandboxed rh \<Longrightarrow> same_servers w (snd (ask rh conv hook em ast w))"
proof -
  assume "sandboxed rh"
  then have "same_servers w (snd (rh_call rh script_limits native ast hook [DMap em] w))"
    by (simp add: sandboxed_def world_steps_same_servers)
  then show ?thesis
    by (auto simp: ask_def engine_call_fn_def split: prod.splits sum.splits option.splits)
qed

lemma join_loop_same_servers: "sandboxed rh \<Longrightarrow> same_servers w (snd (join_loop rh event asts final w))"
proof (induction asts arbitrary: final w)
  case (Cons ast asts)
  then show ?case
    using ask_same_servers [OF Cons.prems, of w into_map ON_PLAYER_JOIN "join_event_map event" ast]
    by (auto simp: Let_def split: prod.split option.split intro: same_servers_trans)
qed simp

lemma command_loop_same_servers: "sandboxed rh \<Longrightarrow> same_servers w (snd (command_loop rh event asts w))"
proof (induction asts arbitrary: w)
  case (Cons ast asts)
  then show ?case
    using ask_same_servers [OF Cons.prems, of w into_map ON_PLAYER_COMMAND "command_event_map event" ast]
    by (auto simp: Let_def split: prod.split option.split intro: same_servers_trans)
qed simp

lemma tab_loop_same_servers: "sandboxed rh \<Longrightarrow> same_servers w (snd (tab_loop rh event asts results w))"
proof (induction asts arbitrary: results w)
  case (Cons ast asts)
  then show ?case
    using ask_same_servers [OF Cons.prems, of w into_array ON_TAB_COMPLETE "tab_event_map event" ast]
    by (auto split: prod.split option.split intro: same_servers_trans)
qed simp

text \<open>Running the hooks changes the host in nothing but the world of its scripts.\<close>

lemma eval_host:
  "snd (eval_join je h) = h\<lparr>sh_world := snd (join_loop (sh_engine h) je (scripts h) join_result_default (sh_world h))\<rparr>"
  "snd (eval_command ce h) = h\<lparr>sh_world := snd (command_loop (sh_engine h) ce (scripts h) (sh_world h))\<rparr>"
  "snd (eval_tab_complete te h) = h\<lparr>sh_world := snd (tab_loop (sh_engine h) te (scripts h) [] (sh_world h))\<rparr>"
  by (auto simp: eval_join_def eval_command_def eval_tab_complete_def split: prod.split)

lemma eval_fst:
  "fst (eval_join je h) = fst (join_loop (sh_engine h) je (scripts h) join_result_default (sh_world h))"
  "fst (eval_command ce h) = fst (command_loop (sh_engine h) ce (scripts h) (sh_world h))"
  "fst (eval_tab_complete te h) = fst (tab_loop (sh_engine h) te (scripts h) [] (sh_world h))"
  by (auto simp: eval_join_def eval_command_def eval_tab_complete_def split: prod.split)

section \<open>The hooks\<close>

text \<open>C20. A join is refused exactly when some script refuses it, with the result of the first that does, in the order of the
  plugins and the main script last; otherwise it is allowed, without a reason, and goes to the last server
  a script named.\<close>

theorem join_decided_by_scripts:
  "let rs = map join_result_from
              (answers (sh_engine h) into_map ON_PLAYER_JOIN (join_event_map event) (scripts h) (sh_world h))
   in fst (eval_join event h) =
      (case find (\<lambda>r. \<not> jr_allow r) rs of
         Some r \<Rightarrow> r
       | None \<Rightarrow> \<lparr>jr_allow = True, jr_disconnect_reason = [], jr_target_server = last_target rs []\<rparr>)"
  by (simp add: eval_fst join_loop_answers join_result_default_def Let_def split: option.split)

text \<open>C21. A command is decided by the first script whose answer is decisive, that is, cancels or reroutes it, and its whole answer counts. When no script does,
  the answer is the default one: a message from a script that neither cancels nor reroutes is not sent.\<close>

theorem command_decided_by_first_script:
  "let rs = map command_result_from
              (answers (sh_engine h) into_map ON_PLAYER_COMMAND (command_event_map event) (scripts h) (sh_world h))
   in fst (eval_command event h) =
      (case find decisive rs of
         Some r \<Rightarrow> r
       | None \<Rightarrow> \<lparr>cr_cancel = False, cr_reroute_server = [], cr_send_message = []\<rparr>)"
  by (simp add: eval_fst command_loop_answers command_result_default_def Let_def split: option.split)

text \<open>The suggestions are the strings among the answers of all scripts, in that order, each once at its first place.\<close>

theorem suggestions_of_all_scripts:
  "fst (eval_tab_complete event h) =
     rev (remdups (rev (List.map_filter into_string
       (concat (answers (sh_engine h) into_array ON_TAB_COMPLETE (tab_event_map event) (scripts h) (sh_world h))))))"
  using append_new_first [of _ "[]"] by (simp add: eval_fst tab_loop_answers fold_push_new)

text \<open>Scripts run by the hooks cannot change which scripts are loaded, the list of servers or the default server; all they
  change is the plugin storage, which stays well formed.\<close>

theorem scripts_are_confined:
  assumes "sandboxed (sh_engine h)"
    and "h' = snd (eval_join je h) \<or> h' = snd (eval_command ce h) \<or> h' = snd (eval_tab_complete te h)"
  shows "sh_engine h' = sh_engine h \<and> sh_plugins h' = sh_plugins h \<and> sh_ast h' = sh_ast h
    \<and> sw_servers (sh_world h') = sw_servers (sh_world h)
    \<and> sw_default_server (sh_world h') = sw_default_server (sh_world h)
    \<and> (hash_invar (sw_kv (sh_world h)) \<longrightarrow> hash_invar (sw_kv (sh_world h')))"
proof -
  have "same_servers (sh_world h) (sh_world h') \<and> (\<exists>w. h' = h\<lparr>sh_world := w\<rparr>)"
    using assms(2) join_loop_same_servers [OF assms(1)] command_loop_same_servers [OF assms(1)]
      tab_loop_same_servers [OF assms(1)]
    by (auto simp: eval_host)
  then show ?thesis by (auto simp: same_servers_def)
qed

theorem scripts_are_confined_witness:
  "let h = set_servers [str ''lobby''] (str ''lobby'') (ScriptHost_new example_rhai None)
   in sw_servers (sh_world (snd (eval_command (PlayerCommandEvent_new (str ''Steve'') (str ''hub'')) h))) = [str ''lobby'']"
proof -
  let ?h = "set_servers [str ''lobby''] (str ''lobby'') (ScriptHost_new example_rhai None)"
  have "sandboxed (sh_engine ?h)"
    by (simp add: sandboxed_def example_rhai_def set_servers_def ScriptHost_new_def)
  from scripts_are_confined [OF this disjI2 [OF disjI1 [OF refl]]]
  have "sw_servers (sh_world (snd (eval_command (PlayerCommandEvent_new (str ''Steve'') (str ''hub'')) ?h))) =
      sw_servers (sh_world ?h)"
    by blast
  moreover have "sw_servers (sh_world ?h) = [str ''lobby'']"
    by (simp add: set_servers_def)
  ultimately show ?thesis by (simp only: Let_def)
qed

end
