(* ===== verification/Play_Machine.thy ===== *)
theory Play_Machine
  imports Backend_Connector Declare_Commands Script_Events
begin

text \<open>
  \<^verbatim>\<open>PlayStateMachine\<close> of \<^verbatim>\<open>src/src/routing/state_machine.rs\<close>: the state of a player in the play state, every handler, and
  the routing loop. This theory holds the definitions; \<^verbatim>\<open>Play_Proofs\<close> holds what is proved of them.

  Every field of the struct is a field of the record \<open>play_machine\<close>. A \<^verbatim>\<open>HashSet\<close> is the list of its elements
  without repetitions, in the order it is drained, which Rust leaves open. Three fields stand for what the struct
  does not show: \<open>pm_attempts\<close> numbers the calls of the connector, so that every call may have another outcome,
  and \<open>pm_closed\<close> and \<open>pm_client_closed\<close> record which connections were shut down. Handlers have the type of a
  stateful operation: \<open>None\<close> for a wait without end, an error, or a value, and the machine afterwards.
\<close>

section \<open>State\<close>

record player_session =
  ps_profile :: player_profile
  ps_client_ip :: str
  ps_protocol_version :: i32
  ps_current_server :: str
  ps_registry_cache :: session_registry_cache

record 'ast play_machine =
  pm_client :: conn
  pm_backend :: "conn option"
  pm_connector :: "nat \<Rightarrow> connector"
  pm_session :: player_session
  pm_config :: proxy_config
  pm_script_host :: "'ast script_host"
  pm_client_threshold :: "nat option"
  pm_backend_threshold :: "nat option"
  pm_compression_threshold :: "nat option"
  pm_server_transferred :: bool
  pm_open_container_id :: "u8 option"
  pm_has_active_audio :: bool
  pm_boss_bars :: "uuid list"
  pm_objectives :: "str list"
  pm_display_slots :: "i32 list"
  pm_attempts :: nat
  pm_closed :: "conn list"
  pm_client_closed :: bool

text \<open>The libraries the handlers call: zlib, the JSON text of a message, and \<^verbatim>\<open>to_lowercase\<close>.\<close>

record play_env =
  pe_z :: zlib
  pe_json :: "str \<Rightarrow> str"
  pe_lower :: "str \<Rightarrow> str"

type_synonym ('ast, 'a) play = "'ast play_machine \<Rightarrow> 'a res option \<times> 'ast play_machine"

definition with_thresholds ::
  "conn \<Rightarrow> conn \<Rightarrow> (nat \<Rightarrow> connector) \<Rightarrow> player_session \<Rightarrow> proxy_config \<Rightarrow> 'ast script_host \<Rightarrow> nat option \<Rightarrow> nat option
     \<Rightarrow> 'ast play_machine" where
  "with_thresholds c b con session config host ct bt =
     \<lparr>pm_client = c, pm_backend = Some b, pm_connector = con, pm_session = session, pm_config = config,
      pm_script_host = host, pm_client_threshold = ct, pm_backend_threshold = bt, pm_compression_threshold = ct,
      pm_server_transferred = False, pm_open_container_id = None, pm_has_active_audio = False, pm_boss_bars = [],
      pm_objectives = [], pm_display_slots = [], pm_attempts = 0, pm_closed = [], pm_client_closed = False\<rparr>"

definition PlayStateMachine_new ::
  "conn \<Rightarrow> conn \<Rightarrow> (nat \<Rightarrow> connector) \<Rightarrow> player_session \<Rightarrow> proxy_config \<Rightarrow> 'ast script_host \<Rightarrow> nat option
     \<Rightarrow> 'ast play_machine" where
  "PlayStateMachine_new c b con session config host t = with_thresholds c b con session config host t t"

abbreviation pm_version :: "'ast play_machine \<Rightarrow> i32" where
  "pm_version pm \<equiv> ps_protocol_version (pm_session pm)"

abbreviation pm_server :: "'ast play_machine \<Rightarrow> str" where
  "pm_server pm \<equiv> ps_current_server (pm_session pm)"

section \<open>Writing to the two sides\<close>

definition on_client :: "'a io \<Rightarrow> ('ast, 'a) play" where
  "on_client m pm = (case m (pm_client pm) of (r, c) \<Rightarrow> (r, pm\<lparr>pm_client := c\<rparr>))"

definition write_client :: "play_env \<Rightarrow> raw_packet \<Rightarrow> ('ast, unit) play" where
  "write_client env pkt pm = on_client (write_packet_with_compression (pe_z env) pkt (pm_client_threshold pm)) pm"

text \<open>\<^verbatim>\<open>write_packet_with_compression(..).await?; let _ = flush(..).await;\<close>\<close>

definition send_client :: "play_env \<Rightarrow> raw_packet \<Rightarrow> ('ast, unit) play" where
  "send_client env pkt = bindS (write_client env pkt) (\<lambda>_. ignoreS (on_client flush))"

definition try_send_client :: "play_env \<Rightarrow> raw_packet \<Rightarrow> ('ast, unit) play" where
  "try_send_client env pkt = bindS (ignoreS (write_client env pkt)) (\<lambda>_. ignoreS (on_client flush))"

definition chat_packet :: "play_env \<Rightarrow> 'ast play_machine \<Rightarrow> str \<Rightarrow> raw_packet" where
  "chat_packet env pm msg =
     system_chat_encode_with_version (pe_json env) (pm_version pm) \<lparr>sc_message = msg, sc_overlay = False\<rparr>"

definition chat :: "play_env \<Rightarrow> str \<Rightarrow> ('ast, unit) play" where
  "chat env msg pm = send_client env (chat_packet env pm msg) pm"

definition try_chat :: "play_env \<Rightarrow> str \<Rightarrow> ('ast, unit) play" where
  "try_chat env msg pm = try_send_client env (chat_packet env pm msg) pm"

definition send_backend :: "play_env \<Rightarrow> raw_packet \<Rightarrow> ('ast, unit) play" where
  "send_backend env pkt pm =
     (case pm_backend pm of
        None \<Rightarrow> returnS () pm
      | Some b \<Rightarrow>
          (case bindS (write_packet_with_compression (pe_z env) pkt (pm_backend_threshold pm))
                  (\<lambda>_. ignoreS flush) b of
             (r, b') \<Rightarrow> (r, pm\<lparr>pm_backend := Some b'\<rparr>)))"

section \<open>Cleaning the player's screen\<close>

definition sanitize_screen :: "play_env \<Rightarrow> u8 \<Rightarrow> ('ast, unit) play" where
  "sanitize_screen env window_id pm =
     bindS (write_client env (close_container_encode_with_version (pm_version pm) \<lparr>clc_window_id = window_id\<rparr>))
       (\<lambda>_. on_client flush) (pm\<lparr>pm_open_container_id := None\<rparr>)"

definition stop_audio :: "play_env \<Rightarrow> ('ast, unit) play" where
  "stop_audio env pm =
     bindS (write_client env (stop_sound_encode_with_version (pm_version pm) stop_sound_all))
       (\<lambda>_. on_client flush) (pm\<lparr>pm_has_active_audio := False\<rparr>)"

definition clear_display_objective :: "play_env \<Rightarrow> i32 \<Rightarrow> ('ast, unit) play" where
  "clear_display_objective env position pm =
     bindS (write_client env (display_objective_encode_with_version (pm_version pm) (display_objective_clear position)))
       (\<lambda>_. on_client flush) (pm\<lparr>pm_display_slots := removeAll position (pm_display_slots pm)\<rparr>)"

fun try_write_each :: "play_env \<Rightarrow> raw_packet list \<Rightarrow> ('ast, unit) play" where
  "try_write_each env [] = returnS ()"
| "try_write_each env (p # ps) = bindS (ignoreS (write_client env p)) (\<lambda>_. try_write_each env ps)"

definition teardown_container :: "play_env \<Rightarrow> ('ast, unit) play" where
  "teardown_container env pm =
     (case pm_open_container_id pm of
        None \<Rightarrow> returnS () pm
      | Some window_id \<Rightarrow>
          ignoreS (write_client env (close_container_encode_with_version (pm_version pm) \<lparr>clc_window_id = window_id\<rparr>))
            (pm\<lparr>pm_open_container_id := None\<rparr>))"

definition teardown_audio :: "play_env \<Rightarrow> ('ast, unit) play" where
  "teardown_audio env pm =
     (if pm_has_active_audio pm then
        ignoreS (write_client env (stop_sound_encode_with_version (pm_version pm) stop_sound_all))
          (pm\<lparr>pm_has_active_audio := False\<rparr>)
      else returnS () pm)"

definition teardown_objectives :: "play_env \<Rightarrow> ('ast, unit) play" where
  "teardown_objectives env pm =
     try_write_each env
       (map (\<lambda>name. scoreboard_objective_encode_with_version (pm_version pm) (scoreboard_objective_remove name))
          (pm_objectives pm))
       (pm\<lparr>pm_objectives := []\<rparr>)"

definition teardown_display_slots :: "play_env \<Rightarrow> ('ast, unit) play" where
  "teardown_display_slots env pm =
     try_write_each env
       (map (\<lambda>slot. display_objective_encode_with_version (pm_version pm) (display_objective_clear slot))
          (pm_display_slots pm))
       (pm\<lparr>pm_display_slots := []\<rparr>)"

definition teardown_boss_bars :: "play_env \<Rightarrow> ('ast, unit) play" where
  "teardown_boss_bars env pm =
     try_write_each env
       (map (\<lambda>bar. boss_bar_encode_with_version (pm_version pm) (boss_bar_remove bar)) (pm_boss_bars pm))
       (pm\<lparr>pm_boss_bars := []\<rparr>)"

definition teardown_transferred_state :: "play_env \<Rightarrow> ('ast, unit) play" where
  "teardown_transferred_state env =
     bindS (teardown_container env) (\<lambda>_.
     bindS (teardown_audio env) (\<lambda>_.
     bindS (teardown_objectives env) (\<lambda>_.
     bindS (teardown_display_slots env) (\<lambda>_.
     bindS (teardown_boss_bars env) (\<lambda>_.
     ignoreS (on_client flush))))))"

section \<open>Changing the server\<close>

definition not_found_message :: "str \<Rightarrow> str" where
  "not_found_message target = section_sign @ str ''cServer '' @ [0x27] @ target @ [0x27] @ str '' not found.''"

definition could_not_connect :: "str \<Rightarrow> str \<Rightarrow> str" where
  "could_not_connect target reason =
     section_sign @ str ''cCould not connect to '' @ target @ str '': '' @ reason"

text \<open>The end of a transfer: the old backend is closed, the screen cleaned, the new backend attached.\<close>

definition attach_backend :: "play_env \<Rightarrow> str \<Rightarrow> conn \<Rightarrow> nat option \<Rightarrow> ('ast, bool) play" where
  "attach_backend env target nb thr pm =
     bindS (ignoreS (teardown_transferred_state env)) (\<lambda>_ pm.
       returnS True
         (pm\<lparr>pm_backend := Some nb, pm_backend_threshold := thr, pm_compression_threshold := pm_client_threshold pm,
             pm_session := (pm_session pm)\<lparr>ps_current_server := target\<rparr>, pm_server_transferred := True\<rparr>))
       (case pm_backend pm of
          None \<Rightarrow> pm
        | Some old_backend \<Rightarrow> pm\<lparr>pm_backend := None, pm_closed := old_backend # pm_closed pm\<rparr>)"

definition set_registry_cache :: "session_registry_cache \<Rightarrow> 'ast play_machine \<Rightarrow> 'ast play_machine" where
  "set_registry_cache cache pm = pm\<lparr>pm_session := (pm_session pm)\<lparr>ps_registry_cache := cache\<rparr>\<rparr>"

text \<open>From the connection on: the configuration phase, where the protocol has one, and the move.\<close>

definition complete_transfer :: "play_env \<Rightarrow> str \<Rightarrow> conn \<Rightarrow> nat option \<Rightarrow> ('ast, bool) play" where
  "complete_transfer env target_server new_backend thr pm =
     (if 764 \<le> sint (pm_version pm) then
        (case config_loop (pe_z env) (pm_version pm) thr new_backend (ps_registry_cache (pm_session pm)) of
           (None, _, cache) \<Rightarrow> (None, set_registry_cache cache pm)
         | (Some (Inl reason), _, cache) \<Rightarrow>
             bindS (try_chat env (could_not_connect target_server reason)) (\<lambda>_. returnS False)
               (set_registry_cache cache pm)
         | (Some (Inr _), new_backend, cache) \<Rightarrow>
             attach_backend env target_server new_backend thr (set_registry_cache cache pm))
      else attach_backend env target_server new_backend thr pm)"

definition switch_server :: "play_env \<Rightarrow> str \<Rightarrow> ('ast, bool) play" where
  "switch_server env target_server pm =
     (case map_of (pc_servers (pm_config pm)) target_server of
        None \<Rightarrow> bindS (chat env (not_found_message target_server)) (\<lambda>_. returnS False) pm
      | Some cfg \<Rightarrow>
          let outcome = pm_connector pm (pm_attempts pm) target_server cfg (ps_profile (pm_session pm))
                          (ps_client_ip (pm_session pm)) (pm_version pm);
              pm = pm\<lparr>pm_attempts := pm_attempts pm + 1\<rparr>
          in
          (case outcome of
             None \<Rightarrow> (None, pm)
           | Some (Inl e) \<Rightarrow>
               bindS (try_chat env (could_not_connect target_server (display_error e))) (\<lambda>_. returnS False) pm
           | Some (Inr (new_backend, thr)) \<Rightarrow> complete_transfer env target_server new_backend thr pm))"

section \<open>Packets of the client\<close>

text \<open>A command may come in a chat packet; then it counts only with a leading slash.\<close>

definition is_chat_packet :: "i32 \<Rightarrow> i32 \<Rightarrow> bool" where
  "is_chat_packet i v \<longleftrightarrow>
     (sint v < 766 \<and> i = 0x06)
     \<or> (766 \<le> sint v \<and> sint v < 768 \<and> i = 0x06)
     \<or> (768 \<le> sint v \<and> sint v < 776 \<and> i = 0x07)
     \<or> (776 \<le> sint v \<and> i = 0x09)"

text \<open>The command that a packet holds and the proxy looks at, if any.\<close>

definition intercepted_command :: "i32 \<Rightarrow> raw_packet \<Rightarrow> chat_command option" where
  "intercepted_command v packet =
     (if is_command_packet (rp_id packet) v then
        (case chat_command_decode_with_version v packet of
           Inl _ \<Rightarrow> None
         | Inr cmd \<Rightarrow>
             if \<not> is_chat_packet (rp_id packet) v \<or> starts_with (cc_command cmd) (str ''/'') then Some cmd else None)
      else None)"

text \<open>The rest of the command branch: \<open>True\<close> when the packet is done with.\<close>

definition run_command :: "play_env \<Rightarrow> chat_command \<Rightarrow> ('ast, bool) play" where
  "run_command env cmd pm =
     (let event = \<lparr>ce_player_name = pr_name (ps_profile (pm_session pm)), ce_command = normalized_command cmd,
                   ce_current_server = pm_server pm\<rparr>;
          (cmd_res, host) = eval_command event (pm_script_host pm)
      in
      bindS (if cr_send_message cmd_res \<noteq> [] then chat env (cr_send_message cmd_res) else returnS ()) (\<lambda>_.
      if cr_reroute_server cmd_res \<noteq> [] then
        bindS (switch_server env (cr_reroute_server cmd_res)) (\<lambda>_. returnS True)
      else returnS (cr_cancel cmd_res)) (pm\<lparr>pm_script_host := host\<rparr>))"

definition fallback_suggestions :: "str list \<Rightarrow> str \<Rightarrow> str list" where
  "fallback_suggestions servers cmd =
     (case strip_prefix (str ''/server '') cmd of
        Some arg \<Rightarrow>
          let arg = trim arg in filter (\<lambda>s_name. arg = [] \<or> starts_with s_name arg) servers
      | None \<Rightarrow>
          if cmd = str ''/server'' then [str ''/server'']
          else if cmd = str ''/'' then [str ''/server'', str ''/hub'', str ''/lobby'']
          else filter (\<lambda>s. starts_with s cmd) [str ''/server'', str ''/hub'', str ''/lobby''])"

definition completion_range :: "str \<Rightarrow> i32 \<times> i32" where
  "completion_range text =
     (case split_last 0x20 text of
        Some (before, _) \<Rightarrow> (usize_as_i32 (length before + 1), usize_as_i32 (length text - length before - 1))
      | None \<Rightarrow> (0, usize_as_i32 (length text)))"

definition answer_tab_complete :: "play_env \<Rightarrow> tab_complete_request \<Rightarrow> ('ast, bool) play" where
  "answer_tab_complete env req pm =
     (let event = \<lparr>te_player_name = pr_name (ps_profile (pm_session pm)), te_command = tcq_text req,
                   te_current_server = pm_server pm\<rparr>;
          (from_scripts, host) = eval_tab_complete event (pm_script_host pm);
          suggestions = (if from_scripts = [] then fallback_suggestions (map fst (pc_servers (pm_config pm))) (tcq_text req)
                         else from_scripts);
          (start, len) = completion_range (tcq_text req)
      in
      (if suggestions = [] then returnS False
       else
         bindS (send_client env (tab_complete_response_encode_with_version (pm_version pm)
                  \<lparr>tcr_transaction_id = tcq_transaction_id req, tcr_start = start, tcr_length = len, tcr_matches = suggestions\<rparr>))
           (\<lambda>_. returnS True)) (pm\<lparr>pm_script_host := host\<rparr>))"

definition intercepted_completion :: "i32 \<Rightarrow> raw_packet \<Rightarrow> tab_complete_request option" where
  "intercepted_completion v packet =
     (if is_tab_complete_request (rp_id packet) v then ok (tab_complete_request_decode v packet) else None)"

definition handle_client_packet :: "play_env \<Rightarrow> raw_packet \<Rightarrow> ('ast, bool) play" where
  "handle_client_packet env packet pm =
     (if is_protected_plugin_channel packet then returnS True pm
      else
        bindS (case intercepted_command (pm_version pm) packet of
                 Some cmd \<Rightarrow> run_command env cmd
               | None \<Rightarrow> returnS False) (\<lambda>handled.
        if handled then returnS True
        else
          bindS (case intercepted_completion (pm_version pm) packet of
                   Some req \<Rightarrow> answer_tab_complete env req
                 | None \<Rightarrow> returnS False) (\<lambda>handled.
          if handled then returnS True
          else bindS (send_backend env packet) (\<lambda>_. returnS True)))
        (if is_serverbound_close_container_packet (rp_id packet) (pm_version pm)
         then pm\<lparr>pm_open_container_id := None\<rparr> else pm))"

section \<open>Packets of the backend\<close>

text \<open>What the proxy notes of a packet before it passes it on.\<close>

definition track_container :: "raw_packet \<Rightarrow> 'ast play_machine \<Rightarrow> 'ast play_machine" where
  "track_container packet pm =
     (if is_open_window_packet (rp_id packet) (pm_version pm) then
        (case decode_varint (payload packet) of
           Inr (win_id, _) \<Rightarrow> pm\<lparr>pm_open_container_id := Some (ucast win_id)\<rparr>
         | Inl _ \<Rightarrow> pm)
      else if rp_id packet = close_container_id (pm_version pm) then pm\<lparr>pm_open_container_id := None\<rparr>
      else pm)"

definition track_audio :: "raw_packet \<Rightarrow> 'ast play_machine \<Rightarrow> 'ast play_machine" where
  "track_audio packet pm =
     (if is_sound_packet (rp_id packet) (pm_version pm) then pm\<lparr>pm_has_active_audio := True\<rparr>
      else if rp_id packet = stop_sound_id (pm_version pm) \<and> (payload packet \<noteq> [] \<and> hd (payload packet) = 0)
      then pm\<lparr>pm_has_active_audio := False\<rparr>
      else pm)"

definition track_boss_bars :: "raw_packet \<Rightarrow> 'ast play_machine \<Rightarrow> 'ast play_machine" where
  "track_boss_bars packet pm =
     (if rp_id packet = boss_bar_id (pm_version pm) then
        (case boss_bar_decode (pm_version pm) packet of
           Inl _ \<Rightarrow> pm
         | Inr bb \<Rightarrow>
             if bb_action bb = BOSS_BAR_ACTION_ADD then pm\<lparr>pm_boss_bars := List.insert (bb_uuid bb) (pm_boss_bars pm)\<rparr>
             else if bb_action bb = BOSS_BAR_ACTION_REMOVE
             then pm\<lparr>pm_boss_bars := removeAll (bb_uuid bb) (pm_boss_bars pm)\<rparr>
             else pm)
      else pm)"

definition track_objectives :: "raw_packet \<Rightarrow> 'ast play_machine \<Rightarrow> 'ast play_machine" where
  "track_objectives packet pm =
     (if rp_id packet = scoreboard_objective_id (pm_version pm) then
        (case scoreboard_objective_decode (pm_version pm) packet of
           Inl _ \<Rightarrow> pm
         | Inr obj \<Rightarrow>
             if so_action obj = OBJECTIVE_ACTION_CREATE then pm\<lparr>pm_objectives := List.insert (so_name obj) (pm_objectives pm)\<rparr>
             else if so_action obj = OBJECTIVE_ACTION_REMOVE
             then pm\<lparr>pm_objectives := removeAll (so_name obj) (pm_objectives pm)\<rparr>
             else pm)
      else pm)"

definition track_display_slots :: "raw_packet \<Rightarrow> 'ast play_machine \<Rightarrow> 'ast play_machine" where
  "track_display_slots packet pm =
     (if rp_id packet = display_objective_id (pm_version pm) then
        (case display_objective_decode (pm_version pm) packet of
           Inl _ \<Rightarrow> pm
         | Inr disp \<Rightarrow>
             if do_name disp = [] then pm\<lparr>pm_display_slots := removeAll (do_position disp) (pm_display_slots pm)\<rparr>
             else pm\<lparr>pm_display_slots := List.insert (do_position disp) (pm_display_slots pm)\<rparr>)
      else pm)"

definition track :: "raw_packet \<Rightarrow> 'ast play_machine \<Rightarrow> 'ast play_machine" where
  "track packet pm =
     track_display_slots packet (track_objectives packet (track_boss_bars packet
       (track_audio packet (track_container packet pm))))"

definition is_play_disconnect :: "raw_packet \<Rightarrow> bool" where
  "is_play_disconnect packet \<longleftrightarrow> rp_id packet = 0x1A \<or> rp_id packet = 0x1B"

definition handle_disconnect :: "play_env \<Rightarrow> ('ast, bool) play" where
  "handle_disconnect env pm =
     (if pm_server pm \<noteq> pc_default_server (pm_config pm) then
        bindS (try_chat env (section_sign @ str ''eDisconnected from '' @ pm_server pm
                 @ str ''. Reconnecting to fallback server...''))
          (\<lambda>_. switch_server env (pc_default_server (pm_config pm))) pm
      else failS (BackendConnectionFailed (str ''Fallback server disconnected'')) pm)"

text \<open>The packet sent in place of the join game packet of a new server.\<close>

definition transfer_respawn :: "i32 \<Rightarrow> raw_packet \<Rightarrow> raw_packet" where
  "transfer_respawn v packet =
     (let data_kept = (if 764 \<le> sint v then KEEP_ATTRIBUTES OR KEEP_METADATA else 0x01) in
      case extract_respawn_from_login_with_data_kept packet v data_kept of
        Some respawn_pkt \<Rightarrow> respawn_pkt
      | None \<Rightarrow> respawn_encode_with_version v (respawn_default_reset\<lparr>rs_data_kept := data_kept\<rparr>))"

definition handle_login_play :: "play_env \<Rightarrow> raw_packet \<Rightarrow> ('ast, bool) play" where
  "handle_login_play env packet pm =
     (if pm_server_transferred pm then
        bindS (send_client env (transfer_respawn (pm_version pm) packet)) (\<lambda>_. returnS True)
          (pm\<lparr>pm_server_transferred := False\<rparr>)
      else bindS (send_client env packet) (\<lambda>_. returnS True) pm)"

definition with_proxy_commands :: "play_env \<Rightarrow> 'ast play_machine \<Rightarrow> raw_packet \<Rightarrow> raw_packet" where
  "with_proxy_commands env pm packet =
     (case inject_proxy_commands_into_declare_commands (pe_lower env) packet (pm_version pm)
             (sort (map fst (pc_servers (pm_config pm)))) of
        Inr injected \<Rightarrow> injected
      | Inl _ \<Rightarrow> packet)"

definition handle_backend_packet :: "play_env \<Rightarrow> raw_packet \<Rightarrow> ('ast, bool) play" where
  "handle_backend_packet env packet pm =
     (if is_protected_plugin_channel packet then returnS True pm
      else
        let pm = track packet pm in
        if is_play_disconnect packet then handle_disconnect env pm
        else if is_login_play_packet (rp_id packet) (pm_version pm) then handle_login_play env packet pm
        else if is_declare_commands_packet (rp_id packet) (pm_version pm) then
          bindS (send_client env (with_proxy_commands env pm packet)) (\<lambda>_. returnS True) pm
        else bindS (send_client env packet) (\<lambda>_. returnS True) pm)"

definition handle_backend_eof :: "play_env \<Rightarrow> ('ast, bool) play" where
  "handle_backend_eof env pm =
     (if pm_server pm \<noteq> pc_default_server (pm_config pm) then
        bindS (try_chat env (section_sign @ str ''eLost connection to '' @ pm_server pm
                 @ str ''. Returning to fallback server...''))
          (\<lambda>_. switch_server env (pc_default_server (pm_config pm))) pm
      else returnS False pm)"

section \<open>The routing loop\<close>

text \<open>
  A run of the loop is driven by a list of events: a peer sends bytes or closes its side, or one branch of
  \<^verbatim>\<open>select!\<close> completes. The flags of a branch say of each losing branch whether it was polled before, which takes
  from its connection the bytes of an incomplete frame. A branch whose read is not complete does not complete the
  \<^verbatim>\<open>select!\<close>: its event changes nothing.
\<close>

datatype loop_event =
    ClientSends bytes
  | BackendSends bytes
  | ClientCloses in_end
  | BackendCloses in_end
  | ClientTurn bool
  | BackendTurn bool
  | ShutdownTurn bool bool

datatype loop_state = Running | Done "unit res" | Stuck

definition dropped_read :: "zlib \<Rightarrow> nat option \<Rightarrow> bool \<Rightarrow> conn \<Rightarrow> conn" where
  "dropped_read z thr polled c =
     (case read_packet_with_compression z DEFAULT_MAX_PACKET_SIZE thr c of
        (None, c') \<Rightarrow> if polled then c' else c
      | _ \<Rightarrow> c)"

text \<open>Behind the loop both connections are shut down.\<close>

definition leave_loop :: "'ast play_machine \<Rightarrow> loop_state \<times> 'ast play_machine" where
  "leave_loop pm =
     (let pm = pm\<lparr>pm_client_closed := True\<rparr> in
      (Done (Inr ()),
       case pm_backend pm of
         None \<Rightarrow> pm
       | Some b \<Rightarrow> pm\<lparr>pm_backend := None, pm_closed := b # pm_closed pm\<rparr>))"

text \<open>What the loop makes of the result of a handler.\<close>

definition after_handler :: "bool res option \<times> 'ast play_machine \<Rightarrow> loop_state \<times> 'ast play_machine" where
  "after_handler r =
     (case r of
        (None, pm) \<Rightarrow> (Stuck, pm)
      | (Some (Inl e), pm) \<Rightarrow> (Done (Inl e), pm)
      | (Some (Inr go_on), pm) \<Rightarrow> if go_on then (Running, pm) else leave_loop pm)"

definition client_turn :: "play_env \<Rightarrow> bool \<Rightarrow> conn \<Rightarrow> 'ast play_machine \<Rightarrow> loop_state \<times> 'ast play_machine" where
  "client_turn env polled b pm =
     (case read_packet_with_compression (pe_z env) DEFAULT_MAX_PACKET_SIZE (pm_client_threshold pm) (pm_client pm) of
        (None, _) \<Rightarrow> (Running, pm)
      | (Some r, c) \<Rightarrow>
          let pm = pm\<lparr>pm_client := c, pm_backend := Some (dropped_read (pe_z env) (pm_backend_threshold pm) polled b)\<rparr> in
          (case r of
             Inl e \<Rightarrow> leave_loop pm
           | Inr packet \<Rightarrow> after_handler (handle_client_packet env packet pm)))"

definition backend_turn :: "play_env \<Rightarrow> bool \<Rightarrow> conn \<Rightarrow> 'ast play_machine \<Rightarrow> loop_state \<times> 'ast play_machine" where
  "backend_turn env polled b pm =
     (case read_packet_with_compression (pe_z env) DEFAULT_MAX_PACKET_SIZE (pm_backend_threshold pm) b of
        (None, _) \<Rightarrow> (Running, pm)
      | (Some r, b') \<Rightarrow>
          let pm = pm\<lparr>pm_backend := Some b',
                       pm_client := dropped_read (pe_z env) (pm_client_threshold pm) polled (pm_client pm)\<rparr> in
          (case r of
             Inl e \<Rightarrow> after_handler (handle_backend_eof env pm)
           | Inr packet \<Rightarrow>
               if is_protected_plugin_channel packet then (Running, pm)
               else after_handler (handle_backend_packet env packet pm)))"

definition shutdown_turn :: "play_env \<Rightarrow> bool \<Rightarrow> bool \<Rightarrow> conn \<Rightarrow> 'ast play_machine \<Rightarrow> loop_state \<times> 'ast play_machine" where
  "shutdown_turn env cp bp b pm =
     (let pm = pm\<lparr>pm_client := dropped_read (pe_z env) (pm_client_threshold pm) cp (pm_client pm),
                  pm_backend := Some (dropped_read (pe_z env) (pm_backend_threshold pm) bp b)\<rparr>;
          pkt = disconnect_encode_for_client (pe_json env)
                  \<lparr>dc_reason = section_sign @ str ''cServer is shutting down''\<rparr> (pm_version pm) True
      in after_handler (bindS (try_send_client env pkt) (\<lambda>_. returnS False) pm))"

definition run_turn :: "play_env \<Rightarrow> loop_event \<Rightarrow> 'ast play_machine \<Rightarrow> loop_state \<times> 'ast play_machine" where
  "run_turn env ev pm =
     (case pm_backend pm of
        None \<Rightarrow> leave_loop pm
      | Some b \<Rightarrow>
          (case ev of
             ClientSends bs \<Rightarrow> (Running, pm\<lparr>pm_client := (pm_client pm)\<lparr>inb := inb (pm_client pm) @ bs\<rparr>\<rparr>)
           | BackendSends bs \<Rightarrow> (Running, pm\<lparr>pm_backend := Some (b\<lparr>inb := inb b @ bs\<rparr>)\<rparr>)
           | ClientCloses fin \<Rightarrow> (Running, pm\<lparr>pm_client := (pm_client pm)\<lparr>in_end := fin\<rparr>\<rparr>)
           | BackendCloses fin \<Rightarrow> (Running, pm\<lparr>pm_backend := Some (b\<lparr>in_end := fin\<rparr>)\<rparr>)
           | ClientTurn polled \<Rightarrow> client_turn env polled b pm
           | BackendTurn polled \<Rightarrow> backend_turn env polled b pm
           | ShutdownTurn cp bp \<Rightarrow> shutdown_turn env cp bp b pm))"

fun run :: "play_env \<Rightarrow> loop_event list \<Rightarrow> 'ast play_machine \<Rightarrow> loop_state \<times> 'ast play_machine" where
  "run env [] pm = (Running, pm)"
| "run env (ev # evs) pm =
     (case run_turn env ev pm of
        (Running, pm') \<Rightarrow> run env evs pm'
      | (Done r, pm') \<Rightarrow> (Done r, pm')
      | (Stuck, pm') \<Rightarrow> (Stuck, pm'))"

end
