(* ===== verification/Play_Proofs.thy ===== *)
theory Play_Proofs
  imports Play_Machine
begin

text \<open>
  What is proved of \<^verbatim>\<open>PlayStateMachine\<close>: which part of the state each handler can change, what a transfer does on every
  path, that the tracking of the player's screen is right and cleaning it is complete, that protected channels and
  join game packets of new servers do not get through, and the invariants of the routing loop.
\<close>

section \<open>Operations that touch the client connection only\<close>

definition client_only :: "('ast, 'a) play \<Rightarrow> bool" where
  "client_only m \<longleftrightarrow> (\<forall>pm. \<exists>c. snd (m pm) = pm\<lparr>pm_client := c\<rparr>)"

lemma client_only_apply: "client_only m \<Longrightarrow> m pm = (r, pm') \<Longrightarrow> \<exists>c. pm' = pm\<lparr>pm_client := c\<rparr>"
  unfolding client_only_def by (metis snd_conv)

lemma client_only_on_client: "client_only (on_client m)"
  by (auto simp: client_only_def on_client_def split: prod.split)

lemma client_only_returnS: "client_only (returnS x)"
proof -
  have "pm = pm\<lparr>pm_client := pm_client pm\<rparr>" for pm :: "'a play_machine" by simp
  then show ?thesis unfolding client_only_def returnS_def by (metis snd_conv)
qed

lemma client_only_failS: "client_only (failS e)"
proof -
  have "pm = pm\<lparr>pm_client := pm_client pm\<rparr>" for pm :: "'a play_machine" by simp
  then show ?thesis unfolding client_only_def failS_def by (metis snd_conv)
qed

lemma client_only_bindS:
  assumes m: "client_only m" and f: "\<And>x. client_only (f x)"
  shows "client_only (bindS m f)"
  unfolding client_only_def
proof
  fix pm
  obtain r pm1 where r: "m pm = (r, pm1)" by (cases "m pm")
  with m obtain c where c: "pm1 = pm\<lparr>pm_client := c\<rparr>" by (auto dest: client_only_apply)
  show "\<exists>c. snd (bindS m f pm) = pm\<lparr>pm_client := c\<rparr>"
  proof (cases r)
    case None
    with r c show ?thesis by (auto simp: bindS_def)
  next
    case (Some x)
    show ?thesis
    proof (cases x)
      case (Inl e)
      with r c Some show ?thesis by (auto simp: bindS_def)
    next
      case (Inr y)
      from f [of y] obtain d where "snd (f y pm1) = pm1\<lparr>pm_client := d\<rparr>" by (auto simp: client_only_def)
      with r c Some Inr show ?thesis by (auto simp: bindS_def)
    qed
  qed
qed

lemma client_only_ignoreS: "client_only m \<Longrightarrow> client_only (ignoreS m)"
  unfolding client_only_def
proof
  fix pm
  assume "\<forall>pm. \<exists>c. snd (m pm) = pm\<lparr>pm_client := c\<rparr>"
  moreover have "snd (ignoreS m pm) = snd (m pm)"
    by (simp add: ignoreS_def split: prod.split option.split)
  ultimately show "\<exists>c. snd (ignoreS m pm) = pm\<lparr>pm_client := c\<rparr>" by simp
qed

lemma client_only_write_client: "client_only (write_client env pkt)"
  by (auto simp: client_only_def write_client_def on_client_def split: prod.split)

lemma client_only_send: "client_only (send_client env pkt)" "client_only (try_send_client env pkt)"
  unfolding send_client_def try_send_client_def
  by (intro client_only_bindS client_only_write_client client_only_ignoreS client_only_on_client)+

lemma client_only_chat: "client_only (chat env msg)" "client_only (try_chat env msg)"
  using client_only_send unfolding client_only_def chat_def try_chat_def by blast+

lemma client_only_try_write_each: "client_only (try_write_each env ps)"
  by (induction ps) (auto intro: client_only_returnS client_only_bindS client_only_ignoreS client_only_write_client)

lemma client_only_if: "(b \<Longrightarrow> client_only m) \<Longrightarrow> (\<not> b \<Longrightarrow> client_only m') \<Longrightarrow> client_only (if b then m else m')"
  by simp

lemmas client_only_intros = client_only_returnS client_only_failS client_only_bindS client_only_ignoreS
  client_only_write_client client_only_send client_only_chat client_only_try_write_each client_only_on_client client_only_if

section \<open>Results of operations whose result is ignored\<close>

definition never_fails :: "('s \<Rightarrow> 'a res option \<times> 's) \<Rightarrow> bool" where
  "never_fails m \<longleftrightarrow> (\<forall>s e. fst (m s) \<noteq> Some (Inl e))"

lemma never_fails_ignoreS [simp]: "never_fails (ignoreS m)"
  by (auto simp: never_fails_def ignoreS_def split: prod.splits option.splits)

lemma never_fails_returnS [simp]: "never_fails (returnS x)"
  by (simp add: never_fails_def returnS_def)

lemma never_fails_bindS [intro]: "never_fails m \<Longrightarrow> (\<And>x. never_fails (f x)) \<Longrightarrow> never_fails (bindS m f)"
  unfolding never_fails_def bindS_def by (auto split: prod.splits option.splits sum.splits) (metis fst_conv)+

lemma never_fails_try_send: "never_fails (try_send_client env pkt)"
  unfolding try_send_client_def by (intro never_fails_bindS) simp_all

lemma never_fails_try_chat: "never_fails (try_chat env msg)"
  using never_fails_try_send by (auto simp: never_fails_def try_chat_def)

section \<open>Cleaning the screen\<close>

definition clean :: "'ast play_machine \<Rightarrow> 'ast play_machine" where
  "clean pm = pm\<lparr>pm_open_container_id := None, pm_has_active_audio := False, pm_objectives := [],
     pm_display_slots := [], pm_boss_bars := []\<rparr>"

text \<open>The packets that cleaning sends, in order.\<close>

definition teardown_packets :: "'ast play_machine \<Rightarrow> raw_packet list" where
  "teardown_packets pm =
     (case pm_open_container_id pm of
        None \<Rightarrow> []
      | Some w \<Rightarrow> [close_container_encode_with_version (pm_version pm) \<lparr>clc_window_id = w\<rparr>])
     @ (if pm_has_active_audio pm then [stop_sound_encode_with_version (pm_version pm) stop_sound_all] else [])
     @ map (\<lambda>n. scoreboard_objective_encode_with_version (pm_version pm) (scoreboard_objective_remove n)) (pm_objectives pm)
     @ map (\<lambda>s. display_objective_encode_with_version (pm_version pm) (display_objective_clear s)) (pm_display_slots pm)
     @ map (\<lambda>u. boss_bar_encode_with_version (pm_version pm) (boss_bar_remove u)) (pm_boss_bars pm)"

lemma never_fails_try_write_each: "never_fails (try_write_each env ps)"
  by (induction ps) auto

text \<open>Operations that write to the client and ignore what happens.\<close>

definition quiet :: "('ast, unit) play \<Rightarrow> bool" where
  "quiet m \<longleftrightarrow> client_only m \<and> never_fails m"

lemma quiet_intros [intro]:
  "quiet (returnS ())" "client_only m \<Longrightarrow> quiet (ignoreS m)" "quiet (try_write_each env ps)"
  by (simp_all add: quiet_def client_only_intros never_fails_try_write_each)

lemma quiet_apply: "quiet m \<Longrightarrow> m pm = (Some r, pm') \<Longrightarrow> \<exists>c. r = Inr () \<and> pm' = pm\<lparr>pm_client := c\<rparr>"
proof -
  assume q: "quiet m" and m: "m pm = (Some r, pm')"
  then have "fst (m pm) \<noteq> Some (Inl e)" for e
    unfolding quiet_def never_fails_def by blast
  with m have "r = Inr ()" by (cases r) auto
  with client_only_apply [of m pm "Some r" pm'] q m show ?thesis by (auto simp: quiet_def)
qed

lemma teardown_container_alt:
  "teardown_container env pm =
     (case pm_open_container_id pm of
        None \<Rightarrow> returnS ()
      | Some window_id \<Rightarrow>
          ignoreS (write_client env (close_container_encode_with_version (pm_version pm) \<lparr>clc_window_id = window_id\<rparr>)))
     (pm\<lparr>pm_open_container_id := None\<rparr>)"
  by (cases pm) (simp add: teardown_container_def split: option.split)

lemma teardown_audio_alt:
  "teardown_audio env pm =
     (if pm_has_active_audio pm
      then ignoreS (write_client env (stop_sound_encode_with_version (pm_version pm) stop_sound_all))
      else returnS ()) (pm\<lparr>pm_has_active_audio := False\<rparr>)"
  by (cases pm) (simp add: teardown_audio_def)

lemma teardown_stages:
  "teardown_container env pm = (Some r, pm1) \<Longrightarrow> \<exists>c. r = Inr () \<and> pm1 = pm\<lparr>pm_open_container_id := None, pm_client := c\<rparr>"
  "teardown_audio env pm = (Some r, pm1) \<Longrightarrow> \<exists>c. r = Inr () \<and> pm1 = pm\<lparr>pm_has_active_audio := False, pm_client := c\<rparr>"
  "teardown_objectives env pm = (Some r, pm1) \<Longrightarrow> \<exists>c. r = Inr () \<and> pm1 = pm\<lparr>pm_objectives := [], pm_client := c\<rparr>"
  "teardown_display_slots env pm = (Some r, pm1) \<Longrightarrow> \<exists>c. r = Inr () \<and> pm1 = pm\<lparr>pm_display_slots := [], pm_client := c\<rparr>"
  "teardown_boss_bars env pm = (Some r, pm1) \<Longrightarrow> \<exists>c. r = Inr () \<and> pm1 = pm\<lparr>pm_boss_bars := [], pm_client := c\<rparr>"
proof -
  have "quiet (case pm_open_container_id pm of None \<Rightarrow> returnS () | Some window_id \<Rightarrow>
      ignoreS (write_client env (close_container_encode_with_version (pm_version pm) \<lparr>clc_window_id = window_id\<rparr>)))"
    by (auto split: option.split intro: client_only_intros)
  then show "teardown_container env pm = (Some r, pm1) \<Longrightarrow> \<exists>c. r = Inr () \<and> pm1 = pm\<lparr>pm_open_container_id := None, pm_client := c\<rparr>"
    unfolding teardown_container_alt by (rule quiet_apply)
  have "quiet (if pm_has_active_audio pm
      then ignoreS (write_client env (stop_sound_encode_with_version (pm_version pm) stop_sound_all)) else returnS ())"
    by (auto intro: client_only_intros)
  then show "teardown_audio env pm = (Some r, pm1) \<Longrightarrow> \<exists>c. r = Inr () \<and> pm1 = pm\<lparr>pm_has_active_audio := False, pm_client := c\<rparr>"
    unfolding teardown_audio_alt by (rule quiet_apply)
qed (unfold teardown_objectives_def teardown_display_slots_def teardown_boss_bars_def,
     rule quiet_apply [OF quiet_intros(3)], assumption, rule quiet_apply [OF quiet_intros(3)], assumption,
     rule quiet_apply [OF quiet_intros(3)], assumption)

lemma never_fails_teardown: "never_fails (teardown_transferred_state env)"
proof -
  have "never_fails (teardown_container env)" "never_fails (teardown_audio env)" "never_fails (teardown_objectives env)"
    "never_fails (teardown_display_slots env)" "never_fails (teardown_boss_bars env)"
    unfolding never_fails_def using teardown_stages by (metis fst_eqD old.sum.distinct(1) surj_pair)+
  then show ?thesis
    unfolding teardown_transferred_state_def by (intro never_fails_bindS) simp_all
qed

lemma bindS_Some_cases:
  assumes "bindS m f s = (Some r, s')"
  obtains e where "m s = (Some (Inl e), s')" "r = Inl e" | x s1 where "m s = (Some (Inr x), s1)" "f x s1 = (Some r, s')"
  using assms by (auto simp: bindS_def split: prod.splits option.splits sum.splits)

lemma teardown_keeps:
  assumes "teardown_transferred_state env pm = (Some r, pm')"
  shows "\<exists>c. pm' = (clean pm)\<lparr>pm_client := c\<rparr>"
proof -
  from assms obtain pm1 pm2 pm3 pm4 pm5 where
    "teardown_container env pm = (Some (Inr ()), pm1)" "teardown_audio env pm1 = (Some (Inr ()), pm2)"
    "teardown_objectives env pm2 = (Some (Inr ()), pm3)" "teardown_display_slots env pm3 = (Some (Inr ()), pm4)"
    "teardown_boss_bars env pm4 = (Some (Inr ()), pm5)" "ignoreS (on_client flush) pm5 = (Some r, pm')"
    unfolding teardown_transferred_state_def
    by (auto elim!: bindS_Some_cases dest: teardown_stages)
  moreover have "client_only (ignoreS (on_client flush))" by (intro client_only_intros)
  ultimately show ?thesis
    by (auto simp: clean_def dest!: teardown_stages client_only_apply [rotated])
qed

text \<open>What the client has received after a list of packets, when it accepts everything.\<close>

definition emit :: "play_env \<Rightarrow> raw_packet list \<Rightarrow> 'ast play_machine \<Rightarrow> 'ast play_machine" where
  "emit env ps pm =
     pm\<lparr>pm_client := (pm_client pm)\<lparr>outb := outb (pm_client pm) @ concat (map (wire (pe_z env) (pm_client_threshold pm)) ps)\<rparr>\<rparr>"

definition client_takes :: "play_env \<Rightarrow> 'ast play_machine \<Rightarrow> raw_packet list \<Rightarrow> bool" where
  "client_takes env pm ps \<longleftrightarrow> wfate (pm_client pm) = []
     \<and> list_all (sendable (pe_z env) DEFAULT_MAX_PACKET_SIZE (pm_client_threshold pm)) ps"

lemma emit_simps [simp]:
  "emit env ps (emit env qs pm) = emit env (qs @ ps) pm"
  "wfate (pm_client (emit env ps pm)) = wfate (pm_client pm)"
  "pm_client_threshold (emit env ps pm) = pm_client_threshold pm"
  "pm_session (emit env ps pm) = pm_session pm"
  "outb (pm_client (emit env ps pm)) = outb (pm_client pm) @ concat (map (wire (pe_z env) (pm_client_threshold pm)) ps)"
  by (simp_all add: emit_def)

lemma emit_Nil [simp]: "emit env [] pm = pm"
  by (simp add: emit_def)

lemma write_client_takes:
  "client_takes env pm [pkt] \<Longrightarrow> write_client env pkt pm = (Some (Inr ()), emit env [pkt] pm)"
  using write_packet_ok [of "pe_z env" DEFAULT_MAX_PACKET_SIZE "pm_client_threshold pm" pkt "pm_client pm"]
  by (simp add: client_takes_def write_client_def on_client_def emit_def)

lemma on_client_flush [simp]: "on_client flush pm = (Some (Inr ()), pm)"
  by (simp add: on_client_def flush_def returnS_def)

lemma ignoreS_ok [simp]: "m s = (Some r, s') \<Longrightarrow> ignoreS m s = (Some (Inr ()), s')"
  by (simp add: ignoreS_def)

lemma send_client_takes:
  "client_takes env pm [pkt] \<Longrightarrow> send_client env pkt pm = (Some (Inr ()), emit env [pkt] pm)"
  "client_takes env pm [pkt] \<Longrightarrow> try_send_client env pkt pm = (Some (Inr ()), emit env [pkt] pm)"
  by (simp_all add: send_client_def try_send_client_def write_client_takes bindS_def)

lemma client_takes_more:
  "client_takes env (emit env qs pm) ps \<longleftrightarrow> client_takes env pm ps"
  "client_takes env pm (ps @ qs) \<longleftrightarrow> client_takes env pm ps \<and> client_takes env pm qs"
  by (auto simp: client_takes_def)

lemma client_takes_cong:
  "pm_client pm' = pm_client pm \<Longrightarrow> pm_client_threshold pm' = pm_client_threshold pm \<Longrightarrow>
   client_takes env pm' ps = client_takes env pm ps"
  by (simp add: client_takes_def)

lemma try_write_each_takes:
  "client_takes env pm ps \<Longrightarrow> try_write_each env ps pm = (Some (Inr ()), emit env ps pm)"
proof (induction ps arbitrary: pm)
  case (Cons p ps)
  then have "client_takes env pm [p]" "client_takes env (emit env [p] pm) ps"
    by (simp_all add: client_takes_def)
  then show ?case
    using Cons.IH by (simp add: write_client_takes bindS_def)
qed (simp add: returnS_def)

lemma try_write_each_after:
  assumes "client_takes env pm ps" and "wfate (pm_client pm') = []" and "pm_client_threshold pm' = pm_client_threshold pm"
  shows "try_write_each env ps pm' = (Some (Inr ()), emit env ps pm')"
  by (rule try_write_each_takes) (use assms in \<open>simp add: client_takes_def\<close>)

lemma teardown_takes:
  assumes "client_takes env pm (teardown_packets pm)"
  shows "teardown_transferred_state env pm = (Some (Inr ()), emit env (teardown_packets pm) (clean pm))"
proof -
  define v where "v = pm_version pm"
  define p1 where "p1 = (case pm_open_container_id pm of None \<Rightarrow> []
      | Some w \<Rightarrow> [close_container_encode_with_version v \<lparr>clc_window_id = w\<rparr>])"
  define p2 where "p2 = (if pm_has_active_audio pm then [stop_sound_encode_with_version v stop_sound_all] else [])"
  define p3 where "p3 = map (\<lambda>n. scoreboard_objective_encode_with_version v (scoreboard_objective_remove n)) (pm_objectives pm)"
  define p4 where "p4 = map (\<lambda>s. display_objective_encode_with_version v (display_objective_clear s)) (pm_display_slots pm)"
  define p5 where "p5 = map (\<lambda>u. boss_bar_encode_with_version v (boss_bar_remove u)) (pm_boss_bars pm)"
  have all: "teardown_packets pm = p1 @ p2 @ p3 @ p4 @ p5"
    unfolding teardown_packets_def p1_def p2_def p3_def p4_def p5_def v_def ..
  note t = assms [unfolded all client_takes_more(2)]
  let ?m1 = "emit env p1 (pm\<lparr>pm_open_container_id := None\<rparr>)"
  let ?m2 = "emit env p2 (?m1\<lparr>pm_has_active_audio := False\<rparr>)"
  let ?m3 = "emit env p3 (?m2\<lparr>pm_objectives := []\<rparr>)"
  let ?m4 = "emit env p4 (?m3\<lparr>pm_display_slots := []\<rparr>)"
  let ?m5 = "emit env p5 (?m4\<lparr>pm_boss_bars := []\<rparr>)"
  have ct: "client_takes env pm' [p]"
    if "client_takes env pm [p]" "wfate (pm_client pm') = []" "pm_client_threshold pm' = pm_client_threshold pm" for p pm'
    using that by (simp add: client_takes_def)
  have w: "wfate (pm_client pm) = []" using t by (simp add: client_takes_def)
  have s1: "teardown_container env pm = (Some (Inr ()), ?m1)"
    using t w by (auto simp: teardown_container_alt p1_def v_def write_client_takes ct returnS_def split: option.split)
  have s2: "teardown_audio env ?m1 = (Some (Inr ()), ?m2)"
    using t w by (auto simp: teardown_audio_alt p2_def v_def write_client_takes ct returnS_def emit_def)
  have s3: "teardown_objectives env ?m2 = (Some (Inr ()), ?m3)"
    using try_write_each_after [of env pm p3 "?m2\<lparr>pm_objectives := []\<rparr>"] t w
    by (simp add: teardown_objectives_def p3_def v_def emit_def)
  have s4: "teardown_display_slots env ?m3 = (Some (Inr ()), ?m4)"
    using try_write_each_after [of env pm p4 "?m3\<lparr>pm_display_slots := []\<rparr>"] t w
    by (simp add: teardown_display_slots_def p4_def v_def emit_def)
  have s5: "teardown_boss_bars env ?m4 = (Some (Inr ()), ?m5)"
    using try_write_each_after [of env pm p5 "?m4\<lparr>pm_boss_bars := []\<rparr>"] t w
    by (simp add: teardown_boss_bars_def p5_def v_def emit_def)
  have "?m5 = emit env (teardown_packets pm) (clean pm)"
    by (simp add: all emit_def clean_def)
  with s1 s2 s3 s4 s5 show ?thesis
    by (simp add: teardown_transferred_state_def bindS_def)
qed

end
