(* ===== verification/Play_Tracking.thy ===== *)
theory Play_Tracking
  imports Play_Proofs
begin

text \<open>
  The part of \<^verbatim>\<open>handle_backend_packet\<close> that follows what a backend puts on the player's screen, against its meaning: after
  any sequence of packets an item is noted exactly when the last packet about it put it there. And the packets of
  \<^verbatim>\<open>teardown_transferred_state\<close> take away everything that is noted.
\<close>

section \<open>Identifiers by protocol version\<close>

lemma version_bands:
  fixes v :: i32
  obtains "776 \<le> sint v" | "768 \<le> sint v" "sint v < 776" | "766 \<le> sint v" "sint v < 768" | "sint v = 765" | "sint v = 764"
    | "762 \<le> sint v" "sint v < 764" | "sint v = 761" | "759 \<le> sint v" "sint v < 761" | "sint v < 759"
  by linarith

lemmas screen_ids = close_container_id_def stop_sound_id_def boss_bar_id_def scoreboard_objective_id_def
  display_objective_id_def is_open_window_packet_def is_sound_packet_def CLOSE_CONTAINER_PACKET_ID_def
  STOP_SOUND_PACKET_ID_def BOSS_BAR_PACKET_ID_def SCOREBOARD_OBJECTIVE_PACKET_ID_def DISPLAY_OBJECTIVE_PACKET_ID_def

text \<open>The five tracked packets have different identifiers in every version, and none of them opens a window.\<close>

lemma screen_ids_distinct:
  "distinct [close_container_id v, stop_sound_id v, boss_bar_id v, scoreboard_objective_id v, display_objective_id v]"
  by (rule version_bands [of v]) (simp_all add: screen_ids)

lemma screen_ids_no_window:
  "\<not> is_open_window_packet (close_container_id v) v" "\<not> is_open_window_packet (stop_sound_id v) v"
  "\<not> is_open_window_packet (boss_bar_id v) v" "\<not> is_open_window_packet (scoreboard_objective_id v) v"
  "\<not> is_open_window_packet (display_objective_id v) v"
  by (rule version_bands [of v]; simp add: screen_ids)+

lemma screen_ids_no_sound:
  "\<not> is_sound_packet (close_container_id v) v" "\<not> is_sound_packet (boss_bar_id v) v"
  "\<not> is_sound_packet (scoreboard_objective_id v) v" "\<not> is_sound_packet (display_objective_id v) v"
  "is_sound_packet (stop_sound_id v) v \<longleftrightarrow> sint v = 759 \<or> sint v = 760"
  by (rule version_bands [of v]; auto simp: screen_ids)+

section \<open>Well-formedness of what is noted\<close>

lemma take_string_wf: "take_string eof bad buf = Inr (s, rest) \<Longrightarrow> wf_string s"
proof -
  assume t: "take_string eof bad buf = Inr (s, rest)"
  then obtain n cursor where "\<not> sint (n :: i32) < 0" "s = take (i32_as_usize n) cursor"
    by (auto simp: take_string_def take_prefixed_def bindE_eq_Inr_iff from_utf8_def split: if_splits)
  moreover from this have "i32_as_usize n < 2 ^ 31"
    using sint_lt [of n] by (simp add: i32_as_usize_nonneg)
  ultimately have "length s < 2 ^ 31" by simp
  with take_string_valid [OF t] show ?thesis by (simp add: wf_string_def fits_i32_def)
qed

definition tracked_wf :: "'ast play_machine \<Rightarrow> bool" where
  "tracked_wf pm \<longleftrightarrow> list_all wf_uuid (pm_boss_bars pm) \<and> distinct (pm_boss_bars pm)
     \<and> list_all wf_string (pm_objectives pm) \<and> distinct (pm_objectives pm) \<and> distinct (pm_display_slots pm)"

lemma boss_bar_decode_wf: "boss_bar_decode v p = Inr bb \<Longrightarrow> wf_uuid (bb_uuid bb)"
  by (auto simp: boss_bar_decode_def bindE_eq_Inr_iff get_bytes_def wf_uuid_def split: if_splits)

lemma scoreboard_objective_decode_wf: "scoreboard_objective_decode v p = Inr obj \<Longrightarrow> wf_string (so_name obj)"
  by (auto simp: scoreboard_objective_decode_def bindE_eq_Inr_iff dest: take_string_wf split: if_splits)

text \<open>Each part of the tracking changes one field, as a function of that field and the packet.\<close>

definition window_after :: "i32 \<Rightarrow> raw_packet \<Rightarrow> u8 option \<Rightarrow> u8 option" where
  "window_after v p w =
     (if is_open_window_packet (rp_id p) v
      then (case decode_varint (payload p) of Inr (win_id, _) \<Rightarrow> Some (ucast win_id) | Inl _ \<Rightarrow> w)
      else if rp_id p = close_container_id v then None else w)"

definition audio_after :: "i32 \<Rightarrow> raw_packet \<Rightarrow> bool \<Rightarrow> bool" where
  "audio_after v p a =
     (is_sound_packet (rp_id p) v \<or> a \<and> \<not> (rp_id p = stop_sound_id v \<and> payload p \<noteq> [] \<and> hd (payload p) = 0))"

definition bars_after :: "i32 \<Rightarrow> raw_packet \<Rightarrow> uuid list \<Rightarrow> uuid list" where
  "bars_after v p bars =
     (case boss_bar_decode v p of
        Inl _ \<Rightarrow> bars
      | Inr bb \<Rightarrow>
          if bb_action bb = BOSS_BAR_ACTION_ADD then List.insert (bb_uuid bb) bars
          else if bb_action bb = BOSS_BAR_ACTION_REMOVE then removeAll (bb_uuid bb) bars
          else bars)"

definition objectives_after :: "i32 \<Rightarrow> raw_packet \<Rightarrow> str list \<Rightarrow> str list" where
  "objectives_after v p objs =
     (case scoreboard_objective_decode v p of
        Inl _ \<Rightarrow> objs
      | Inr obj \<Rightarrow>
          if so_action obj = OBJECTIVE_ACTION_CREATE then List.insert (so_name obj) objs
          else if so_action obj = OBJECTIVE_ACTION_REMOVE then removeAll (so_name obj) objs
          else objs)"

definition slots_after :: "i32 \<Rightarrow> raw_packet \<Rightarrow> i32 list \<Rightarrow> i32 list" where
  "slots_after v p slots =
     (case display_objective_decode v p of
        Inl _ \<Rightarrow> slots
      | Inr disp \<Rightarrow>
          if do_name disp = [] then removeAll (do_position disp) slots else List.insert (do_position disp) slots)"

lemma track_parts:
  "track_container p pm = pm\<lparr>pm_open_container_id := window_after (pm_version pm) p (pm_open_container_id pm)\<rparr>"
  "track_audio p pm = pm\<lparr>pm_has_active_audio := audio_after (pm_version pm) p (pm_has_active_audio pm)\<rparr>"
  "track_boss_bars p pm = pm\<lparr>pm_boss_bars := bars_after (pm_version pm) p (pm_boss_bars pm)\<rparr>"
  "track_objectives p pm = pm\<lparr>pm_objectives := objectives_after (pm_version pm) p (pm_objectives pm)\<rparr>"
  "track_display_slots p pm = pm\<lparr>pm_display_slots := slots_after (pm_version pm) p (pm_display_slots pm)\<rparr>"
proof -
  show "track_container p pm = pm\<lparr>pm_open_container_id := window_after (pm_version pm) p (pm_open_container_id pm)\<rparr>"
    by (simp add: track_container_def window_after_def split: sum.split prod.split)
  show "track_audio p pm = pm\<lparr>pm_has_active_audio := audio_after (pm_version pm) p (pm_has_active_audio pm)\<rparr>"
    by (simp add: track_audio_def audio_after_def)
  show "track_boss_bars p pm = pm\<lparr>pm_boss_bars := bars_after (pm_version pm) p (pm_boss_bars pm)\<rparr>"
  proof (cases "rp_id p = boss_bar_id (pm_version pm)")
    case True
    then show ?thesis
      by (cases "boss_bar_decode (pm_version pm) p") (simp_all add: track_boss_bars_def bars_after_def)
  next
    case False
    then show ?thesis by (simp add: track_boss_bars_def bars_after_def boss_bar_decode_def)
  qed
  show "track_objectives p pm = pm\<lparr>pm_objectives := objectives_after (pm_version pm) p (pm_objectives pm)\<rparr>"
  proof (cases "rp_id p = scoreboard_objective_id (pm_version pm)")
    case True
    then show ?thesis
      by (cases "scoreboard_objective_decode (pm_version pm) p") (simp_all add: track_objectives_def objectives_after_def)
  next
    case False
    then show ?thesis by (simp add: track_objectives_def objectives_after_def scoreboard_objective_decode_def)
  qed
  show "track_display_slots p pm = pm\<lparr>pm_display_slots := slots_after (pm_version pm) p (pm_display_slots pm)\<rparr>"
  proof (cases "rp_id p = display_objective_id (pm_version pm)")
    case True
    then show ?thesis
      by (cases "display_objective_decode (pm_version pm) p") (simp_all add: track_display_slots_def slots_after_def)
  next
    case False
    then show ?thesis by (simp add: track_display_slots_def slots_after_def display_objective_decode_def)
  qed
qed

lemma track_alt:
  "track p pm = pm\<lparr>
     pm_open_container_id := window_after (pm_version pm) p (pm_open_container_id pm),
     pm_has_active_audio := audio_after (pm_version pm) p (pm_has_active_audio pm),
     pm_boss_bars := bars_after (pm_version pm) p (pm_boss_bars pm),
     pm_objectives := objectives_after (pm_version pm) p (pm_objectives pm),
     pm_display_slots := slots_after (pm_version pm) p (pm_display_slots pm)\<rparr>"
  by (simp add: track_def track_parts)

lemma track_keeps [simp]:
  "pm_session (track p pm) = pm_session pm" "pm_client (track p pm) = pm_client pm" "pm_backend (track p pm) = pm_backend pm"
  "pm_connector (track p pm) = pm_connector pm" "pm_config (track p pm) = pm_config pm"
  "pm_client_threshold (track p pm) = pm_client_threshold pm" "pm_backend_threshold (track p pm) = pm_backend_threshold pm"
  "pm_compression_threshold (track p pm) = pm_compression_threshold pm"
  "pm_server_transferred (track p pm) = pm_server_transferred pm" "pm_script_host (track p pm) = pm_script_host pm"
  "pm_attempts (track p pm) = pm_attempts pm" "pm_closed (track p pm) = pm_closed pm"
  "pm_client_closed (track p pm) = pm_client_closed pm"
  by (simp_all add: track_alt)

lemma bars_after_wf:
  "list_all wf_uuid bars \<Longrightarrow> list_all wf_uuid (bars_after v p bars)" "distinct bars \<Longrightarrow> distinct (bars_after v p bars)"
  by (auto simp: bars_after_def list_all_iff distinct_removeAll dest: boss_bar_decode_wf split: sum.splits)

lemma objectives_after_wf:
  "list_all wf_string objs \<Longrightarrow> list_all wf_string (objectives_after v p objs)"
  "distinct objs \<Longrightarrow> distinct (objectives_after v p objs)"
  by (auto simp: objectives_after_def list_all_iff distinct_removeAll dest: scoreboard_objective_decode_wf split: sum.splits)

lemma slots_after_distinct: "distinct slots \<Longrightarrow> distinct (slots_after v p slots)"
  by (auto simp: slots_after_def distinct_removeAll split: sum.splits)

lemma tracked_wf_track: "tracked_wf pm \<Longrightarrow> tracked_wf (track p pm)"
  by (simp add: tracked_wf_def track_alt bars_after_wf objectives_after_wf slots_after_distinct)

section \<open>The last packet about an item decides\<close>

text \<open>What a packet says about one item: \<open>Some True\<close> puts it on the screen, \<open>Some False\<close> takes it away.\<close>

definition bar_event :: "i32 \<Rightarrow> uuid \<Rightarrow> raw_packet \<Rightarrow> bool option" where
  "bar_event v u p =
     (case boss_bar_decode v p of
        Inl _ \<Rightarrow> None
      | Inr bb \<Rightarrow>
          if bb_uuid bb \<noteq> u then None
          else if bb_action bb = BOSS_BAR_ACTION_ADD then Some True
          else if bb_action bb = BOSS_BAR_ACTION_REMOVE then Some False
          else None)"

definition objective_event :: "i32 \<Rightarrow> str \<Rightarrow> raw_packet \<Rightarrow> bool option" where
  "objective_event v n p =
     (case scoreboard_objective_decode v p of
        Inl _ \<Rightarrow> None
      | Inr obj \<Rightarrow>
          if so_name obj \<noteq> n then None
          else if so_action obj = OBJECTIVE_ACTION_CREATE then Some True
          else if so_action obj = OBJECTIVE_ACTION_REMOVE then Some False
          else None)"

definition slot_event :: "i32 \<Rightarrow> i32 \<Rightarrow> raw_packet \<Rightarrow> bool option" where
  "slot_event v s p =
     (case display_objective_decode v p of
        Inl _ \<Rightarrow> None
      | Inr disp \<Rightarrow> if do_position disp \<noteq> s then None else Some (do_name disp \<noteq> []))"

definition last_event :: "('p \<Rightarrow> bool option) \<Rightarrow> 'p list \<Rightarrow> bool \<Rightarrow> bool" where
  "last_event ev ps b = (case List.map_filter ev ps of [] \<Rightarrow> b | es \<Rightarrow> last es)"

lemma last_event_Cons: "last_event ev (p # ps) b = last_event ev ps (case ev p of Some e \<Rightarrow> e | None \<Rightarrow> b)"
  by (simp add: last_event_def List.map_filter_simps split: option.split list.split)

lemma track_membership:
  "u \<in> set (pm_boss_bars (track p pm)) \<longleftrightarrow>
     (case bar_event (pm_version pm) u p of Some e \<Rightarrow> e | None \<Rightarrow> u \<in> set (pm_boss_bars pm))"
  "n \<in> set (pm_objectives (track p pm)) \<longleftrightarrow>
     (case objective_event (pm_version pm) n p of Some e \<Rightarrow> e | None \<Rightarrow> n \<in> set (pm_objectives pm))"
  "s \<in> set (pm_display_slots (track p pm)) \<longleftrightarrow>
     (case slot_event (pm_version pm) s p of Some e \<Rightarrow> e | None \<Rightarrow> s \<in> set (pm_display_slots pm))"
  by (simp_all add: track_alt bars_after_def objectives_after_def slots_after_def bar_event_def objective_event_def
      slot_event_def split: sum.split)

lemma fold_track_version [simp]: "pm_session (fold track ps pm) = pm_session pm"
  by (induction ps arbitrary: pm) simp_all

lemma fold_track_membership:
  "u \<in> set (pm_boss_bars (fold track ps pm)) = last_event (bar_event (pm_version pm) u) ps (u \<in> set (pm_boss_bars pm))"
  "n \<in> set (pm_objectives (fold track ps pm)) = last_event (objective_event (pm_version pm) n) ps (n \<in> set (pm_objectives pm))"
  "s \<in> set (pm_display_slots (fold track ps pm)) = last_event (slot_event (pm_version pm) s) ps (s \<in> set (pm_display_slots pm))"
proof -
  have "(u \<in> set (pm_boss_bars (fold track ps pm))) = last_event (bar_event (pm_version pm) u) ps (u \<in> set (pm_boss_bars pm))
    \<and> (n \<in> set (pm_objectives (fold track ps pm))) =
        last_event (objective_event (pm_version pm) n) ps (n \<in> set (pm_objectives pm))
    \<and> (s \<in> set (pm_display_slots (fold track ps pm))) =
        last_event (slot_event (pm_version pm) s) ps (s \<in> set (pm_display_slots pm))"
    by (induction ps arbitrary: pm)
       (simp_all add: last_event_Cons track_membership, simp add: last_event_def List.map_filter_simps)
  then show
    "u \<in> set (pm_boss_bars (fold track ps pm)) = last_event (bar_event (pm_version pm) u) ps (u \<in> set (pm_boss_bars pm))"
    "n \<in> set (pm_objectives (fold track ps pm)) = last_event (objective_event (pm_version pm) n) ps (n \<in> set (pm_objectives pm))"
    "s \<in> set (pm_display_slots (fold track ps pm)) = last_event (slot_event (pm_version pm) s) ps (s \<in> set (pm_display_slots pm))"
    by blast+
qed

section \<open>Cleaning takes everything away\<close>

lemmas after_defs = window_after_def audio_after_def bars_after_def objectives_after_def slots_after_def

lemma screen_ids_neq [simp]:
  "close_container_id v \<noteq> stop_sound_id v" "close_container_id v \<noteq> boss_bar_id v"
  "close_container_id v \<noteq> scoreboard_objective_id v" "close_container_id v \<noteq> display_objective_id v"
  "stop_sound_id v \<noteq> close_container_id v" "stop_sound_id v \<noteq> boss_bar_id v"
  "stop_sound_id v \<noteq> scoreboard_objective_id v" "stop_sound_id v \<noteq> display_objective_id v"
  "boss_bar_id v \<noteq> close_container_id v" "boss_bar_id v \<noteq> stop_sound_id v"
  "boss_bar_id v \<noteq> scoreboard_objective_id v" "boss_bar_id v \<noteq> display_objective_id v"
  "scoreboard_objective_id v \<noteq> close_container_id v" "scoreboard_objective_id v \<noteq> stop_sound_id v"
  "scoreboard_objective_id v \<noteq> boss_bar_id v" "scoreboard_objective_id v \<noteq> display_objective_id v"
  "display_objective_id v \<noteq> close_container_id v" "display_objective_id v \<noteq> stop_sound_id v"
  "display_objective_id v \<noteq> boss_bar_id v" "display_objective_id v \<noteq> scoreboard_objective_id v"
  using screen_ids_distinct [of v] by auto

lemmas no_window_no_sound [simp] = screen_ids_no_window screen_ids_no_sound(1-4)

lemma other_decoders:
  "rp_id p \<noteq> boss_bar_id v \<Longrightarrow> bars_after v p bars = bars"
  "rp_id p \<noteq> scoreboard_objective_id v \<Longrightarrow> objectives_after v p objs = objs"
  "rp_id p \<noteq> display_objective_id v \<Longrightarrow> slots_after v p slots = slots"
  by (simp_all add: after_defs boss_bar_decode_def scoreboard_objective_decode_def display_objective_decode_def)

lemma track_close:
  "track (close_container_encode_with_version (pm_version pm) w) pm = pm\<lparr>pm_open_container_id := None\<rparr>"
  by (simp add: track_alt other_decoders window_after_def audio_after_def close_container_encode_with_version_def)

lemma track_stop_sound:
  "\<not> is_sound_packet (stop_sound_id (pm_version pm)) (pm_version pm) \<Longrightarrow>
   track (stop_sound_encode_with_version (pm_version pm) stop_sound_all) pm = pm\<lparr>pm_has_active_audio := False\<rparr>"
  by (simp add: track_alt other_decoders window_after_def audio_after_def stop_sound_encode_with_version_def stop_sound_all_def)

lemma track_remove_bar:
  assumes "wf_uuid u"
  shows "track (boss_bar_encode_with_version (pm_version pm) (boss_bar_remove u)) pm =
     pm\<lparr>pm_boss_bars := removeAll u (pm_boss_bars pm)\<rparr>"
proof -
  let ?p = "boss_bar_encode_with_version (pm_version pm) (boss_bar_remove u)"
  have "boss_bar_decode (pm_version pm) ?p = Inr (boss_bar_remove u)"
    using boss_bar_codec.decode_encode [of "boss_bar_remove u"] assms by (simp add: boss_bar_remove_def)
  then have "bars_after (pm_version pm) ?p bars = removeAll u bars" for bars
    by (simp add: bars_after_def boss_bar_remove_def BOSS_BAR_ACTION_ADD_def BOSS_BAR_ACTION_REMOVE_def)
  moreover have "rp_id ?p = boss_bar_id (pm_version pm)" by (simp add: boss_bar_encode_with_version_def)
  ultimately show ?thesis
    by (simp add: track_alt other_decoders window_after_def audio_after_def)
qed

lemma track_remove_objective:
  assumes "wf_string n"
  shows "track (scoreboard_objective_encode_with_version (pm_version pm) (scoreboard_objective_remove n)) pm =
     pm\<lparr>pm_objectives := removeAll n (pm_objectives pm)\<rparr>"
proof -
  let ?p = "scoreboard_objective_encode_with_version (pm_version pm) (scoreboard_objective_remove n)"
  have "scoreboard_objective_decode (pm_version pm) ?p = Inr (scoreboard_objective_remove n)"
    using scoreboard_objective_codec.decode_encode [of "scoreboard_objective_remove n"] assms
    by (simp add: scoreboard_objective_remove_def)
  then have "objectives_after (pm_version pm) ?p objs = removeAll n objs" for objs
    by (simp add: objectives_after_def scoreboard_objective_remove_def OBJECTIVE_ACTION_CREATE_def OBJECTIVE_ACTION_REMOVE_def)
  moreover have "rp_id ?p = scoreboard_objective_id (pm_version pm)"
    by (simp add: scoreboard_objective_encode_with_version_def)
  ultimately show ?thesis
    by (simp add: track_alt other_decoders window_after_def audio_after_def)
qed

lemma track_clear_slot:
  "track (display_objective_encode_with_version (pm_version pm) (display_objective_clear s)) pm =
     pm\<lparr>pm_display_slots := removeAll s (pm_display_slots pm)\<rparr>"
proof -
  let ?p = "display_objective_encode_with_version (pm_version pm) (display_objective_clear s)"
  have "display_objective_decode (pm_version pm) ?p = Inr (display_objective_clear s)"
    using display_objective_codec.decode_encode [of "display_objective_clear s"]
    by (simp add: display_objective_clear_def wf_string_def fits_i32_def)
  then have "slots_after (pm_version pm) ?p slots = removeAll s slots" for slots
    by (simp add: slots_after_def display_objective_clear_def)
  moreover have "rp_id ?p = display_objective_id (pm_version pm)"
    by (simp add: display_objective_encode_with_version_def)
  ultimately show ?thesis
    by (simp add: track_alt other_decoders window_after_def audio_after_def)
qed

lemma fold_removeAll: "set ys \<subseteq> set xs \<Longrightarrow> fold removeAll xs ys = []"
proof (induction xs arbitrary: ys)
  case (Cons x xs)
  then have "set (removeAll x ys) \<subseteq> set xs" by auto
  from Cons.IH [OF this] show ?case by simp
qed simp

lemma fold_remove_bars:
  "list_all wf_uuid us \<Longrightarrow>
   fold track (map (\<lambda>u. boss_bar_encode_with_version (pm_version pm) (boss_bar_remove u)) us) pm =
     pm\<lparr>pm_boss_bars := fold removeAll us (pm_boss_bars pm)\<rparr>"
proof (induction us arbitrary: pm)
  case (Cons u us)
  from Cons.IH [of "pm\<lparr>pm_boss_bars := removeAll u (pm_boss_bars pm)\<rparr>"] Cons.prems show ?case
    by (simp add: track_remove_bar)
qed simp

lemma fold_remove_objectives:
  "list_all wf_string ns \<Longrightarrow>
   fold track (map (\<lambda>n. scoreboard_objective_encode_with_version (pm_version pm) (scoreboard_objective_remove n)) ns) pm =
     pm\<lparr>pm_objectives := fold removeAll ns (pm_objectives pm)\<rparr>"
proof (induction ns arbitrary: pm)
  case (Cons n ns)
  from Cons.IH [of "pm\<lparr>pm_objectives := removeAll n (pm_objectives pm)\<rparr>"] Cons.prems show ?case
    by (simp add: track_remove_objective)
qed simp

lemma fold_clear_slots:
  "fold track (map (\<lambda>s. display_objective_encode_with_version (pm_version pm) (display_objective_clear s)) ss) pm =
     pm\<lparr>pm_display_slots := fold removeAll ss (pm_display_slots pm)\<rparr>"
proof (induction ss arbitrary: pm)
  case (Cons s ss)
  from Cons.IH [of "pm\<lparr>pm_display_slots := removeAll s (pm_display_slots pm)\<rparr>"] show ?case
    by (simp add: track_clear_slot)
qed simp

lemma fold_track_teardown:
  assumes "tracked_wf pm" and ns: "\<not> is_sound_packet (stop_sound_id (pm_version pm)) (pm_version pm)"
  shows "fold track (teardown_packets pm) pm = clean pm"
proof -
  let ?v = "pm_version pm"
  let ?p1 = "case pm_open_container_id pm of None \<Rightarrow> []
      | Some w \<Rightarrow> [close_container_encode_with_version ?v \<lparr>clc_window_id = w\<rparr>]"
  let ?p2 = "if pm_has_active_audio pm then [stop_sound_encode_with_version ?v stop_sound_all] else []"
  let ?m1 = "pm\<lparr>pm_open_container_id := None\<rparr>"
  let ?m2 = "?m1\<lparr>pm_has_active_audio := False\<rparr>"
  let ?m3 = "?m2\<lparr>pm_objectives := []\<rparr>"
  let ?m4 = "?m3\<lparr>pm_display_slots := []\<rparr>"
  have s1: "fold track ?p1 pm = ?m1"
    by (cases "pm_open_container_id pm") (simp_all add: track_close)
  have s2: "fold track ?p2 ?m1 = ?m2"
    using track_stop_sound [of ?m1] ns by simp
  have s3: "fold track (map (\<lambda>n. scoreboard_objective_encode_with_version ?v (scoreboard_objective_remove n)) (pm_objectives pm)) ?m2 = ?m3"
    using fold_remove_objectives [of "pm_objectives pm" ?m2] assms(1) by (simp add: tracked_wf_def fold_removeAll)
  have s4: "fold track (map (\<lambda>s. display_objective_encode_with_version ?v (display_objective_clear s)) (pm_display_slots pm)) ?m3 = ?m4"
    using fold_clear_slots [of ?m3 "pm_display_slots pm"] by (simp add: fold_removeAll)
  have s5: "fold track (map (\<lambda>u. boss_bar_encode_with_version ?v (boss_bar_remove u)) (pm_boss_bars pm)) ?m4 = clean pm"
    using fold_remove_bars [of "pm_boss_bars pm" ?m4] assms(1) by (simp add: tracked_wf_def fold_removeAll clean_def)
  show ?thesis
    unfolding teardown_packets_def fold_append o_def s1 s2 s3 s4 s5 ..
qed

section \<open>Properties\<close>

text \<open>C14. The tracking of the player's screen is exact: after any sequence of backend packets a boss bar, an objective or a
  display slot is noted exactly when the last packet about it put it on the screen, or there was none and it was noted
  before. What is noted stays well formed, without repetitions.\<close>

theorem tracking_is_exact:
  assumes "tracked_wf pm"
  shows "tracked_wf (fold track ps pm)
    \<and> (u \<in> set (pm_boss_bars (fold track ps pm))) = last_event (bar_event (pm_version pm) u) ps (u \<in> set (pm_boss_bars pm))
    \<and> (n \<in> set (pm_objectives (fold track ps pm))) =
        last_event (objective_event (pm_version pm) n) ps (n \<in> set (pm_objectives pm))
    \<and> (s \<in> set (pm_display_slots (fold track ps pm))) =
        last_event (slot_event (pm_version pm) s) ps (s \<in> set (pm_display_slots pm))"
proof -
  have "tracked_wf (fold track ps pm)"
    using assms by (induction ps arbitrary: pm) (simp_all add: tracked_wf_track)
  then show ?thesis by (simp only: fold_track_membership)
qed

definition example_machine :: "i32 \<Rightarrow> (str \<times> dynamic) list play_machine" where
  "example_machine v =
     with_thresholds \<lparr>inb = [], in_end = Silent, outb = [], wfate = []\<rparr> \<lparr>inb = [], in_end = Silent, outb = [], wfate = []\<rparr>
       (\<lambda>_ _ cfg profile ip v. tcp_connect example_env [] cfg profile ip v)
       \<lparr>ps_profile = example_profile, ps_client_ip = str ''1.2.3.4'', ps_protocol_version = v,
        ps_current_server = str ''lobby'', ps_registry_cache = cache_new\<rparr>
       default_proxy_config (ScriptHost_new example_rhai None) None None"

definition example_play_env :: play_env where
  "example_play_env = \<lparr>pe_z = stored, pe_json = (\<lambda>s. s), pe_lower = (\<lambda>s. s)\<rparr>"

theorem tracking_is_exact_witness:
  "let add = RawPacket (boss_bar_id 765) (nil_uuid @ encode_varint BOSS_BAR_ACTION_ADD);
       remove = boss_bar_encode_with_version 765 (boss_bar_remove nil_uuid)
   in nil_uuid \<in> set (pm_boss_bars (fold track [remove, add] (example_machine 765)))
      \<and> nil_uuid \<notin> set (pm_boss_bars (fold track [add, remove] (example_machine 765)))"
proof -
  let ?add = "RawPacket (boss_bar_id 765) (nil_uuid @ encode_varint BOSS_BAR_ACTION_ADD)"
  let ?remove = "boss_bar_encode_with_version 765 (boss_bar_remove nil_uuid)"
  have wf: "tracked_wf (example_machine 765)"
    by (simp add: tracked_wf_def example_machine_def with_thresholds_def)
  have v: "pm_version (example_machine 765) = 765"
    by (simp add: example_machine_def with_thresholds_def)
  have "boss_bar_decode 765 ?add = Inr \<lparr>bb_uuid = nil_uuid, bb_action = BOSS_BAR_ACTION_ADD\<rparr>"
    "boss_bar_decode 765 ?remove = Inr (boss_bar_remove nil_uuid)"
    by (simp_all add: boss_bar_decode_def boss_bar_encode_with_version_def boss_bar_remove_def nil_uuid_def codec_simps)
  then have "bar_event 765 nil_uuid ?add = Some True" "bar_event 765 nil_uuid ?remove = Some False"
    by (simp_all add: bar_event_def boss_bar_remove_def BOSS_BAR_ACTION_ADD_def BOSS_BAR_ACTION_REMOVE_def)
  with tracking_is_exact [OF wf, of "[?remove, ?add]" nil_uuid] tracking_is_exact [OF wf, of "[?add, ?remove]" nil_uuid] v
  show ?thesis by (simp add: Let_def last_event_def List.map_filter_simps)
qed

text \<open>C15. \<^verbatim>\<open>teardown_transferred_state\<close> writes to a client that accepts it exactly one packet for every noted item and forgets
  them all; a tracker that follows these packets ends with nothing on the screen, so a client that understands them has an
  empty screen, too. (In the versions 759 and 760 the proxy takes its own stop-sound packet for a sound.)\<close>

theorem teardown_empties_screen:
  assumes "tracked_wf pm" and "client_takes env pm (teardown_packets pm)"
    and "sint (pm_version pm) \<noteq> 759" "sint (pm_version pm) \<noteq> 760"
  shows "teardown_transferred_state env pm = (Some (Inr ()), emit env (teardown_packets pm) (clean pm))
    \<and> fold track (teardown_packets pm) pm = clean pm"
  using teardown_takes [OF assms(2)] fold_track_teardown [OF assms(1)] assms(3,4) screen_ids_no_sound(5) by blast

theorem teardown_empties_screen_witness:
  "let pm = (example_machine 765)\<lparr>pm_open_container_id := Some 3, pm_boss_bars := [nil_uuid]\<rparr>
   in teardown_transferred_state example_play_env pm =
        (Some (Inr ()), emit example_play_env (teardown_packets pm) (example_machine 765))
      \<and> length (teardown_packets pm) = 2"
proof -
  let ?pm = "(example_machine 765)\<lparr>pm_open_container_id := Some 3, pm_boss_bars := [nil_uuid]\<rparr>"
  have wf: "tracked_wf ?pm"
    by (simp add: tracked_wf_def example_machine_def with_thresholds_def wf_uuid_def nil_uuid_def)
  have v: "sint (pm_version ?pm) \<noteq> 759" "sint (pm_version ?pm) \<noteq> 760"
    by (simp_all add: example_machine_def with_thresholds_def)
  have t: "teardown_packets ?pm = [RawPacket 0x12 [3], RawPacket 0x0A (nil_uuid @ [1])]"
    by (simp add: teardown_packets_def example_machine_def with_thresholds_def close_container_encode_with_version_def
        boss_bar_encode_with_version_def screen_ids boss_bar_remove_def BOSS_BAR_ACTION_REMOVE_def encode_varint_def
        encode_var_loop.simps)
  have w: "client_takes example_play_env ?pm (teardown_packets ?pm)"
    unfolding t by (simp add: client_takes_def example_machine_def with_thresholds_def example_play_env_def sendable_def
        wire_length_def encode_packet_with_compression_def Let_def varint_size_def nil_uuid_def DEFAULT_MAX_PACKET_SIZE_def
        encode_varint_def encode_var_loop.simps)
  have "teardown_transferred_state example_play_env ?pm =
      (Some (Inr ()), emit example_play_env (teardown_packets ?pm) (clean ?pm))"
    using teardown_empties_screen [OF wf w v] by (rule conjunct1)
  moreover have "clean ?pm = example_machine 765"
    by (simp add: clean_def example_machine_def with_thresholds_def)
  moreover have "length (teardown_packets ?pm) = 2"
    unfolding t by simp
  ultimately show ?thesis
    unfolding Let_def by metis
qed

end
