(* ===== verification/Play_Transfer.thy ===== *)
theory Play_Transfer
  imports Play_Tracking
begin

text \<open>
  \<^verbatim>\<open>switch_server\<close> on every path: a transfer that fails leaves the player where he is, one that succeeds replaces the backend
  in one go; and what the connector over TCP promises and does not promise.
\<close>

section \<open>The two outcomes of a transfer\<close>

text \<open>What a transfer that fails may change: what was written to the client, the number of attempts, and the registry
  cache, which the configuration phase fills as it goes.\<close>

definition stays :: "'ast play_machine \<Rightarrow> 'ast play_machine \<Rightarrow> bool" where
  "stays pm pm' \<longleftrightarrow> (\<exists>c n cache. pm' = pm\<lparr>pm_client := c, pm_attempts := n,
     pm_session := (pm_session pm)\<lparr>ps_registry_cache := cache\<rparr>\<rparr>)"

text \<open>The machine after a transfer that succeeded.\<close>

definition attached :: "str \<Rightarrow> conn \<Rightarrow> nat option \<Rightarrow> conn \<Rightarrow> 'ast play_machine \<Rightarrow> 'ast play_machine" where
  "attached target nb thr c pm =
     (clean pm)\<lparr>pm_client := c,
        pm_closed := (case pm_backend pm of None \<Rightarrow> [] | Some old \<Rightarrow> [old]) @ pm_closed pm,
        pm_backend := Some nb, pm_backend_threshold := thr, pm_compression_threshold := pm_client_threshold pm,
        pm_session := (pm_session pm)\<lparr>ps_current_server := target\<rparr>, pm_server_transferred := True\<rparr>"

definition moved :: "str \<Rightarrow> conn \<Rightarrow> nat option \<Rightarrow> session_registry_cache \<Rightarrow> conn \<Rightarrow> 'ast play_machine \<Rightarrow> 'ast play_machine" where
  "moved target nb thr cache c pm =
     attached target nb thr c (set_registry_cache cache (pm\<lparr>pm_attempts := pm_attempts pm + 1\<rparr>))"

lemma try_chat_then_stays:
  assumes "bindS (try_chat env msg) (\<lambda>_. returnS False) pm = (Some r, pm')"
  shows "r = Inr False" "\<exists>c. pm' = pm\<lparr>pm_client := c\<rparr>"
proof -
  from assms obtain x pm1 where x: "try_chat env msg pm = (Some x, pm1)"
    by (auto elim: bindS_Some_cases)
  moreover have "x \<noteq> Inl e" for e
    using x never_fails_try_chat [of env msg] unfolding never_fails_def by (metis fst_conv)
  then obtain y where "x = Inr y" by (cases x) auto
  ultimately show "r = Inr False" "\<exists>c. pm' = pm\<lparr>pm_client := c\<rparr>"
    using assms client_only_apply [OF client_only_chat(2), of env msg pm] by (auto simp: bindS_def returnS_def)
qed

lemma attach_backend_moves:
  assumes "attach_backend env target nb thr pm = (Some r, pm')"
  shows "r = Inr True \<and> (\<exists>c. pm' = attached target nb thr c pm)"
proof -
  define pm0 where "pm0 = (case pm_backend pm of None \<Rightarrow> pm
      | Some old_backend \<Rightarrow> pm\<lparr>pm_backend := None, pm_closed := old_backend # pm_closed pm\<rparr>)"
  have pm0: "pm0 = pm\<lparr>pm_backend := None, pm_closed := (case pm_backend pm of None \<Rightarrow> [] | Some old \<Rightarrow> [old]) @ pm_closed pm\<rparr>"
    by (cases "pm_backend pm"; cases pm) (simp_all add: pm0_def)
  from assms obtain x pm1 where x: "ignoreS (teardown_transferred_state env) pm0 = (Some (Inr x), pm1)"
    and r: "r = Inr True" "pm' = pm1\<lparr>pm_backend := Some nb, pm_backend_threshold := thr,
        pm_compression_threshold := pm_client_threshold pm1,
        pm_session := (pm_session pm1)\<lparr>ps_current_server := target\<rparr>, pm_server_transferred := True\<rparr>"
    unfolding attach_backend_def pm0_def [symmetric]
    by (auto simp: returnS_def ignoreS_def elim!: bindS_Some_cases split: prod.splits option.splits)
  from x obtain y where "teardown_transferred_state env pm0 = (Some y, pm1)"
    by (auto simp: ignoreS_def split: prod.splits option.splits)
  from teardown_keeps [OF this] obtain c where "pm1 = (clean pm0)\<lparr>pm_client := c\<rparr>" by blast
  with r show ?thesis
    by (intro conjI exI [of _ c]) (simp_all add: pm0 clean_def attached_def)
qed

lemma stays_refl_client: "stays pm (pm\<lparr>pm_client := c\<rparr>)"
  unfolding stays_def
  by (intro exI [of _ c] exI [of _ "pm_attempts pm"] exI [of _ "ps_registry_cache (pm_session pm)"]) simp

lemma stays_trans: "stays pm pm1 \<Longrightarrow> stays pm1 pm2 \<Longrightarrow> stays pm pm2"
proof -
  assume "stays pm pm1" "stays pm1 pm2"
  then obtain c n cache d m cache' where
    "pm1 = pm\<lparr>pm_client := c, pm_attempts := n, pm_session := (pm_session pm)\<lparr>ps_registry_cache := cache\<rparr>\<rparr>"
    "pm2 = pm1\<lparr>pm_client := d, pm_attempts := m, pm_session := (pm_session pm1)\<lparr>ps_registry_cache := cache'\<rparr>\<rparr>"
    unfolding stays_def by blast
  then have "pm2 = pm\<lparr>pm_client := d, pm_attempts := m, pm_session := (pm_session pm)\<lparr>ps_registry_cache := cache'\<rparr>\<rparr>"
    by simp
  then show ?thesis unfolding stays_def by blast
qed

lemma set_registry_cache_self [simp]: "set_registry_cache (ps_registry_cache (pm_session pm)) pm = pm"
  by (simp add: set_registry_cache_def)

lemma stays_steps: "stays pm (pm\<lparr>pm_attempts := n\<rparr>)" "stays pm (set_registry_cache cache pm)"
  unfolding stays_def set_registry_cache_def
  by (intro exI [of _ "pm_client pm"] exI [of _ n] exI [of _ "ps_registry_cache (pm_session pm)"], simp)
     (intro exI [of _ "pm_client pm"] exI [of _ "pm_attempts pm"] exI [of _ cache], simp)

text \<open>The configuration phase that the protocol version asks for.\<close>

definition configured ::
  "play_env \<Rightarrow> i32 \<Rightarrow> nat option \<Rightarrow> conn \<Rightarrow> session_registry_cache \<Rightarrow> conn \<Rightarrow> session_registry_cache \<Rightarrow> bool" where
  "configured env v thr stream cache0 nb cache \<longleftrightarrow>
     (if 764 \<le> sint v then config_loop (pe_z env) v thr stream cache0 = (Some (Inr ()), nb, cache)
      else nb = stream \<and> cache = cache0)"

lemma complete_transfer_outcome:
  assumes "complete_transfer env target stream thr pm = (Some r, pm')"
  shows "(\<exists>nb cache c. r = Inr True
        \<and> configured env (pm_version pm) thr stream (ps_registry_cache (pm_session pm)) nb cache
        \<and> pm' = attached target nb thr c (set_registry_cache cache pm))
    \<or> r = Inr False \<and> stays pm pm'"
proof (cases "764 \<le> sint (pm_version pm)")
  case False
  with assms have "attach_backend env target stream thr pm = (Some r, pm')"
    by (simp add: complete_transfer_def)
  from attach_backend_moves [OF this] False show ?thesis
    by (auto simp: configured_def)
next
  case True
  obtain o1 nb cache where cl:
    "config_loop (pe_z env) (pm_version pm) thr stream (ps_registry_cache (pm_session pm)) = (o1, nb, cache)"
    by (cases "config_loop (pe_z env) (pm_version pm) thr stream (ps_registry_cache (pm_session pm))")
  show ?thesis
  proof (cases "o1 = Some (Inr ())")
    case fin: True
    with True cl assms have "attach_backend env target nb thr (set_registry_cache cache pm) = (Some r, pm')"
      by (simp add: complete_transfer_def)
    from attach_backend_moves [OF this] True fin cl show ?thesis
      by (auto simp: configured_def)
  next
    case False
    with True cl assms obtain reason where
      "bindS (try_chat env (could_not_connect target reason)) (\<lambda>_. returnS False) (set_registry_cache cache pm) = (Some r, pm')"
      by (auto simp: complete_transfer_def split: option.splits sum.splits)
    from try_chat_then_stays [OF this] show ?thesis
      using stays_trans [OF stays_steps(2) stays_refl_client] by blast
  qed
qed

text \<open>The outcome of the connector for the server the player asks for.\<close>

definition connects :: "'ast play_machine \<Rightarrow> str \<Rightarrow> (conn \<times> nat option) res option option" where
  "connects pm target =
     map_option (\<lambda>cfg. pm_connector pm (pm_attempts pm) target cfg (ps_profile (pm_session pm))
                         (ps_client_ip (pm_session pm)) (pm_version pm))
       (map_of (pc_servers (pm_config pm)) target)"

lemma switch_server_outcome:
  assumes "switch_server env target pm = (Some r, pm')"
  shows "(\<exists>stream thr nb cache c. r = Inr True \<and> connects pm target = Some (Some (Inr (stream, thr)))
        \<and> configured env (pm_version pm) thr stream (ps_registry_cache (pm_session pm)) nb cache
        \<and> pm' = moved target nb thr cache c pm)
    \<or> r = Inr False \<and> stays pm pm'
    \<or> (\<exists>e. r = Inl e) \<and> connects pm target = None \<and> stays pm pm'"
proof (cases "map_of (pc_servers (pm_config pm)) target")
  case None
  with assms have "bindS (chat env (not_found_message target)) (\<lambda>_. returnS False) pm = (Some r, pm')"
    by (simp add: switch_server_def)
  then have "(r = Inr False \<or> (\<exists>e. r = Inl e)) \<and> (\<exists>c. pm' = pm\<lparr>pm_client := c\<rparr>)"
    by (rule bindS_Some_cases) (auto simp: returnS_def dest: client_only_apply [OF client_only_chat(1)])
  with None show ?thesis by (auto simp: connects_def intro: stays_refl_client)
next
  case (Some cfg)
  let ?pm = "pm\<lparr>pm_attempts := pm_attempts pm + 1\<rparr>"
  from Some assms consider e where "connects pm target = Some (Some (Inl e))"
      "bindS (try_chat env (could_not_connect target (display_error e))) (\<lambda>_. returnS False) ?pm = (Some r, pm')"
    | stream thr where "connects pm target = Some (Some (Inr (stream, thr)))"
      "complete_transfer env target stream thr ?pm = (Some r, pm')"
    by (auto simp: switch_server_def connects_def Let_def split: option.splits sum.splits)
  then show ?thesis
  proof cases
    case 1
    from try_chat_then_stays [OF 1(2)] show ?thesis
      using stays_trans [OF stays_steps(1) stays_refl_client] by blast
  next
    case 2
    from complete_transfer_outcome [OF 2(2)] show ?thesis
    proof
      assume "\<exists>nb cache c. r = Inr True
        \<and> configured env (pm_version ?pm) thr stream (ps_registry_cache (pm_session ?pm)) nb cache
        \<and> pm' = attached target nb thr c (set_registry_cache cache ?pm)"
      with 2(1) show ?thesis by (auto simp: moved_def)
    next
      assume "r = Inr False \<and> stays ?pm pm'"
      with stays_trans [OF stays_steps(1)] show ?thesis by blast
    qed
  qed
qed

section \<open>Properties\<close>

text \<open>C5. A transfer is all or nothing. Either it succeeds: then the target is a configured server to which the connector got
  through and whose configuration phase was completed, the player is attached to that connection, the old one is
  closed, nothing is left on the screen, and the next join game packet counts as one of a transfer. Or it does not:
  then the player keeps the backend, the server and everything else, but for what was written to him and the
  registry cache; an error is returned only when the target is not configured.\<close>

theorem transfer_all_or_nothing:
  assumes "switch_server env target pm = (Some r, pm')"
  shows "(r = Inr True \<longrightarrow>
        (\<exists>stream thr nb cache. connects pm target = Some (Some (Inr (stream, thr)))
           \<and> configured env (pm_version pm) thr stream (ps_registry_cache (pm_session pm)) nb cache
           \<and> pm_backend pm' = Some nb \<and> pm_backend_threshold pm' = thr \<and> ps_registry_cache (pm_session pm') = cache)
        \<and> pm_server pm' = target \<and> pm_server_transferred pm'
        \<and> pm_closed pm' = (case pm_backend pm of None \<Rightarrow> [] | Some old \<Rightarrow> [old]) @ pm_closed pm
        \<and> pm_open_container_id pm' = None \<and> \<not> pm_has_active_audio pm' \<and> pm_boss_bars pm' = []
        \<and> pm_objectives pm' = [] \<and> pm_display_slots pm' = [])
    \<and> (r \<noteq> Inr True \<longrightarrow>
        pm' = pm\<lparr>pm_client := pm_client pm', pm_attempts := pm_attempts pm',
                 pm_session := (pm_session pm)\<lparr>ps_registry_cache := ps_registry_cache (pm_session pm')\<rparr>\<rparr>)
    \<and> (r = Inl e \<longrightarrow> target \<notin> fst ` set (pc_servers (pm_config pm)))"
  using switch_server_outcome [OF assms]
proof (elim disjE)
  assume "\<exists>stream thr nb cache c. r = Inr True \<and> connects pm target = Some (Some (Inr (stream, thr)))
        \<and> configured env (pm_version pm) thr stream (ps_registry_cache (pm_session pm)) nb cache
        \<and> pm' = moved target nb thr cache c pm"
  then obtain stream thr nb cache c where r: "r = Inr True" "connects pm target = Some (Some (Inr (stream, thr)))"
    "configured env (pm_version pm) thr stream (ps_registry_cache (pm_session pm)) nb cache"
    and pm': "pm' = moved target nb thr cache c pm" by blast
  have "pm_backend pm' = Some nb" "pm_backend_threshold pm' = thr" "ps_registry_cache (pm_session pm') = cache"
    "pm_server pm' = target" "pm_server_transferred pm'"
    "pm_closed pm' = (case pm_backend pm of None \<Rightarrow> [] | Some old \<Rightarrow> [old]) @ pm_closed pm"
    "pm_open_container_id pm' = None" "\<not> pm_has_active_audio pm'" "pm_boss_bars pm' = []"
    "pm_objectives pm' = []" "pm_display_slots pm' = []"
    unfolding pm' by (simp_all add: moved_def attached_def clean_def set_registry_cache_def)
  with r show ?thesis by blast
next
  assume s: "r = Inr False \<and> stays pm pm'"
  then have "pm' = pm\<lparr>pm_client := pm_client pm', pm_attempts := pm_attempts pm',
      pm_session := (pm_session pm)\<lparr>ps_registry_cache := ps_registry_cache (pm_session pm')\<rparr>\<rparr>"
    by (auto simp: stays_def)
  with s show ?thesis by simp
next
  assume s: "(\<exists>e. r = Inl e) \<and> connects pm target = None \<and> stays pm pm'"
  then have "pm' = pm\<lparr>pm_client := pm_client pm', pm_attempts := pm_attempts pm',
      pm_session := (pm_session pm)\<lparr>ps_registry_cache := ps_registry_cache (pm_session pm')\<rparr>\<rparr>"
    by (auto simp: stays_def)
  moreover from s have "target \<notin> fst ` set (pc_servers (pm_config pm))"
    by (simp add: connects_def map_of_eq_None_iff)
  ultimately show ?thesis using s by blast
qed

text \<open>A machine whose connector gets through to a backend that accepts everything.\<close>

definition open_conn :: conn where
  "open_conn = \<lparr>inb = [], in_end = Silent, outb = [], wfate = []\<rparr>"

theorem transfer_all_or_nothing_witness:
  "let pm = (example_machine 47)\<lparr>pm_connector := (\<lambda>_ _ _ _ _ _. Some (Inr (open_conn, Some 256)))\<rparr>;
       d = switch_server example_play_env (str ''steelmc'') pm
   in fst d = Some (Inr True) \<and> pm_server (snd d) = str ''steelmc'' \<and> pm_closed (snd d) = [open_conn]"
proof -
  let ?pm = "(example_machine 47)\<lparr>pm_connector := (\<lambda>_ _ _ _ _ _. Some (Inr (open_conn, Some 256)))\<rparr>"
  have "map_of (pc_servers (pm_config ?pm)) (str ''steelmc'') \<noteq> None"
    by (simp add: example_machine_def with_thresholds_def default_proxy_config_def)
  moreover have "fst (attach_backend example_play_env (str ''steelmc'') open_conn (Some 256) (?pm\<lparr>pm_attempts := 1\<rparr>)) = Some (Inr True)"
    by (simp add: attach_backend_def example_machine_def with_thresholds_def teardown_transferred_state_def
        teardown_container_def teardown_audio_def teardown_objectives_def teardown_display_slots_def teardown_boss_bars_def
        bindS_def ignoreS_def returnS_def)
  ultimately have "fst (switch_server example_play_env (str ''steelmc'') ?pm) = Some (Inr True)"
    by (auto simp: switch_server_def complete_transfer_def Let_def example_machine_def with_thresholds_def)
  then obtain pm' where d: "switch_server example_play_env (str ''steelmc'') ?pm = (Some (Inr True), pm')"
    by (metis prod.collapse)
  have "pm_backend ?pm = Some open_conn" "pm_closed ?pm = []"
    by (simp_all add: example_machine_def with_thresholds_def open_conn_def)
  with transfer_all_or_nothing [OF d] d show ?thesis by (simp add: Let_def)
qed

end
