(* ===== verification/Play_Run.thy ===== *)
theory Play_Run
  imports Play_Transfer
begin

text \<open>
  The handlers and the routing loop of \<^verbatim>\<open>PlayStateMachine\<close>: what they keep, stated once for every predicate that the
  single changes of the machine keep (locale \<open>machine_invariant\<close>), and what gets through to either side.
\<close>

section \<open>Predicates that operations keep\<close>

definition keeps :: "('s \<Rightarrow> bool) \<Rightarrow> ('s \<Rightarrow> 'a res option \<times> 's) \<Rightarrow> bool" where
  "keeps I m \<longleftrightarrow> (\<forall>s r s'. I s \<longrightarrow> m s = (Some r, s') \<longrightarrow> I s')"

lemma keepsD: "keeps I m \<Longrightarrow> I s \<Longrightarrow> m s = (Some r, s') \<Longrightarrow> I s'"
  by (auto simp: keeps_def)

lemma keepsI: "(\<And>s r s'. I s \<Longrightarrow> m s = (Some r, s') \<Longrightarrow> I s') \<Longrightarrow> keeps I m"
  by (auto simp: keeps_def)

lemma keeps_returnS: "keeps I (returnS x)"
  by (simp add: keeps_def returnS_def)

lemma keeps_failS: "keeps I (failS e)"
  by (simp add: keeps_def failS_def)

lemma keeps_bindS: "keeps I m \<Longrightarrow> (\<And>x. keeps I (f x)) \<Longrightarrow> keeps I (bindS m f)"
proof (rule keepsI)
  fix s r s'
  assume m: "keeps I m" and f: "\<And>x. keeps I (f x)" and s: "I s" "bindS m f s = (Some r, s')"
  from s(2) show "I s'"
  proof (rule bindS_Some_cases)
    fix e
    assume "m s = (Some (Inl e), s')"
    with m s(1) show ?thesis by (rule keepsD)
  next
    fix x s1
    assume x: "m s = (Some (Inr x), s1)" and fx: "f x s1 = (Some r, s')"
    from m s(1) x have "I s1" by (rule keepsD)
    with f show ?thesis using fx by (rule keepsD)
  qed
qed

lemma keeps_ignoreS: "keeps I m \<Longrightarrow> keeps I (ignoreS m)"
  unfolding keeps_def ignoreS_def by (auto split: prod.splits option.splits)

text \<open>A property of the machine that the single changes of its fields keep, with what is known when each happens.\<close>

locale machine_invariant =
  fixes I :: "'ast play_machine \<Rightarrow> bool"
  assumes inv_client: "I pm \<Longrightarrow> I (pm\<lparr>pm_client := c\<rparr>)"
    and inv_backend: "I pm \<Longrightarrow> I (pm\<lparr>pm_backend := Some b\<rparr>)"
    and inv_script_host: "I pm \<Longrightarrow> I (pm\<lparr>pm_script_host := h\<rparr>)"
    and inv_window: "I pm \<Longrightarrow> I (pm\<lparr>pm_open_container_id := None\<rparr>)"
    and inv_arrived: "I pm \<Longrightarrow> I (pm\<lparr>pm_server_transferred := False\<rparr>)"
    and inv_track: "I pm \<Longrightarrow> I (track p pm)"
    and inv_stays: "I pm \<Longrightarrow> stays pm pm' \<Longrightarrow> I pm'"
    and inv_moved: "I pm \<Longrightarrow> connects pm target = Some (Some (Inr (stream, thr))) \<Longrightarrow> I (moved target nb thr cache c pm)"
begin

lemma keeps_client_only: "client_only m \<Longrightarrow> keeps I m"
  unfolding keeps_def by (auto dest!: client_only_apply intro: inv_client)

lemma keeps_switch_server: "keeps I (switch_server env target)"
  unfolding keeps_def by (auto dest!: switch_server_outcome intro: inv_stays inv_moved)

lemma keeps_send_backend: "keeps I (send_backend env pkt)"
  unfolding keeps_def send_backend_def
  by (auto simp: returnS_def split: option.splits prod.splits intro: inv_backend)

lemma keeps_if: "keeps I m \<Longrightarrow> keeps I m' \<Longrightarrow> keeps I (if b then m else m')"
  by simp

lemmas keeps_intros = keeps_bindS keeps_returnS keeps_failS keeps_ignoreS keeps_if keeps_switch_server keeps_send_backend
  client_only_send [THEN keeps_client_only] client_only_chat [THEN keeps_client_only]

lemma keeps_run_command: "keeps I (run_command env cmd)"
proof (rule keepsI)
  fix pm r pm'
  assume I: "I pm" and m: "run_command env cmd pm = (Some r, pm')"
  let ?event = "\<lparr>ce_player_name = pr_name (ps_profile (pm_session pm)), ce_command = normalized_command cmd,
      ce_current_server = pm_server pm\<rparr>"
  obtain res host where "eval_command ?event (pm_script_host pm) = (res, host)"
    by (cases "eval_command ?event (pm_script_host pm)")
  with m have "bindS (if cr_send_message res \<noteq> [] then chat env (cr_send_message res) else returnS ()) (\<lambda>_.
      if cr_reroute_server res \<noteq> [] then bindS (switch_server env (cr_reroute_server res)) (\<lambda>_. returnS True)
      else returnS (cr_cancel res)) (pm\<lparr>pm_script_host := host\<rparr>) = (Some r, pm')"
    by (simp add: run_command_def Let_def)
  then show "I pm'"
    by (rule keepsD [rotated 2]) (intro keeps_intros, rule inv_script_host [OF I])
qed

lemma keeps_answer_tab_complete: "keeps I (answer_tab_complete env req)"
proof (rule keepsI)
  fix pm r pm'
  assume I: "I pm" and m: "answer_tab_complete env req pm = (Some r, pm')"
  let ?event = "\<lparr>te_player_name = pr_name (ps_profile (pm_session pm)), te_command = tcq_text req,
      te_current_server = pm_server pm\<rparr>"
  obtain ss host where "eval_tab_complete ?event (pm_script_host pm) = (ss, host)"
    by (cases "eval_tab_complete ?event (pm_script_host pm)")
  moreover obtain start len where "completion_range (tcq_text req) = (start, len)"
    by (cases "completion_range (tcq_text req)")
  ultimately obtain ss' p where "(if ss' = ([] :: str list) then returnS False else bindS (send_client env p) (\<lambda>_. returnS True))
      (pm\<lparr>pm_script_host := host\<rparr>) = (Some r, pm')"
    using m unfolding answer_tab_complete_def Let_def by simp
  then show "I pm'"
    by (rule keepsD [rotated 2]) (intro keeps_intros, rule inv_script_host [OF I])
qed

lemma keeps_handle_client_packet: "keeps I (handle_client_packet env packet)"
proof (rule keepsI)
  fix pm r pm'
  assume I: "I pm" and m: "handle_client_packet env packet pm = (Some r, pm')"
  show "I pm'"
  proof (cases "is_protected_plugin_channel packet")
    case True
    with I m show ?thesis by (simp add: handle_client_packet_def returnS_def)
  next
    case False
    let ?pm = "if is_serverbound_close_container_packet (rp_id packet) (pm_version pm)
         then pm\<lparr>pm_open_container_id := None\<rparr> else pm"
    have "I ?pm" using I by (simp add: inv_window)
    moreover have "keeps I (case intercepted_command v packet of Some cmd \<Rightarrow> run_command env cmd | None \<Rightarrow> returnS False)" for v
      by (cases "intercepted_command v packet") (simp_all add: keeps_run_command keeps_returnS)
    moreover have "keeps I (case intercepted_completion v packet of Some req \<Rightarrow> answer_tab_complete env req | None \<Rightarrow> returnS False)" for v
      by (cases "intercepted_completion v packet") (simp_all add: keeps_answer_tab_complete keeps_returnS)
    ultimately have "keeps I (bindS (case intercepted_command (pm_version pm) packet of
          Some cmd \<Rightarrow> run_command env cmd | None \<Rightarrow> returnS False) (\<lambda>handled.
        if handled then returnS True
        else bindS (case intercepted_completion (pm_version pm) packet of
              Some req \<Rightarrow> answer_tab_complete env req | None \<Rightarrow> returnS False) (\<lambda>handled.
          if handled then returnS True
          else bindS (send_backend env packet) (\<lambda>_. returnS True))))"
      by (intro keeps_intros)
    from keepsD [OF this \<open>I ?pm\<close>] m False show ?thesis
      by (simp add: handle_client_packet_def)
  qed
qed

lemma keeps_to_fallback: "keeps I (\<lambda>pm. bindS (try_chat env (msg pm)) (\<lambda>_. switch_server env (target pm)) pm)"
proof (rule keepsI)
  fix pm r pm'
  assume "I pm" "bindS (try_chat env (msg pm)) (\<lambda>_. switch_server env (target pm)) pm = (Some r, pm')"
  then show "I pm'" by (rule keepsD [rotated]) (intro keeps_intros)
qed

lemma keeps_handle_disconnect: "keeps I (handle_disconnect env)"
  using keeps_to_fallback [of env] by (auto simp: keeps_def handle_disconnect_def failS_def)

lemma keeps_handle_backend_eof: "keeps I (handle_backend_eof env)"
  using keeps_to_fallback [of env] by (auto simp: keeps_def handle_backend_eof_def returnS_def)

lemma keeps_forward: "keeps I (bindS (send_client env pkt) (\<lambda>_. returnS True))"
  by (intro keeps_intros)

lemma keeps_handle_login_play: "keeps I (handle_login_play env packet)"
proof (rule keepsI)
  fix pm r pm'
  assume I: "I pm" and m: "handle_login_play env packet pm = (Some r, pm')"
  show "I pm'"
    using keepsD [OF keeps_forward I] keepsD [OF keeps_forward inv_arrived [OF I]] m
    by (auto simp: handle_login_play_def split: if_splits)
qed

lemma keeps_handle_backend_packet: "keeps I (handle_backend_packet env packet)"
proof (rule keepsI)
  fix pm r pm'
  assume I: "I pm" and m: "handle_backend_packet env packet pm = (Some r, pm')"
  note t = inv_track [OF I, of packet]
  show "I pm'"
    using m I keepsD [OF keeps_handle_disconnect t] keepsD [OF keeps_handle_login_play t] keepsD [OF keeps_forward t]
    unfolding handle_backend_packet_def Let_def by (auto simp: returnS_def split: if_splits)
qed

lemma after_handler_keeps:
  assumes "keeps I m" "I pm" "after_handler (m pm) = (st, pm')" "st = Running \<or> st = Done (Inl e)"
  shows "I pm'"
proof -
  obtain r pm1 where m: "m pm = (r, pm1)" by (cases "m pm")
  with assms(3,4) have "pm1 = pm' \<and> r \<noteq> None"
    by (auto simp: after_handler_def leave_loop_def Let_def split: option.splits sum.splits if_splits)
  then obtain r' where "r = Some r'" "pm1 = pm'" by auto
  with m have "m pm = (Some r', pm')" by simp
  with assms(1,2) show ?thesis by (rule keepsD)
qed

lemma leave_loop_done: "leave_loop pm = (st, pm') \<Longrightarrow> st = Done (Inr ())"
  by (simp add: leave_loop_def Let_def)

lemma client_turn_keeps:
  assumes I: "I pm" and t: "client_turn env polled b pm = (st, pm')" and st: "st = Running \<or> st = Done (Inl e)"
  shows "I pm'"
proof -
  obtain x c where rd: "read_packet_with_compression (pe_z env) DEFAULT_MAX_PACKET_SIZE (pm_client_threshold pm) (pm_client pm) = (x, c)"
    by (cases "read_packet_with_compression (pe_z env) DEFAULT_MAX_PACKET_SIZE (pm_client_threshold pm) (pm_client pm)")
  let ?pm = "pm\<lparr>pm_client := c, pm_backend := Some (dropped_read (pe_z env) (pm_backend_threshold pm) polled b)\<rparr>"
  have I': "I ?pm" using I by (intro inv_backend inv_client)
  from t rd consider "pm' = pm" | "leave_loop ?pm = (st, pm')" | p where "after_handler (handle_client_packet env p ?pm) = (st, pm')"
    by (auto simp: client_turn_def Let_def split: option.splits sum.splits)
  then show ?thesis
    using I st after_handler_keeps [OF keeps_handle_client_packet I'] by cases (auto dest: leave_loop_done)
qed

lemma backend_turn_keeps:
  assumes I: "I pm" and t: "backend_turn env polled b pm = (st, pm')" and st: "st = Running \<or> st = Done (Inl e)"
  shows "I pm'"
proof -
  obtain x b' where rd: "read_packet_with_compression (pe_z env) DEFAULT_MAX_PACKET_SIZE (pm_backend_threshold pm) b = (x, b')"
    by (cases "read_packet_with_compression (pe_z env) DEFAULT_MAX_PACKET_SIZE (pm_backend_threshold pm) b")
  let ?pm = "pm\<lparr>pm_backend := Some b', pm_client := dropped_read (pe_z env) (pm_client_threshold pm) polled (pm_client pm)\<rparr>"
  have I': "I ?pm" using I by (intro inv_backend inv_client)
  from t rd consider "pm' = pm" | "pm' = ?pm" | "after_handler (handle_backend_eof env ?pm) = (st, pm')"
    | p where "after_handler (handle_backend_packet env p ?pm) = (st, pm')"
    by (auto simp: backend_turn_def Let_def split: option.splits sum.splits if_splits)
  then show ?thesis
    using I I' st after_handler_keeps [OF keeps_handle_backend_eof I'] after_handler_keeps [OF keeps_handle_backend_packet I']
    by cases auto
qed

lemma after_handler_ends:
  assumes "fst (m pm) \<noteq> Some (Inr True)" "\<And>e. fst (m pm) \<noteq> Some (Inl e)" "after_handler (m pm) = (st, pm')"
  shows "st = Stuck \<or> st = Done (Inr ())"
proof -
  obtain r pm1 where "m pm = (r, pm1)" by (cases "m pm")
  with assms show ?thesis
    by (auto simp: after_handler_def leave_loop_def Let_def split: option.splits sum.splits if_splits)
qed

lemma shutdown_turn_ends:
  assumes "shutdown_turn env cp bp b pm = (st, pm')"
  shows "st = Stuck \<or> st = Done (Inr ())"
proof -
  have "never_fails (bindS (try_send_client env pkt) (\<lambda>_. returnS False))" for pkt
    by (intro never_fails_bindS never_fails_try_send never_fails_returnS)
  then have "fst (bindS (try_send_client env pkt) (\<lambda>_. returnS False) q) \<noteq> Some (Inl e)" for pkt q e
    unfolding never_fails_def by blast
  moreover have "fst (bindS (try_send_client env pkt) (\<lambda>_. returnS False) q) \<noteq> Some (Inr True)" for pkt q
    by (auto simp: bindS_def returnS_def split: prod.splits option.splits sum.splits)
  ultimately show ?thesis
    using assms after_handler_ends unfolding shutdown_turn_def Let_def by metis
qed

lemma run_turn_keeps:
  assumes I: "I pm" and t: "run_turn env ev pm = (st, pm')" and st: "st = Running \<or> st = Done (Inl e)"
  shows "I pm'"
proof (cases "pm_backend pm")
  case None
  with t st show ?thesis by (auto simp: run_turn_def dest: leave_loop_done)
next
  case (Some b)
  show ?thesis
  proof (cases ev)
    case (ShutdownTurn cp bp)
    with t Some st show ?thesis by (auto simp: run_turn_def dest!: shutdown_turn_ends)
  next
    case (ClientTurn polled)
    with t Some client_turn_keeps [OF I _ st] show ?thesis by (simp add: run_turn_def)
  next
    case (BackendTurn polled)
    with t Some backend_turn_keeps [OF I _ st] show ?thesis by (simp add: run_turn_def)
  qed (use t Some I inv_client inv_backend in \<open>auto simp: run_turn_def\<close>)
qed

lemma run_keeps:
  "I pm \<Longrightarrow> run env evs pm = (st, pm') \<Longrightarrow> st = Running \<or> st = Done (Inl e) \<Longrightarrow> I pm'"
proof (induction evs arbitrary: pm)
  case (Cons ev evs)
  obtain st1 pm1 where t: "run_turn env ev pm = (st1, pm1)" by (cases "run_turn env ev pm")
  show ?case
  proof (cases st1)
    case Running
    then show ?thesis
      using Cons.IH [of pm1] Cons.prems t run_turn_keeps [OF Cons.prems(1) t] by auto
  next
    case (Done x)
    with Cons.prems t run_turn_keeps [OF Cons.prems(1) t] show ?thesis by auto
  next
    case Stuck
    with Cons.prems t show ?thesis by auto
  qed
qed auto

end

section \<open>The invariant of a session\<close>

definition session_inv :: "'ast play_machine \<Rightarrow> bool" where
  "session_inv pm \<longleftrightarrow> pm_backend pm \<noteq> None \<and> pm_server pm \<in> fst ` set (pc_servers (pm_config pm))
     \<and> pm_compression_threshold pm = pm_client_threshold pm \<and> \<not> pm_client_closed pm \<and> tracked_wf pm"

lemma connects_configured: "connects pm target = Some x \<Longrightarrow> target \<in> fst ` set (pc_servers (pm_config pm))"
  by (auto simp: connects_def dest!: map_of_SomeD) force

interpretation session: machine_invariant session_inv
proof
  fix pm pm' :: "'a play_machine"
  show "session_inv pm \<Longrightarrow> stays pm pm' \<Longrightarrow> session_inv pm'"
    unfolding stays_def by (elim exE) (simp add: session_inv_def tracked_wf_def)
  fix target stream thr nb cache c
  show "session_inv pm \<Longrightarrow> connects pm target = Some (Some (Inr (stream, thr))) \<Longrightarrow>
      session_inv (moved target nb thr cache c pm)"
    using connects_configured [of pm target]
    by (simp add: session_inv_def moved_def attached_def clean_def set_registry_cache_def tracked_wf_def)
next
  fix pm :: "'a play_machine" and p
  show "session_inv pm \<Longrightarrow> session_inv (track p pm)"
    by (simp add: session_inv_def tracked_wf_track)
qed (simp_all add: session_inv_def tracked_wf_def)

text \<open>What the machine is configured with never changes.\<close>

definition fixed_settings :: "'ast play_machine \<Rightarrow> 'ast play_machine \<Rightarrow> bool" where
  "fixed_settings pm0 pm \<longleftrightarrow> pm_config pm = pm_config pm0 \<and> pm_connector pm = pm_connector pm0
     \<and> pm_client_threshold pm = pm_client_threshold pm0 \<and> pm_version pm = pm_version pm0
     \<and> ps_profile (pm_session pm) = ps_profile (pm_session pm0) \<and> ps_client_ip (pm_session pm) = ps_client_ip (pm_session pm0)"

interpretation settings: machine_invariant "fixed_settings pm0" for pm0 :: "'ast play_machine"
  by unfold_locales
     (auto simp: fixed_settings_def stays_def moved_def attached_def clean_def set_registry_cache_def)

section \<open>Properties\<close>

text \<open>C6. As long as the routing loop runs, whatever the peers send and in whatever order the branches complete, the player has a
  backend (so the branch for a missing one is never taken), it is that of a configured server, the alias of the
  compression threshold is right, what is noted of the screen is well formed, the client connection has not been shut
  down, and settings, protocol version and profile are those of the start.\<close>

theorem routing_loop_invariant:
  assumes "ps_current_server session \<in> fst ` set (pc_servers config)"
    and "run env evs (with_thresholds c b con session config host ct bt) = (Running, pm')"
  shows "pm_backend pm' \<noteq> None \<and> pm_server pm' \<in> fst ` set (pc_servers (pm_config pm'))
    \<and> pm_compression_threshold pm' = ct \<and> pm_client_threshold pm' = ct \<and> tracked_wf pm' \<and> \<not> pm_client_closed pm'
    \<and> pm_config pm' = config \<and> pm_connector pm' = con \<and> pm_version pm' = ps_protocol_version session
    \<and> ps_profile (pm_session pm') = ps_profile session"
proof -
  let ?pm = "with_thresholds c b con session config host ct bt"
  have "session_inv ?pm" "fixed_settings ?pm ?pm"
    using assms(1) by (simp_all add: session_inv_def tracked_wf_def fixed_settings_def with_thresholds_def)
  with session.run_keeps [OF _ assms(2)] settings.run_keeps [OF _ assms(2)]
  have "session_inv pm'" "fixed_settings ?pm pm'" by blast+
  then show ?thesis by (simp add: session_inv_def fixed_settings_def with_thresholds_def)
qed

theorem routing_loop_invariant_witness:
  "\<exists>pm'. run example_play_env [ClientSends [1], ClientTurn True, BackendTurn False] (example_machine 765) = (Running, pm')
     \<and> pm_backend pm' \<noteq> None \<and> pm_server pm' \<in> fst ` set (pc_servers (pm_config pm'))"
proof -
  let ?c = "\<lparr>inb = [], in_end = Silent, outb = [], wfate = []\<rparr>"
  let ?session = "\<lparr>ps_profile = example_profile, ps_client_ip = str ''1.2.3.4'', ps_protocol_version = 765,
        ps_current_server = str ''lobby'', ps_registry_cache = cache_new\<rparr>"
  let ?con = "\<lambda>_ _ cfg profile ip v. tcp_connect example_env [] cfg profile ip v"
  let ?evs = "[ClientSends [1], ClientTurn True, BackendTurn False]"
  have ex: "example_machine 765 = with_thresholds ?c ?c ?con ?session default_proxy_config (ScriptHost_new example_rhai None) None None"
    by (simp add: example_machine_def)
  have read: "fst (read_packet_with_compression z DEFAULT_MAX_PACKET_SIZE thr \<lparr>inb = bs, in_end = Silent, outb = [], wfate = []\<rparr>) = None"
    if "bs = [] \<or> bs = [1]" for z thr bs
    using that by (auto simp: read_packet_with_compression_def bindS_def read_varint_def read_var_loop.simps read_u8_def
        at_end_def Let_def read_body_eq i32_as_usize_def DEFAULT_MAX_PACKET_SIZE_def)
  obtain s t where rd:
    "read_packet_with_compression (pe_z example_play_env) DEFAULT_MAX_PACKET_SIZE None
       \<lparr>inb = [1], in_end = Silent, outb = [], wfate = []\<rparr> = (None, s)"
    "read_packet_with_compression (pe_z example_play_env) DEFAULT_MAX_PACKET_SIZE None
       \<lparr>inb = [], in_end = Silent, outb = [], wfate = []\<rparr> = (None, t)"
    using read [of "[1]"] read [of "[]"] by (metis prod.collapse)
  have "fst (run example_play_env ?evs (example_machine 765)) = Running"
    by (simp add: ex with_thresholds_def run_turn_def client_turn_def backend_turn_def rd)
  then obtain pm' where r: "run example_play_env ?evs (example_machine 765) = (Running, pm')"
    by (metis prod.collapse)
  have "ps_current_server ?session \<in> fst ` set (pc_servers default_proxy_config)"
    by (simp add: default_proxy_config_def)
  from routing_loop_invariant [OF this r [unfolded ex]] r show ?thesis by blast
qed

text \<open>Writes to connections that take them, with a compressor that does not fail.\<close>

lemma send_client_ok:
  "zlib_ok (pe_z env) \<Longrightarrow> wfate (pm_client pm) = [] \<Longrightarrow> send_client env pkt pm = (Some (Inr ()), emit env [pkt] pm)"
  by (simp add: send_client_def write_client_def on_client_def bindS_def ignoreS_def flush_def returnS_def
      write_packet_accepting encode_is_wire emit_def)

definition forward :: "play_env \<Rightarrow> raw_packet \<Rightarrow> 'ast play_machine \<Rightarrow> 'ast play_machine" where
  "forward env packet pm =
     pm\<lparr>pm_backend := map_option
          (\<lambda>b. b\<lparr>outb := outb b @ wire (pe_z env) (pm_backend_threshold pm) packet\<rparr>) (pm_backend pm)\<rparr>"

lemma send_backend_ok:
  "zlib_ok (pe_z env) \<Longrightarrow> pred_option (\<lambda>b. wfate b = []) (pm_backend pm) \<Longrightarrow>
   send_backend env packet pm = (Some (Inr ()), forward env packet pm)"
  by (cases "pm_backend pm")
    (simp_all add: send_backend_def forward_def bindS_def ignoreS_def flush_def returnS_def
      write_packet_accepting encode_is_wire)

text \<open>What the scripts say to a command or a completion request of the player, with the state the scripts leave.\<close>

definition ask_command :: "chat_command \<Rightarrow> 'ast play_machine \<Rightarrow> command_result \<times> 'ast play_machine" where
  "ask_command cmd pm =
     (case eval_command \<lparr>ce_player_name = pr_name (ps_profile (pm_session pm)), ce_command = normalized_command cmd,
             ce_current_server = pm_server pm\<rparr> (pm_script_host pm) of
        (res, host) \<Rightarrow> (res, pm\<lparr>pm_script_host := host\<rparr>))"

definition ask_completion :: "tab_complete_request \<Rightarrow> 'ast play_machine \<Rightarrow> str list \<times> 'ast play_machine" where
  "ask_completion req pm =
     (case eval_tab_complete \<lparr>te_player_name = pr_name (ps_profile (pm_session pm)), te_command = tcq_text req,
             te_current_server = pm_server pm\<rparr> (pm_script_host pm) of
        (from_scripts, host) \<Rightarrow>
          (if from_scripts = [] then fallback_suggestions (map fst (pc_servers (pm_config pm))) (tcq_text req) else from_scripts,
           pm\<lparr>pm_script_host := host\<rparr>))"

definition note_close :: "raw_packet \<Rightarrow> 'ast play_machine \<Rightarrow> 'ast play_machine" where
  "note_close packet pm =
     (if is_serverbound_close_container_packet (rp_id packet) (pm_version pm) then pm\<lparr>pm_open_container_id := None\<rparr> else pm)"

text \<open>The command step lets the packet pass: it holds no command, or the scripts neither cancel nor reroute it.\<close>

definition command_passes :: "raw_packet \<Rightarrow> 'ast play_machine \<Rightarrow> 'ast play_machine \<Rightarrow> bool" where
  "command_passes packet pm pm' \<longleftrightarrow>
     (case intercepted_command (pm_version pm) packet of
        None \<Rightarrow> pm' = pm
      | Some cmd \<Rightarrow>
          (\<exists>res. ask_command cmd pm = (res, pm') \<and> \<not> cr_cancel res \<and> cr_reroute_server res = []))"

lemma ask_command_keeps:
  assumes "ask_command cmd pm = (res, pm')"
  shows "\<exists>host. pm' = pm\<lparr>pm_script_host := host\<rparr>"
  using assms by (auto simp: ask_command_def split: prod.splits)

lemma command_loop_message:
  "command_loop rh event asts w = (res, w') \<Longrightarrow> \<not> cr_cancel res \<Longrightarrow> cr_reroute_server res = [] \<Longrightarrow>
   res = command_result_default"
  by (induction rh event asts w rule: command_loop.induct) (auto simp: Let_def split: prod.splits option.splits if_splits)

lemma passing_command_is_silent:
  "ask_command cmd pm = (res, pm') \<Longrightarrow> \<not> cr_cancel res \<Longrightarrow> cr_reroute_server res = [] \<Longrightarrow> cr_send_message res = []"
  by (auto simp: ask_command_def eval_command_def command_result_default_def split: prod.splits dest!: command_loop_message)

lemma run_command_asks:
  assumes "zlib_ok (pe_z env)" and "wfate (pm_client pm) = []" and "ask_command cmd pm = (res, pm')"
  shows "run_command env cmd pm =
    (let told = (if cr_send_message res = [] then pm' else emit env [chat_packet env pm (cr_send_message res)] pm')
     in if cr_reroute_server res \<noteq> [] then bindS (switch_server env (cr_reroute_server res)) (\<lambda>_. returnS True) told
        else (Some (Inr (cr_cancel res)), told))"
proof -
  obtain host where e: "eval_command \<lparr>ce_player_name = pr_name (ps_profile (pm_session pm)),
      ce_command = normalized_command cmd, ce_current_server = pm_server pm\<rparr> (pm_script_host pm) = (res, host)"
    and pm': "pm' = pm\<lparr>pm_script_host := host\<rparr>"
    using assms(3) by (auto simp: ask_command_def split: prod.splits)
  have "wfate (pm_client pm') = []" "chat_packet env pm' m = chat_packet env pm m" for m
    using assms(2) by (simp_all add: pm' chat_packet_def)
  with assms(1) e show ?thesis
    by (simp add: run_command_def Let_def pm' [symmetric] bindS_def [of "chat _ _"] chat_def send_client_ok
        returnS_def)
qed

lemma answer_tab_complete_asks:
  assumes "zlib_ok (pe_z env)" and "wfate (pm_client pm) = []" and "ask_completion req pm = (suggestions, pm')"
  shows "answer_tab_complete env req pm =
    (if suggestions = [] then (Some (Inr False), pm')
     else (Some (Inr True), emit env [tab_complete_response_encode_with_version (pm_version pm)
             \<lparr>tcr_transaction_id = tcq_transaction_id req, tcr_start = fst (completion_range (tcq_text req)),
              tcr_length = snd (completion_range (tcq_text req)), tcr_matches = suggestions\<rparr>] pm'))"
proof -
  have "wfate (pm_client pm') = []"
    using assms(2,3) by (auto simp: ask_completion_def split: prod.splits)
  with assms(1,3) show ?thesis
    by (auto simp: answer_tab_complete_def ask_completion_def Let_def bindS_def [of "send_client _ _"] send_client_ok
        returnS_def split: prod.splits)
qed

lemma handle_client_unprotected:
  assumes "\<not> is_protected_plugin_channel packet"
  shows "handle_client_packet env packet pm =
      bindS (case intercepted_command (pm_version pm) packet of Some cmd \<Rightarrow> run_command env cmd | None \<Rightarrow> returnS False)
        (\<lambda>handled. if handled then returnS True
         else bindS (case intercepted_completion (pm_version pm) packet of
                   Some req \<Rightarrow> answer_tab_complete env req | None \<Rightarrow> returnS False)
           (\<lambda>handled. if handled then returnS True else bindS (send_backend env packet) (\<lambda>_. returnS True))) (note_close packet pm)"
  using assms by (simp add: handle_client_packet_def note_close_def)

lemma note_close_keeps:
  "wfate (pm_client (note_close packet pm)) = wfate (pm_client pm)" "pm_backend (note_close packet pm) = pm_backend pm"
  "pm_version (note_close packet pm) = pm_version pm" "chat_packet env (note_close packet pm) = chat_packet env pm"
  by (auto simp: note_close_def chat_packet_def)

text \<open>A command that the scripts decide.\<close>

lemma client_command_decided:
  assumes "zlib_ok (pe_z env)" and "wfate (pm_client pm) = []"
    and "\<not> is_protected_plugin_channel packet" "intercepted_command (pm_version pm) packet = Some cmd"
    and "ask_command cmd (note_close packet pm) = (res, pm1)" "cr_cancel res \<or> cr_reroute_server res \<noteq> []"
  shows "handle_client_packet env packet pm =
          (let told = (if cr_send_message res = [] then pm1
                       else emit env [chat_packet env pm (cr_send_message res)] pm1)
           in if cr_reroute_server res \<noteq> []
              then bindS (switch_server env (cr_reroute_server res)) (\<lambda>_. returnS True) told
              else (Some (Inr True), told))"
proof -
  have "wfate (pm_client (note_close packet pm)) = []" using assms(2) by (simp add: note_close_keeps)
  note ran = run_command_asks [OF assms(1) this assms(5)]
  show ?thesis
  proof (cases "cr_reroute_server res = []")
    case True
    with assms(4,6) ran show ?thesis
      by (simp add: handle_client_unprotected [OF assms(3)] note_close_keeps bindS_def [of "run_command env cmd"] Let_def returnS_def)
  next
    case False
    with assms(4) ran show ?thesis
      by (cases "switch_server env (cr_reroute_server res)
            (if cr_send_message res = [] then pm1 else emit env [chat_packet env pm (cr_send_message res)] pm1)")
        (auto simp: handle_client_unprotected [OF assms(3)] note_close_keeps bindS_def [of "run_command env cmd"] Let_def
          bindS_def [of "switch_server _ _"] returnS_def split: option.split sum.split)
  qed
qed

text \<open>A packet that is no command, or a command the scripts let pass.\<close>

lemma client_command_passes:
  assumes "zlib_ok (pe_z env)" and "wfate (pm_client pm) = []"
    and "\<not> is_protected_plugin_channel packet" "command_passes packet (note_close packet pm) pm2"
  shows "handle_client_packet env packet pm =
      bindS (case intercepted_completion (pm_version pm) packet of
               Some req \<Rightarrow> answer_tab_complete env req | None \<Rightarrow> returnS False)
        (\<lambda>handled. if handled then returnS True else bindS (send_backend env packet) (\<lambda>_. returnS True)) pm2
      \<and> wfate (pm_client pm2) = [] \<and> pm_backend pm2 = pm_backend pm \<and> pm_version pm2 = pm_version pm"
proof (cases "intercepted_command (pm_version pm) packet")
  case None
  with assms(2,4) show ?thesis by (simp add: command_passes_def handle_client_unprotected [OF assms(3)] note_close_keeps)
next
  case (Some cmd)
  with assms(4) obtain res where
    r: "ask_command cmd (note_close packet pm) = (res, pm2)" "\<not> cr_cancel res" "cr_reroute_server res = []"
    by (auto simp: command_passes_def note_close_keeps)
  have w: "wfate (pm_client (note_close packet pm)) = []" using assms(2) by (simp add: note_close_keeps)
  with ask_command_keeps [OF r(1)] have "wfate (pm_client pm2) = []" "pm_backend pm2 = pm_backend pm"
    "pm_version pm2 = pm_version pm"
    by (auto simp: note_close_keeps)
  moreover have "run_command env cmd (note_close packet pm) = (Some (Inr False), pm2)"
    using run_command_asks [OF assms(1) w r(1)] r(2,3) passing_command_is_silent [OF r] by simp
  ultimately show ?thesis
    using Some by (simp add: handle_client_unprotected [OF assms(3)] bindS_def [of "run_command env cmd"])
qed

text \<open>C17. What becomes of a packet of the client, on every path. On a protected plugin channel it is dropped without any effect
  (from the backend too). A command the scripts cancel reaches neither backend nor player, except that a
  message of the script is written to the player. A command they reroute makes the player change servers and is not
  forwarded. A completion request with suggestions is answered to the player and not forwarded. Everything else, be it a
  command the scripts let pass, a completion request without suggestions, a closed window or a packet the proxy
  does not look at, is written to the backend unchanged, and nothing to the player.\<close>

theorem client_packet_routing:
  assumes "zlib_ok (pe_z env)" and "wfate (pm_client pm) = []" and "pred_option (\<lambda>b. wfate b = []) (pm_backend pm)"
  shows "(is_protected_plugin_channel packet \<longrightarrow>
        handle_client_packet env packet pm = (Some (Inr True), pm)
        \<and> handle_backend_packet env packet pm = (Some (Inr True), pm))
    \<and> (\<not> is_protected_plugin_channel packet
         \<and> intercepted_command (pm_version pm) packet = Some cmd
         \<and> ask_command cmd (note_close packet pm) = (res, pm1) \<and> (cr_cancel res \<or> cr_reroute_server res \<noteq> []) \<longrightarrow>
        handle_client_packet env packet pm =
          (let told = (if cr_send_message res = [] then pm1
                       else emit env [chat_packet env pm (cr_send_message res)] pm1)
           in if cr_reroute_server res \<noteq> []
              then bindS (switch_server env (cr_reroute_server res)) (\<lambda>_. returnS True) told
              else (Some (Inr True), told)))
    \<and> (\<not> is_protected_plugin_channel packet \<and> command_passes packet (note_close packet pm) pm2 \<longrightarrow>
        (intercepted_completion (pm_version pm) packet = None \<longrightarrow>
          handle_client_packet env packet pm = (Some (Inr True), forward env packet pm2))
      \<and> (intercepted_completion (pm_version pm) packet = Some req \<and> ask_completion req pm2 = (suggestions, pm3) \<longrightarrow>
          handle_client_packet env packet pm =
            (Some (Inr True),
             if suggestions = [] then forward env packet pm3
             else emit env [tab_complete_response_encode_with_version (pm_version pm)
                   \<lparr>tcr_transaction_id = tcq_transaction_id req, tcr_start = fst (completion_range (tcq_text req)),
                    tcr_length = snd (completion_range (tcq_text req)), tcr_matches = suggestions\<rparr>] pm3)))"
proof -
  have forwarded: "bindS (send_backend env packet) (\<lambda>_. returnS True) q = (Some (Inr True), forward env packet q)"
    if "pm_backend q = pm_backend pm" for q
    using send_backend_ok [OF assms(1), of q packet] assms(3) that by (simp add: bindS_def returnS_def)
  have no_completion: "handle_client_packet env packet pm = (Some (Inr True), forward env packet pm2)"
    if "\<not> is_protected_plugin_channel packet" "command_passes packet (note_close packet pm) pm2"
      "intercepted_completion (pm_version pm) packet = None"
    using client_command_passes [OF assms(1,2) that(1,2)] forwarded [of pm2] that(3) by simp
  have completion: "handle_client_packet env packet pm =
      (Some (Inr True),
       if suggestions = [] then forward env packet pm3
       else emit env [tab_complete_response_encode_with_version (pm_version pm)
             \<lparr>tcr_transaction_id = tcq_transaction_id req, tcr_start = fst (completion_range (tcq_text req)),
              tcr_length = snd (completion_range (tcq_text req)), tcr_matches = suggestions\<rparr>] pm3)"
    if h: "\<not> is_protected_plugin_channel packet" "command_passes packet (note_close packet pm) pm2"
      "intercepted_completion (pm_version pm) packet = Some req" "ask_completion req pm2 = (suggestions, pm3)"
  proof -
    have "pm_backend pm3 = pm_backend pm2"
      using h(4) by (auto simp: ask_completion_def split: prod.splits)
    with client_command_passes [OF assms(1,2) h(1,2)] forwarded [of pm3] h(3) answer_tab_complete_asks [OF assms(1) _ h(4)]
    show ?thesis
      by (simp add: bindS_def [of "answer_tab_complete env req"] returnS_def)
  qed
  have "is_protected_plugin_channel packet \<longrightarrow> handle_client_packet env packet pm = (Some (Inr True), pm)
        \<and> handle_backend_packet env packet pm = (Some (Inr True), pm)"
    by (simp add: handle_client_packet_def handle_backend_packet_def returnS_def)
  with client_command_decided [OF assms(1,2)] no_completion completion show ?thesis by blast
qed

text \<open>A player without scripts sends a command, which passes, and a completion request, which the proxy answers.\<close>

theorem client_packet_routing_witness:
  "let pm = example_machine 765;
       help = chat_command_encode_with_version 765 \<lparr>cc_command = str ''help''\<rparr>
   in handle_client_packet example_play_env help pm = (Some (Inr True), forward example_play_env help pm)"
proof -
  let ?pm = "example_machine 765" and ?p = "chat_command_encode_with_version 765 \<lparr>cc_command = str ''help''\<rparr>"
  have pm: "wfate (pm_client ?pm) = []" "pred_option (\<lambda>b. wfate b = []) (pm_backend ?pm)" "pm_version ?pm = 765"
    by (simp_all add: example_machine_def with_thresholds_def)
  have z: "zlib_ok (pe_z example_play_env)"
    by (simp add: example_play_env_def zlib_ok_stored)
  have id: "rp_id ?p = 0x04"
    by (simp add: chat_command_encode_with_version_def chat_command_id_def SERVERBOUND_CHAT_COMMAND_PACKET_ID_def)
  have w: "wf_string (str ''help'')"
    by (simp add: wf_string_def fits_i32_def str_def utf8_first_def of_char_def)
  have cmd: "intercepted_command 765 ?p = Some \<lparr>cc_command = str ''help''\<rparr>"
    using chat_command_codec.decode_encode [of "\<lparr>cc_command = str ''help''\<rparr>" 765] w
    by (simp add: intercepted_command_def is_command_packet_def id is_chat_packet_def SERVERBOUND_CHAT_COMMAND_PACKET_ID_def)
  have host: "sh_plugins (pm_script_host ?pm) = []" "sh_ast (pm_script_host ?pm) = []" "sh_engine (pm_script_host ?pm) = example_rhai"
    by (simp_all add: example_machine_def with_thresholds_def ScriptHost_new_def example_rhai_def)
  have "eval_command e (pm_script_host ?pm) = (command_result_default, pm_script_host ?pm)" for e
    by (simp add: eval_command_def scripts_def host ask_def has_fn_def example_rhai_def)
  then have "ask_command \<lparr>cc_command = str ''help''\<rparr> ?pm = (command_result_default, ?pm)"
    by (simp add: ask_command_def)
  moreover have nc: "note_close ?p ?pm = ?pm"
    by (simp add: note_close_def pm(3) id is_serverbound_close_container_packet_def)
  ultimately have passes: "command_passes ?p (note_close ?p ?pm) ?pm"
    by (simp add: command_passes_def pm(3) cmd command_result_default_def)
  have np: "\<not> is_protected_plugin_channel ?p"
  proof -
    have "payload ?p = put_prefixed (str ''help'')"
      by (simp add: chat_command_encode_with_version_def)
    moreover have "to_ascii_lowercase (str ''help'') = str ''help''"
      by (simp add: to_ascii_lowercase_def ascii_lower_def is_ascii_upper_def str_def of_char_def)
    ultimately show ?thesis
      by (simp add: is_protected_plugin_channel_def put_prefixed_def codec_simps usize_as_i32_def i32_as_usize_def Let_def)
  qed
  have nt: "intercepted_completion 765 ?p = None"
    by (simp add: intercepted_completion_def is_tab_complete_request_def id)
  from client_packet_routing [OF z pm(1,2), of ?p _ _ _ ?pm] np passes nt pm(3)
  show ?thesis unfolding Let_def by metis
qed

text \<open>C9. After a transfer the join game packet of the new server never reaches the client: a respawn packet is written in its
  place, with an identifier that is not that of a join game packet, and from then on join game packets are passed on
  again.\<close>

theorem login_becomes_respawn:
  assumes "pm_server_transferred pm" and "is_login_play_packet (rp_id packet) (pm_version pm)"
    and "\<not> is_protected_plugin_channel packet"
    and "client_takes env pm [transfer_respawn (pm_version pm) packet]"
  shows "handle_backend_packet env packet pm =
      (Some (Inr True), emit env [transfer_respawn (pm_version pm) packet] ((track packet pm)\<lparr>pm_server_transferred := False\<rparr>))
    \<and> rp_id (transfer_respawn (pm_version pm) packet) = respawn_id (pm_version pm)
    \<and> \<not> is_login_play_packet (respawn_id (pm_version pm)) (pm_version pm)"
proof -
  let ?v = "pm_version pm" and ?pm = "(track packet pm)\<lparr>pm_server_transferred := False\<rparr>"
  have nd: "\<not> is_play_disconnect packet"
    using assms(2) by (auto simp: is_play_disconnect_def is_login_play_packet_def split: if_splits)
  have "client_takes env ?pm [transfer_respawn ?v packet]"
    using assms(4) by (simp add: client_takes_def)
  from send_client_takes(1) [OF this] have
    "handle_backend_packet env packet pm = (Some (Inr True), emit env [transfer_respawn ?v packet] ?pm)"
    using assms(1-3) nd by (simp add: handle_backend_packet_def Let_def handle_login_play_def bindS_def returnS_def)
  moreover have "rp_id (transfer_respawn ?v packet) = respawn_id ?v"
    by (auto simp: transfer_respawn_def Let_def extract_respawn_from_login_with_data_kept_def extract_respawn_modern_def
        extract_respawn_764_def respawn_encode_with_version_def split: option.splits bind_splits)
  moreover have "\<not> is_login_play_packet (respawn_id ?v) ?v"
    by (auto simp: respawn_id_def is_login_play_packet_def RESPAWN_PACKET_ID_def)
  ultimately show ?thesis by simp
qed

theorem login_becomes_respawn_witness:
  "let pm = (example_machine 47)\<lparr>pm_server_transferred := True\<rparr>; p = RawPacket 0x23 []
   in fst (handle_backend_packet example_play_env p pm) = Some (Inr True)
      \<and> \<not> is_login_play_packet (rp_id (transfer_respawn 47 p)) 47"
proof -
  let ?pm = "(example_machine 47)\<lparr>pm_server_transferred := True\<rparr>" and ?p = "RawPacket 0x23 []"
  have pm: "pm_server_transferred ?pm" "pm_version ?pm = 47" by (simp_all add: example_machine_def with_thresholds_def)
  have p: "is_login_play_packet (rp_id ?p) (pm_version ?pm)" "\<not> is_protected_plugin_channel ?p"
    by (simp_all add: example_machine_def with_thresholds_def is_login_play_packet_def is_protected_plugin_channel_def decode_varint_def decode_var_loop.simps)
  have "encode_packet_with_compression stored q None = Inr (frame q)" for q
    by (simp add: encode_packet_with_compression_def Let_def frame_def)
  then have "client_takes example_play_env ?pm [transfer_respawn (pm_version ?pm) ?p]"
    by (simp add: client_takes_def sendable_def example_play_env_def example_machine_def with_thresholds_def
        DEFAULT_MAX_PACKET_SIZE_def wire_length_def frame_def transfer_respawn_def Let_def
        extract_respawn_from_login_with_data_kept_def respawn_encode_with_version_def respawn_default_reset_def put_prefixed_def
        varint_size_def encode_varint_def encode_var_loop.simps put_i64_def put_bool_def usize_as_i32_def)
  from login_becomes_respawn [OF pm(1) p this] pm(2) show ?thesis by (simp add: Let_def)
qed

end
