(* ===== verification/Login_Flow.thy ===== *)
theory Login_Flow
  imports Encrypted_Stream Status_Ping
begin

text \<open>
  The login phase of \<^verbatim>\<open>src/src/network/listener.rs\<close>: the stream that becomes encrypted (\<^verbatim>\<open>ActiveStream\<close>) and the
  authentication of the player (\<^verbatim>\<open>handle_login_auth\<close>, \<^verbatim>\<open>handle_login\<close>).

  A stream is its connection and, once encrypted, the states of the two ciphers. Operations on packets run on the
  plaintext view of the connection (\<open>view\<close>) and their effect is written back (\<open>push\<close>): what they consumed is consumed
  from the ciphertext, and what they wrote is encrypted. That this byte level view is what the poll level wrapper
  provides is the theorem of \<^verbatim>\<open>Encrypted_Stream\<close>.
\<close>

section \<open>The stream\<close>

datatype 'st active_stream = Plain conn | Encrypted 'st 'st conn

fun is_encrypted :: "'st active_stream \<Rightarrow> bool" where
  "is_encrypted (Plain c) = False"
| "is_encrypted (Encrypted e d c) = True"

text \<open>The inner stream, also after \<^verbatim>\<open>into_inner\<close>.\<close>

fun raw_conn :: "'st active_stream \<Rightarrow> conn" where
  "raw_conn (Plain c) = c"
| "raw_conn (Encrypted e d c) = c"

fun view :: "'st cfb8 \<Rightarrow> 'st active_stream \<Rightarrow> conn" where
  "view cf (Plain c) = c\<lparr>outb := []\<rparr>"
| "view cf (Encrypted e d c) = c\<lparr>inb := fst (decrypt_blocks cf d (inb c)), outb := []\<rparr>"

fun push :: "'st cfb8 \<Rightarrow> 'st active_stream \<Rightarrow> conn \<Rightarrow> 'st active_stream" where
  "push cf (Plain c) v = Plain (v\<lparr>outb := outb c @ outb v\<rparr>)"
| "push cf (Encrypted e d c) v =
     (let n = length (inb c) - length (inb v) in
      Encrypted (snd (encrypt_blocks cf e (outb v))) (snd (decrypt_blocks cf d (take n (inb c))))
        (v\<lparr>inb := drop n (inb c), outb := outb c @ fst (encrypt_blocks cf e (outb v))\<rparr>))"

type_synonym ('st, 'a) sio = "'st active_stream \<Rightarrow> 'a res option \<times> 'st active_stream"

definition on_stream :: "'st cfb8 \<Rightarrow> 'a io \<Rightarrow> ('st, 'a) sio" where
  "on_stream cf m s = (case m (view cf s) of (r, v) \<Rightarrow> (r, push cf s v))"

text \<open>\<^verbatim>\<open>EncryptedStream::new(inner_stream, &shared_secret)\<close>.\<close>

definition encrypted :: "'st cfb8 \<Rightarrow> bytes \<Rightarrow> conn \<Rightarrow> 'st active_stream" where
  "encrypted cf secret c = Encrypted (cf_new cf secret secret) (cf_new cf secret secret) c"

section \<open>Authentication\<close>

text \<open>What the listener uses of other code: forwarding (with zlib, UUIDs and TCP), the JSON of a text, the cipher, RSA,
  SHA-1, version 3 UUIDs, the HTTP client, the JSON of a status, \<^verbatim>\<open>to_lowercase\<close>, what later TCP connects of the same
  player return, and the random values of one connection.\<close>

record ('k, 'st) listener_env =
  le_fwd :: fwd_env
  le_json :: "str \<Rightarrow> str"
  le_cfb8 :: "'st cfb8"
  le_rsa :: "'k rsa"
  le_sha1 :: "bytes \<Rightarrow> bytes"
  le_new_v3 :: "bytes \<Rightarrow> uuid"
  le_http :: "str \<Rightarrow> http_reply"
  le_status_json :: "status_response \<Rightarrow> str + str"
  le_lower :: "str \<Rightarrow> str"
  le_reconnect :: "nat \<Rightarrow> str \<Rightarrow> ((io_kind \<times> str) + conn) option"
  le_verify_token :: bytes
  le_new_v4 :: uuid

abbreviation le_z :: "('k, 'st) listener_env \<Rightarrow> zlib" where
  "le_z env \<equiv> fe_z (le_fwd env)"

abbreviation stream_read :: "('k, 'st) listener_env \<Rightarrow> nat option \<Rightarrow> ('st, raw_packet) sio" where
  "stream_read env thr \<equiv> on_stream (le_cfb8 env) (read_packet_with_compression (le_z env) DEFAULT_MAX_PACKET_SIZE thr)"

abbreviation stream_write :: "('k, 'st) listener_env \<Rightarrow> raw_packet \<Rightarrow> nat option \<Rightarrow> ('st, unit) sio" where
  "stream_write env pkt thr \<equiv> on_stream (le_cfb8 env) (write_packet_with_compression (le_z env) pkt thr)"

abbreviation stream_flush :: "('k, 'st) listener_env \<Rightarrow> ('st, unit) sio" where
  "stream_flush env \<equiv> on_stream (le_cfb8 env) flush"

text \<open>\<^verbatim>\<open>let _ = write_packet_with_compression(..).await; let _ = flush().await;\<close> and then an error.\<close>

definition say :: "('k, 'st) listener_env \<Rightarrow> nat option \<Rightarrow> raw_packet \<Rightarrow> ('st, unit) sio" where
  "say env thr pkt = bindS (ignoreS (stream_write env pkt thr)) (\<lambda>_. ignoreS (stream_flush env))"

definition goodbye :: "('k, 'st) listener_env \<Rightarrow> nat option \<Rightarrow> raw_packet \<Rightarrow> proxy_error \<Rightarrow> ('st, 'a) sio" where
  "goodbye env thr pkt e = bindS (say env thr pkt) (\<lambda>_. failS e)"

definition login_disconnect :: "('k, 'st) listener_env \<Rightarrow> str \<Rightarrow> raw_packet" where
  "login_disconnect env reason = disconnect_encode_login (le_json env) \<lparr>dc_reason = reason\<rparr>"

definition secret_length_message :: "nat \<Rightarrow> str" where
  "secret_length_message n = str ''Invalid shared secret length: '' @ dec_nat n @ str '' bytes (expected 16)''"

definition mismatch_message :: "str \<Rightarrow> str \<Rightarrow> str" where
  "mismatch_message requested verified =
     str ''Username mismatch: client requested '' @ [0x27] @ requested @ [0x27]
     @ str '', Mojang authenticated as '' @ [0x27] @ verified @ [0x27]"

text \<open>Steps 7 to 9: the session server is asked, and the stream is encrypted. A failed check is told to the client on the
  encrypted stream.\<close>

definition verify_and_encrypt ::
  "('k, 'st) listener_env \<Rightarrow> str \<Rightarrow> proxy_config \<Rightarrow> 'k rsa_key_manager \<Rightarrow> str \<Rightarrow> bytes \<Rightarrow> ('st, player_profile) sio" where
  "verify_and_encrypt env client_ip config rsa_manager username shared_secret stream =
     (let server_hash = mojang_sha1_digest (le_sha1 env) [] shared_secret (rk_public_key_der rsa_manager);
          endpoint_url = (case pc_session_server_url config of Some url \<Rightarrow> url | None \<Rightarrow> DEFAULT_MOJANG_SESSION_SERVER)
      in
      case verify_session_with_url (le_http env) username server_hash client_ip endpoint_url of
        Inl e \<Rightarrow>
          goodbye env None
            (login_disconnect env (section_sign @ str ''cFailed to verify username: '' @ display_error e)) e
            (encrypted (le_cfb8 env) shared_secret (raw_conn stream))
      | Inr verified_profile \<Rightarrow>
          if \<not> eq_ignore_ascii_case (pr_name verified_profile) username then
            failS (AuthenticationFailed (mismatch_message username (pr_name verified_profile))) stream
          else
            (case stream of
               Plain s \<Rightarrow> returnS verified_profile (encrypted (le_cfb8 env) shared_secret s)
             | Encrypted _ _ _ \<Rightarrow> failS (AuthenticationFailed (str ''Stream is already encrypted'')) stream))"

text \<open>Steps 2 to 6. Both ciphertexts are decrypted before an error of either is looked at.\<close>

definition login_encryption_request :: "('k, 'st) listener_env \<Rightarrow> 'k rsa_key_manager \<Rightarrow> i32 \<Rightarrow> raw_packet" where
  "login_encryption_request env rsa_manager v =
     encryption_request_encode_with_version
       \<lparr>erq_server_id = [], erq_public_key = rk_public_key_der rsa_manager, erq_verify_token = le_verify_token env,
        erq_should_authenticate = True\<rparr> v"

definition online_login ::
  "('k, 'st) listener_env \<Rightarrow> str \<Rightarrow> i32 \<Rightarrow> proxy_config \<Rightarrow> 'k rsa_key_manager \<Rightarrow> str \<Rightarrow> ('st, player_profile) sio" where
  "online_login env client_ip v config rsa_manager username =
     bindS (stream_write env (login_encryption_request env rsa_manager v) None) (\<lambda>_.
     bindS (timeoutS (Io TimedOut (str ''EncryptionResponse read timed out'')) (stream_read env None)) (\<lambda>resp_raw.
     bindS (liftS (encryption_response_decode resp_raw)) (\<lambda>enc_resp.
     bindS (liftS (RsaKeyManager_decrypt (le_rsa env) rsa_manager (ers_shared_secret enc_resp))) (\<lambda>decrypted_secret.
     bindS (liftS (RsaKeyManager_decrypt (le_rsa env) rsa_manager (ers_verify_token enc_resp))) (\<lambda>decrypted_token.
     if \<not> constant_time_eq decrypted_token (le_verify_token env) then
       failS (AuthenticationFailed (str ''Encryption verification token mismatch''))
     else if length decrypted_secret \<noteq> 16 then
       failS (AuthenticationFailed (secret_length_message (length decrypted_secret)))
     else verify_and_encrypt env client_ip config rsa_manager username decrypted_secret)))))"

definition handle_login_auth ::
  "('k, 'st) listener_env \<Rightarrow> str \<Rightarrow> i32 \<Rightarrow> proxy_config \<Rightarrow> 'k rsa_key_manager \<Rightarrow> ('st, player_profile) sio" where
  "handle_login_auth env client_ip v config rsa_manager =
     bindS (timeoutS (Io TimedOut (str ''LoginStart read timed out'')) (stream_read env None)) (\<lambda>raw_packet.
     bindS (liftS (login_start_decode raw_packet)) (\<lambda>login_start.
     if pc_online_mode config then online_login env client_ip v config rsa_manager (lst_username login_start)
     else returnS (offline_profile (le_new_v3 env) (lst_username login_start))))"

definition login_success_for :: "('k, 'st) listener_env \<Rightarrow> player_profile \<Rightarrow> uuid option \<Rightarrow> i32 \<Rightarrow> raw_packet" where
  "login_success_for env profile session_id v =
     encode_login_success_with_session (fe_uuid (le_fwd env)) (le_new_v4 env) (pr_id profile) (pr_name profile)
       (pr_properties profile) session_id v"

definition handle_login ::
  "('k, 'st) listener_env \<Rightarrow> str \<Rightarrow> i32 \<Rightarrow> proxy_config \<Rightarrow> 'k rsa_key_manager \<Rightarrow> ('st, player_profile) sio" where
  "handle_login env client_ip v config rsa_manager =
     bindS (handle_login_auth env client_ip v config rsa_manager) (\<lambda>profile.
     bindS (stream_write env
              (login_success_for env profile (if 776 \<le> sint v then Some (le_new_v4 env) else None) v) None) (\<lambda>_.
     bindS (stream_flush env) (\<lambda>_. returnS profile)))"

section \<open>Operations on streams\<close>

lemma raw_conn_encrypted [simp]: "raw_conn (encrypted cf secret c) = c" "is_encrypted (encrypted cf secret c)"
  by (simp_all add: encrypted_def)

lemma stream_read_plain:
  assumes "stream_read env thr (Plain c) = (r, s)"
  shows "\<exists>i. s = Plain (c\<lparr>inb := i\<rparr>)"
proof -
  let ?m = "read_packet_with_compression (le_z env) DEFAULT_MAX_PACKET_SIZE thr"
  have "reads_only ?m" by (rule reads_only_read_packet)
  then have "outb (snd (?m (c\<lparr>outb := []\<rparr>))) = []" "wfate (snd (?m (c\<lparr>outb := []\<rparr>))) = wfate c"
    "in_end (snd (?m (c\<lparr>outb := []\<rparr>))) = in_end c"
    by (simp_all add: reads_only_def)
  with assms show ?thesis
    by (intro exI [of _ "inb (snd (?m (c\<lparr>outb := []\<rparr>)))"])
       (auto simp: on_stream_def split: prod.splits intro!: conn.equality)
qed

lemma stream_write_plain:
  "wfate c = [] \<Longrightarrow> stream_write env p None (Plain c) = (Some (Inr ()), Plain (c\<lparr>outb := outb c @ frame p\<rparr>))"
  using write_packet_accepted [of "c\<lparr>outb := []\<rparr>" "le_z env" p]
  by (simp add: on_stream_def write_packet_def)

lemma say_encrypted:
  assumes "wfate c = []"
  shows "\<exists>e' d'. say env None p (Encrypted e d c) =
    (Some (Inr ()), Encrypted e' d' (c\<lparr>outb := outb c @ fst (encrypt_blocks (le_cfb8 env) e (frame p))\<rparr>))"
proof -
  let ?v = "c\<lparr>inb := fst (decrypt_blocks (le_cfb8 env) d (inb c)), outb := []\<rparr>"
  have "write_packet_with_compression (le_z env) p None ?v = (Some (Inr ()), ?v\<lparr>outb := frame p\<rparr>)"
    using write_packet_accepted [of ?v "le_z env" p] assms by (simp add: write_packet_def)
  then show ?thesis
    by (simp add: say_def on_stream_def bindS_def ignoreS_def flush_def returnS_def length_decrypt Let_def)
qed

section \<open>Who gets in\<close>

text \<open>What is on the wire when authentication ends: nothing new, the encryption request, or that and one encrypted message.\<close>

definition auth_wire :: "('k, 'st) listener_env \<Rightarrow> 'k rsa_key_manager \<Rightarrow> i32 \<Rightarrow> bytes \<Rightarrow> bool" where
  "auth_wire env rsa_manager v out \<longleftrightarrow>
     out = [] \<or> (\<exists>secret reason.
       out = frame (login_encryption_request env rsa_manager v)
       \<or> out = frame (login_encryption_request env rsa_manager v)
              @ fst (encrypt_blocks (le_cfb8 env) (cf_new (le_cfb8 env) secret secret) (frame (login_disconnect env reason))))"

definition session_confirmed ::
  "('k, 'st) listener_env \<Rightarrow> str \<Rightarrow> proxy_config \<Rightarrow> 'k rsa_key_manager \<Rightarrow> str \<Rightarrow> bytes \<Rightarrow> player_profile \<Rightarrow> bool" where
  "session_confirmed env ip config rsa_manager username secret profile \<longleftrightarrow>
     verify_session_with_url (le_http env) username
       (mojang_sha1_digest (le_sha1 env) [] secret (rk_public_key_der rsa_manager)) ip
       (case pc_session_server_url config of Some url \<Rightarrow> url | None \<Rightarrow> DEFAULT_MOJANG_SESSION_SERVER) = Inr profile
     \<and> eq_ignore_ascii_case (pr_name profile) username"

text \<open>The client knows the token and a secret that the session server confirms, and the stream is encrypted with it; all that
  was written in clear is the encryption request.\<close>

definition authenticated ::
  "('k, 'st) listener_env \<Rightarrow> str \<Rightarrow> i32 \<Rightarrow> proxy_config \<Rightarrow> 'k rsa_key_manager \<Rightarrow> str \<Rightarrow> player_profile \<Rightarrow> conn
     \<Rightarrow> 'st active_stream \<Rightarrow> bool" where
  "authenticated env ip v config m username profile c s \<longleftrightarrow> (\<exists>secret resp i.
     RsaKeyManager_decrypt (le_rsa env) m (ers_shared_secret (resp :: encryption_response)) = Inr secret \<and> length secret = 16
     \<and> RsaKeyManager_decrypt (le_rsa env) m (ers_verify_token resp) = Inr (le_verify_token env)
     \<and> session_confirmed env ip config m username secret profile
     \<and> s = encrypted (le_cfb8 env) secret (c\<lparr>inb := i, outb := outb c @ frame (login_encryption_request env m v)\<rparr>))"

lemma authenticated_inb [simp]:
  "authenticated env ip v config m username profile (c\<lparr>inb := i\<rparr>) s = authenticated env ip v config m username profile c s"
  by (simp add: authenticated_def)

lemma verify_and_encrypt_outcome:
  assumes "wfate c = []" and "outb c = out @ frame (login_encryption_request env m v)"
  shows "\<exists>r s. verify_and_encrypt env ip config m username secret (Plain c) = (Some r, s)
    \<and> (\<exists>new. outb (raw_conn s) = out @ new \<and> auth_wire env m v new)
    \<and> (\<forall>profile. r = Inr profile \<longrightarrow>
         s = encrypted (le_cfb8 env) secret c \<and> session_confirmed env ip config m username secret profile)"
proof (cases "verify_session_with_url (le_http env) username
       (mojang_sha1_digest (le_sha1 env) [] secret (rk_public_key_der m)) ip
       (case pc_session_server_url config of Some url \<Rightarrow> url | None \<Rightarrow> DEFAULT_MOJANG_SESSION_SERVER)")
  case (Inl e)
  let ?p = "login_disconnect env (section_sign @ str ''cFailed to verify username: '' @ display_error e)"
  from say_encrypted [OF assms(1), of env ?p "cf_new (le_cfb8 env) secret secret" "cf_new (le_cfb8 env) secret secret"]
  obtain e' d' where "say env None ?p (encrypted (le_cfb8 env) secret c) = (Some (Inr ()), Encrypted e' d'
      (c\<lparr>outb := outb c @ fst (encrypt_blocks (le_cfb8 env) (cf_new (le_cfb8 env) secret secret) (frame ?p))\<rparr>))"
    by (auto simp: encrypted_def)
  with Inl assms(2) show ?thesis
    by (auto simp: verify_and_encrypt_def Let_def goodbye_def bindS_def failS_def auth_wire_def)
next
  case (Inr profile)
  with assms(2) show ?thesis
    by (auto simp: verify_and_encrypt_def Let_def failS_def returnS_def auth_wire_def session_confirmed_def)
qed

lemma online_login_outcome:
  assumes "wfate c = []"
  shows "\<exists>r s. online_login env ip v config m username (Plain c) = (Some r, s)
    \<and> (\<exists>new. outb (raw_conn s) = outb c @ new \<and> auth_wire env m v new)
    \<and> (\<forall>profile. r = Inr profile \<longrightarrow> authenticated env ip v config m username profile c s)"
    (is "\<exists>r s. _ \<and> ?ok r s")
proof -
  let ?c = "c\<lparr>outb := outb c @ frame (login_encryption_request env m v)\<rparr>"
  obtain x s1 where rd: "stream_read env None (Plain ?c) = (x, s1)" by (cases "stream_read env None (Plain ?c)")
  then obtain i where s1: "s1 = Plain (?c\<lparr>inb := i\<rparr>)" using stream_read_plain by blast
  have fail: "\<exists>r s. (Some (Inl e), s1) = (Some r, s) \<and> ?ok r s" for e
    using s1 by (auto simp: auth_wire_def)
  note step = stream_write_plain [OF assms, of env "login_encryption_request env m v"]
  show ?thesis
  proof (cases "\<exists>raw resp secret token. x = Some (Inr raw) \<and> encryption_response_decode raw = Inr resp
      \<and> RsaKeyManager_decrypt (le_rsa env) m (ers_shared_secret resp) = Inr secret
      \<and> RsaKeyManager_decrypt (le_rsa env) m (ers_verify_token resp) = Inr token
      \<and> constant_time_eq token (le_verify_token env) \<and> length secret = 16")
    case True
    then obtain raw resp secret where d: "x = Some (Inr raw)" "encryption_response_decode raw = Inr resp"
      "RsaKeyManager_decrypt (le_rsa env) m (ers_shared_secret resp) = Inr secret" "length secret = 16"
      "RsaKeyManager_decrypt (le_rsa env) m (ers_verify_token resp) = Inr (le_verify_token env)"
      by (auto simp: constant_time_eq_iff)
    then have "online_login env ip v config m username (Plain c) =
        verify_and_encrypt env ip config m username secret (Plain (?c\<lparr>inb := i\<rparr>))"
      using rd s1 step by (simp add: online_login_def bindS_def timeoutS_def liftS_def constant_time_eq_iff)
    moreover have "?c\<lparr>inb := i\<rparr> = c\<lparr>inb := i, outb := outb c @ frame (login_encryption_request env m v)\<rparr>" (is "_ = ?c'")
      by simp
    ultimately have eq: "online_login env ip v config m username (Plain c) =
        verify_and_encrypt env ip config m username secret (Plain ?c')" by simp
    from verify_and_encrypt_outcome [of ?c' "outb c" env m v ip config username secret] assms obtain r s where
      "verify_and_encrypt env ip config m username secret (Plain ?c') = (Some r, s)"
      "\<exists>new. outb (raw_conn s) = outb c @ new \<and> auth_wire env m v new"
      "\<forall>profile. r = Inr profile \<longrightarrow> s = encrypted (le_cfb8 env) secret ?c'
         \<and> session_confirmed env ip config m username secret profile"
      by auto
    moreover have "authenticated env ip v config m username profile c s" if "r = Inr profile" for profile
      unfolding authenticated_def using that calculation(3) d(3-5)
      by (intro exI [of _ secret] exI [of _ resp] exI [of _ i]) simp
    ultimately show ?thesis using eq by auto
  next
    case False
    then have "\<exists>e. online_login env ip v config m username (Plain c) = (Some (Inl e), s1)"
      using rd step by (auto simp: online_login_def bindS_def timeoutS_def liftS_def failS_def
          split: option.splits sum.splits)
    with fail show ?thesis by metis
  qed
qed

lemma login_auth_outcome:
  assumes "wfate c = []" and "pc_online_mode config"
  shows "\<exists>r s. handle_login_auth env ip v config m (Plain c) = (Some r, s)
    \<and> (\<exists>new. outb (raw_conn s) = outb c @ new \<and> auth_wire env m v new)
    \<and> (\<forall>profile. r = Inr profile \<longrightarrow>
         (\<exists>username. valid_username username \<and> authenticated env ip v config m username profile c s))"
proof -
  obtain x s1 where rd: "stream_read env None (Plain c) = (x, s1)" by (cases "stream_read env None (Plain c)")
  then obtain i where s1: "s1 = Plain (c\<lparr>inb := i\<rparr>)" using stream_read_plain by blast
  show ?thesis
  proof (cases "\<exists>raw start. x = Some (Inr raw) \<and> login_start_decode raw = Inr start")
    case True
    then obtain raw start where d: "x = Some (Inr raw)" "login_start_decode raw = Inr start" by blast
    then have eq: "handle_login_auth env ip v config m (Plain c) =
        online_login env ip v config m (lst_username start) (Plain (c\<lparr>inb := i\<rparr>))"
      using rd s1 assms(2) by (simp add: handle_login_auth_def bindS_def timeoutS_def liftS_def)
    have "valid_username (lst_username start)" using login_start_decode_wf [OF d(2)] by (simp add: wf_login_start_def)
    with online_login_outcome [of "c\<lparr>inb := i\<rparr>" env ip v config m "lst_username start"] eq assms(1) show ?thesis
      by auto
  next
    case False
    then have "\<exists>e. handle_login_auth env ip v config m (Plain c) = (Some (Inl e), s1)"
      using rd by (auto simp: handle_login_auth_def bindS_def timeoutS_def liftS_def split: option.splits sum.splits)
    with s1 show ?thesis by (auto simp: auth_wire_def)
  qed
qed

lemma login_auth_encrypts:
  assumes "wfate c = []" and "handle_login_auth env ip v config m (Plain c) = (Some (Inr profile), s)"
  shows "is_encrypted s = pc_online_mode config
    \<and> (pc_online_mode config \<longrightarrow> (\<exists>username. valid_username username \<and> authenticated env ip v config m username profile c s))"
proof (cases "pc_online_mode config")
  case True
  with login_auth_outcome [OF assms(1) True, of env ip v m] assms(2) show ?thesis
    by (auto simp: authenticated_def)
next
  case False
  obtain x s1 where rd: "stream_read env None (Plain c) = (x, s1)" by (cases "stream_read env None (Plain c)")
  with stream_read_plain [OF rd] False assms(2) show ?thesis
    by (auto simp: handle_login_auth_def bindS_def timeoutS_def liftS_def returnS_def split: option.splits sum.splits)
qed

text \<open>C2. In online mode a player is let in only after the full exchange: the client returned the verify token and a shared secret
  of 16 bytes under the proxy's public key, the session server confirmed the session for the hash of exactly that
  secret and key, and the confirmed name is the requested one up to case. From then on the stream is encrypted
  with that secret, and all that was written in clear is the encryption request. When authentication fails the client
  has been sent nothing, the encryption request, or that and one encrypted disconnect message; a login success is
  never among it. On a client that takes what is written, authentication always ends.\<close>

theorem online_login_is_authenticated:
  assumes "wfate c = []" and "pc_online_mode config"
  shows "\<exists>r s. handle_login_auth env ip v config m (Plain c) = (Some r, s)
    \<and> (\<exists>new. outb (raw_conn s) = outb c @ new \<and> auth_wire env m v new)
    \<and> (\<forall>profile. r = Inr profile \<longrightarrow>
         (\<exists>username. valid_username username \<and> authenticated env ip v config m username profile c s))"
  using assms by (rule login_auth_outcome)

text \<open>A run on concrete input: the client sends its name and then the token and a secret.\<close>

definition demo_listener :: "(unit, u8) listener_env" where
  "demo_listener = \<lparr>le_fwd = example_env\<lparr>fe_connect :=
       (\<lambda>_. Some (Inr \<lparr>inb = frame (RawPacket 0x02 []), in_end = Silent, outb = [], wfate = []\<rparr>))\<rparr>, le_json = id, le_cfb8 = demo_cfb8,
     le_rsa = \<lparr>rsa_to_der = (\<lambda>_. Inr [9]), rsa_decrypt = (\<lambda>_ bs. Inr (rev bs)), rsa_encrypt = (\<lambda>_ _ bs. Inr (rev bs))\<rparr>,
     le_sha1 = (\<lambda>bs. replicate 20 (fold (+) bs 0)), le_new_v3 = (\<lambda>_. nil_uuid),
     le_http = (\<lambda>_. Reply 200 (str ''OK'') (Inr example_profile)), le_status_json = (\<lambda>_. Inr (str ''{}'')), le_lower = id, le_reconnect = (\<lambda>_. fe_connect example_env),
     le_verify_token = [1, 2, 3, 4], le_new_v4 = nil_uuid\<rparr>"

definition demo_manager :: "unit rsa_key_manager" where
  "demo_manager = \<lparr>rk_private_key = Some (), rk_public_key_der = [9]\<rparr>"

definition demo_start :: raw_packet where
  "demo_start = login_start_encode \<lparr>lst_username = str ''steve'', lst_player_uuid = nil_uuid\<rparr>"

definition demo_response :: raw_packet where
  "demo_response = encryption_response_encode \<lparr>ers_shared_secret = replicate 16 5, ers_verify_token = [4, 3, 2, 1]\<rparr>"

definition demo_client :: conn where
  "demo_client = \<lparr>inb = frame demo_start @ frame demo_response, in_end = Silent, outb = [], wfate = []\<rparr>"

lemma stream_read_frame:
  assumes "wire_length p \<le> DEFAULT_MAX_PACKET_SIZE" and "inb c = frame p @ rest"
  shows "stream_read env None (Plain c) = (Some (Inr p), Plain (c\<lparr>inb := rest\<rparr>))"
  using read_packet_default [OF assms(1), of "c\<lparr>outb := []\<rparr>" rest "le_z env"] assms(2)
  by (simp add: on_stream_def read_packet_def)

lemma demo_packets:
  "wire_length demo_start \<le> DEFAULT_MAX_PACKET_SIZE" "wire_length demo_response \<le> DEFAULT_MAX_PACKET_SIZE"
  "login_start_decode demo_start = Inr \<lparr>lst_username = str ''steve'', lst_player_uuid = nil_uuid\<rparr>"
  "encryption_response_decode demo_response = Inr \<lparr>ers_shared_secret = replicate 16 5, ers_verify_token = [4, 3, 2, 1]\<rparr>"
proof -
  show "login_start_decode demo_start = Inr \<lparr>lst_username = str ''steve'', lst_player_uuid = nil_uuid\<rparr>"
    unfolding demo_start_def
    by (rule login_start.decode_encode)
       (simp add: wf_login_start_def valid_username_def wf_uuid_def nil_uuid_def str_def is_username_byte_def is_ascii_alphanumeric_def
        is_ascii_lower_def is_ascii_upper_def is_ascii_digit_def)
  show "encryption_response_decode demo_response = Inr \<lparr>ers_shared_secret = replicate 16 5, ers_verify_token = [4, 3, 2, 1]\<rparr>"
    unfolding demo_response_def by (rule encryption_response.decode_encode) (simp add: wf_encryption_response_def fits_i32_def)
qed (simp_all add: demo_start_def demo_response_def login_start_encode_def encryption_response_encode_def wire_length_def
    put_prefixed_def nil_uuid_def str_def DEFAULT_MAX_PACKET_SIZE_def varint_size_def length_encode_varint usize_as_i32_def)

lemma demo_confirmed:
  "verify_and_encrypt demo_listener ip default_proxy_config m (str ''steve'') secret (Plain c) =
     (Some (Inr example_profile), encrypted demo_cfb8 secret c)"
proof -
  have "eq_ignore_ascii_case (pr_name example_profile) (str ''steve'')"
    by (simp add: eq_ignore_ascii_case_def to_ascii_lowercase_def example_profile_def str_def ascii_lower_def is_ascii_upper_def)
  then show ?thesis
    by (simp add: verify_and_encrypt_def verify_session_with_url_def demo_listener_def Let_def returnS_def)
qed

lemma demo_online:
  assumes "inb c = frame demo_response" and "wfate c = []"
  shows "fst (online_login demo_listener ip v default_proxy_config demo_manager (str ''steve'') (Plain c)) =
    Some (Inr example_profile)"
proof -
  let ?c = "c\<lparr>outb := outb c @ frame (login_encryption_request demo_listener demo_manager v)\<rparr>"
  have "RsaKeyManager_decrypt (le_rsa demo_listener) demo_manager bs = Inr (rev bs)" for bs
    by (simp add: RsaKeyManager_decrypt_def demo_manager_def demo_listener_def)
  moreover have "le_verify_token demo_listener = [1, 2, 3, 4]" by (simp add: demo_listener_def)
  ultimately show ?thesis
    using stream_write_plain [OF assms(2), of demo_listener "login_encryption_request demo_listener demo_manager v"]
      stream_read_frame [OF demo_packets(2), of ?c "[]" demo_listener] assms(1)
    by (simp add: online_login_def bindS_def timeoutS_def liftS_def demo_packets(4) constant_time_eq_iff demo_confirmed)
qed

lemma demo_run:
  assumes "inb c = inb demo_client" and "wfate c = []"
  shows "fst (handle_login_auth demo_listener ip v default_proxy_config demo_manager (Plain c)) = Some (Inr example_profile)"
proof -
  have "stream_read demo_listener None (Plain c) = (Some (Inr demo_start), Plain (c\<lparr>inb := frame demo_response\<rparr>))"
    by (rule stream_read_frame [OF demo_packets(1)]) (simp add: assms(1) demo_client_def)
  moreover have "pc_online_mode default_proxy_config" by (simp add: default_proxy_config_def)
  ultimately show ?thesis
    using demo_online [of "c\<lparr>inb := frame demo_response\<rparr>"] assms(2)
    by (simp add: handle_login_auth_def bindS_def timeoutS_def liftS_def demo_packets(3))
qed

theorem online_login_is_authenticated_witness:
  "\<exists>s username. handle_login_auth demo_listener (str ''1.2.3.4'') 767 default_proxy_config demo_manager (Plain demo_client) =
      (Some (Inr example_profile), s)
    \<and> authenticated demo_listener (str ''1.2.3.4'') 767 default_proxy_config demo_manager username example_profile demo_client s"
proof -
  let ?h = "handle_login_auth demo_listener (str ''1.2.3.4'') 767 default_proxy_config demo_manager (Plain demo_client)"
  have "fst ?h = Some (Inr example_profile)" by (rule demo_run) (simp_all add: demo_client_def)
  moreover have "wfate demo_client = []" "pc_online_mode default_proxy_config"
    by (simp_all add: demo_client_def default_proxy_config_def)
  ultimately show ?thesis
    using online_login_is_authenticated [of demo_client default_proxy_config demo_listener "str ''1.2.3.4''" 767 demo_manager] by auto
qed

end
