(* ===== verification/Listener.thy ===== *)
theory Listener
  imports Login_Flow Play_Run
begin

text \<open>
  The rest of \<^verbatim>\<open>src/src/network/listener.rs\<close>: \<^verbatim>\<open>process_connection\<close>, which leads a connection through handshake,
  login, configuration and play, and the accept loop with its limit of connections.

  Up to the configuration phase a connection is sequential: its operations run on the client's stream and the backend's
  connection. The configuration phase is a loop over \<^verbatim>\<open>select!\<close> and is driven by the same events as the routing loop of
  \<^verbatim>\<open>Play_Machine\<close>; the events it leaves over go to that loop. Pauses before a connection is closed are not modelled.
\<close>

section \<open>The two sides of a login\<close>

type_synonym ('st, 'a) link = "'st active_stream \<times> conn \<Rightarrow> 'a res option \<times> ('st active_stream \<times> conn)"

definition onC :: "('st, 'a) sio \<Rightarrow> ('st, 'a) link" where
  "onC m sb = (case m (fst sb) of (r, s) \<Rightarrow> (r, (s, snd sb)))"

definition onB :: "'a io \<Rightarrow> ('st, 'a) link" where
  "onB m sb = (case m (snd sb) of (r, b) \<Rightarrow> (r, (fst sb, b)))"

text \<open>\<^verbatim>\<open>match m { Ok(x) => x, Err(e) => .. }\<close>.\<close>

definition recoverS :: "('s \<Rightarrow> 'a res option \<times> 's) \<Rightarrow> (proxy_error \<Rightarrow> 's \<Rightarrow> 'a res option \<times> 's) \<Rightarrow> 's \<Rightarrow> 'a res option \<times> 's" where
  "recoverS m h s = (case m s of (Some (Inl e), s') \<Rightarrow> h e s' | r \<Rightarrow> r)"

section \<open>Join decision and target server\<close>

definition rejection_reason :: "join_result \<Rightarrow> str" where
  "rejection_reason d =
     (if jr_disconnect_reason d = [] then str ''Disconnected by proxy script'' else jr_disconnect_reason d)"

definition join_target :: "proxy_config \<Rightarrow> join_result \<Rightarrow> str" where
  "join_target config d =
     (if jr_target_server d \<noteq> [] \<and> jr_target_server d \<in> fst ` set (pc_servers config) then jr_target_server d
      else pc_default_server config)"

definition quoted :: "str \<Rightarrow> str" where
  "quoted s = [0x27] @ s @ [0x27]"

definition admit ::
  "('k, 'st) listener_env \<Rightarrow> proxy_config \<Rightarrow> player_profile \<Rightarrow> i32 \<Rightarrow> join_result \<Rightarrow> ('st, str \<times> backend_config) sio" where
  "admit env config profile v join_decision =
     (if \<not> jr_allow join_decision then
        goodbye env None (login_disconnect env (rejection_reason join_decision))
          (AuthenticationFailed (str ''Rejected by script''))
      else
        let target_server_name = join_target config join_decision in
        case map_of (pc_servers config) target_server_name of
          Some cfg \<Rightarrow> returnS (target_server_name, cfg)
        | None \<Rightarrow>
            bindS (say env None (login_success_for env profile (Some (le_new_v4 env)) v)) (\<lambda>_.
            goodbye env None
              (disconnect_encode_for_client (le_json env)
                 \<lparr>dc_reason = section_sign @ str ''cTarget server '' @ quoted target_server_name @ str '' not configured''\<rparr> v True)
              (ConfigError (str ''Target server '' @ quoted target_server_name @ str '' not found''))))"

section \<open>The backend's answer to the login\<close>

definition lost_packet :: "('k, 'st) listener_env \<Rightarrow> proxy_error \<Rightarrow> raw_packet" where
  "lost_packet env e = login_disconnect env (section_sign @ str ''cBackend connection lost: '' @ display_error e)"

definition backend_answer :: "('k, 'st) listener_env \<Rightarrow> ('st, nat option \<times> raw_packet) link" where
  "backend_answer env =
     bindS (recoverS (onB (read_packet (le_z env) DEFAULT_MAX_PACKET_SIZE))
              (\<lambda>e. onC (goodbye env None (lost_packet env e) e))) (\<lambda>backend_login_pkt.
     if rp_id backend_login_pkt = 0x03 then
       bindS (liftS (decode_varint (payload backend_login_pkt))) (\<lambda>(thresh, _).
       if sint thresh < 0 then failS (Io InvalidData (str ''Negative compression threshold from backend''))
       else
         let threshold = Some (i32_as_usize thresh) in
         bindS (onC (stream_write env backend_login_pkt None)) (\<lambda>_.
         bindS (ignoreS (onC (stream_flush env))) (\<lambda>_.
         bindS (recoverS (onB (read_packet_with_compression (le_z env) DEFAULT_MAX_PACKET_SIZE threshold))
                  (\<lambda>e. onC (goodbye env threshold (lost_packet env e) e))) (\<lambda>next_pkt.
         returnS (threshold, next_pkt)))))
     else returnS (None, backend_login_pkt))"

definition encryption_enabled_message :: str where
  "encryption_enabled_message =
     str ''Downstream backend server has online-mode or encryption enabled! Set encryption=false in the backend server configuration.''"

definition unexpected_packet_message :: "i32 \<Rightarrow> str" where
  "unexpected_packet_message i = str ''Backend sent unexpected login packet 0x'' @ hex_02X (unat i)"

definition check_answer :: "('k, 'st) listener_env \<Rightarrow> nat option \<Rightarrow> raw_packet \<Rightarrow> ('st, unit) sio" where
  "check_answer env thr pkt =
     (if rp_id pkt = 0x01 then
        goodbye env thr (login_disconnect env (section_sign @ str ''c'' @ encryption_enabled_message))
          (AuthenticationFailed encryption_enabled_message)
      else if rp_id pkt = 0x00 then
        let reason = from_utf8_lossy (payload pkt) in
        goodbye env thr (login_disconnect env reason)
          (AuthenticationFailed (str ''Backend disconnected during login: '' @ reason))
      else if rp_id pkt \<noteq> 0x02 then
        goodbye env thr (login_disconnect env (section_sign @ str ''c'' @ unexpected_packet_message (rp_id pkt)))
          (InvalidPacketId (rp_id pkt))
      else returnS ())"

definition session_of :: "('k, 'st) listener_env \<Rightarrow> i32 \<Rightarrow> raw_packet \<Rightarrow> uuid" where
  "session_of env v pkt =
     (case ok (login_success_decode_with_version (fe_uuid (le_fwd env)) v pkt) of
        Some success \<Rightarrow> (case lsc_session_id success of Some i \<Rightarrow> i | None \<Rightarrow> le_new_v4 env)
      | None \<Rightarrow> le_new_v4 env)"

definition send_login_success ::
  "('k, 'st) listener_env \<Rightarrow> player_profile \<Rightarrow> i32 \<Rightarrow> nat option \<Rightarrow> raw_packet \<Rightarrow> ('st, unit) sio" where
  "send_login_success env profile v thr pkt =
     bindS (liftS (encode_packet_with_compression (le_z env)
              (login_success_for env profile (Some (session_of env v pkt)) v) thr)) (\<lambda>success_wire.
     bindS (on_stream (le_cfb8 env) (write_all success_wire)) (\<lambda>_. stream_flush env))"

text \<open>Steps 12: the compression threshold that both sides use from now on.\<close>

definition finish_login :: "('k, 'st) listener_env \<Rightarrow> player_profile \<Rightarrow> i32 \<Rightarrow> ('st, nat option) link" where
  "finish_login env profile v =
     bindS (backend_answer env) (\<lambda>(thr, pkt).
     bindS (onC (check_answer env thr pkt)) (\<lambda>_.
     bindS (onC (send_login_success env profile v thr pkt)) (\<lambda>_. returnS thr)))"

section \<open>The configuration phase\<close>

definition shutdown_packet :: "('k, 'st) listener_env \<Rightarrow> i32 \<Rightarrow> raw_packet" where
  "shutdown_packet env v =
     disconnect_encode_for_client (le_json env) \<lparr>dc_reason = section_sign @ str ''cServer is shutting down''\<rparr> v True"

text \<open>Waiting for the acknowledgement, unless the shutdown comes first (\<open>shut\<close>): \<open>False\<close> when the connection is over.\<close>

definition await_acknowledged :: "('k, 'st) listener_env \<Rightarrow> i32 \<Rightarrow> nat option \<Rightarrow> bool \<Rightarrow> ('st, bool) link" where
  "await_acknowledged env v thr shut =
     (if shut then bindS (onC (say env thr (shutdown_packet env v))) (\<lambda>_. returnS False)
      else
        bindS (timeoutS (Io TimedOut (str ''LoginAcknowledged read timed out'')) (onC (stream_read env thr))) (\<lambda>client_ack_raw.
        bindS (liftS (login_acknowledged_decode client_ack_raw)) (\<lambda>_.
        bindS (onB (write_packet_with_compression (le_z env) (login_acknowledged_encode ()) thr)) (\<lambda>_.
        bindS (ignoreS (onB flush)) (\<lambda>_. returnS True)))))"

record 'st bridge =
  br_client :: "'st active_stream"
  br_backend :: conn
  br_cache :: session_registry_cache
  br_client_finished :: bool
  br_backend_finished :: bool

definition finish_id :: "i32 \<Rightarrow> i32" where
  "finish_id v = (if 766 \<le> sint v then 0x03 else 0x02)"

definition disconnect_id :: "i32 \<Rightarrow> i32" where
  "disconnect_id v = (if 766 \<le> sint v then 0x02 else 0x01)"

text \<open>\<open>m\<close>, then a flush whose result is ignored, and on to the next round.\<close>

definition write_then :: "loop_state \<Rightarrow> ('s \<Rightarrow> unit res option \<times> 's) \<Rightarrow> ('s \<Rightarrow> unit res option \<times> 's) \<Rightarrow> 's \<Rightarrow> loop_state \<times> 's" where
  "write_then next_state m fl s =
     (case bindS m (\<lambda>_. ignoreS fl) s of
        (None, s') \<Rightarrow> (Stuck, s')
      | (Some (Inl e), s') \<Rightarrow> (Done (Inl e), s')
      | (Some (Inr _), s') \<Rightarrow> (next_state, s'))"

definition bridge_backend_packet ::
  "('k, 'st) listener_env \<Rightarrow> i32 \<Rightarrow> nat option \<Rightarrow> raw_packet \<Rightarrow> 'st bridge \<Rightarrow> loop_state \<times> 'st bridge" where
  "bridge_backend_packet env v thr pkt br =
     (if is_protected_plugin_channel pkt then (Running, br)
      else
        let br = (if rp_id pkt = REGISTRY_DATA_PACKET_ID \<or> (sint v < 766 \<and> rp_id pkt = 0x05)
                  then br\<lparr>br_cache := snd (cache_packet pkt (br_cache br))\<rparr> else br);
            br = (if rp_id pkt = finish_id v then br\<lparr>br_backend_finished := True\<rparr> else br)
        in
        (case write_then (if rp_id pkt = disconnect_id v then Done (Inr ()) else Running)
                (stream_write env pkt thr) (stream_flush env) (br_client br) of
           (st, s) \<Rightarrow> (st, br\<lparr>br_client := s\<rparr>)))"

definition bridge_client_packet ::
  "('k, 'st) listener_env \<Rightarrow> i32 \<Rightarrow> nat option \<Rightarrow> raw_packet \<Rightarrow> 'st bridge \<Rightarrow> loop_state \<times> 'st bridge" where
  "bridge_client_packet env v thr pkt br =
     (if is_protected_plugin_channel pkt then (Running, br)
      else
        let br = (if rp_id pkt = finish_id v then br\<lparr>br_client_finished := True\<rparr> else br) in
        (case write_then Running (write_packet_with_compression (le_z env) pkt thr) flush (br_backend br) of
           (st, b) \<Rightarrow> (st, br\<lparr>br_backend := b\<rparr>)))"

text \<open>The read of a losing branch that was polled is dropped.\<close>

definition dropped_stream_read :: "('k, 'st) listener_env \<Rightarrow> nat option \<Rightarrow> bool \<Rightarrow> 'st active_stream \<Rightarrow> 'st active_stream" where
  "dropped_stream_read env thr polled s = push (le_cfb8 env) s (dropped_read (le_z env) thr polled (view (le_cfb8 env) s))"

fun receive :: "bytes \<Rightarrow> 'st active_stream \<Rightarrow> 'st active_stream" where
  "receive bs (Plain c) = Plain (c\<lparr>inb := inb c @ bs\<rparr>)"
| "receive bs (Encrypted e d c) = Encrypted e d (c\<lparr>inb := inb c @ bs\<rparr>)"

fun close_input :: "in_end \<Rightarrow> 'st active_stream \<Rightarrow> 'st active_stream" where
  "close_input fin (Plain c) = Plain (c\<lparr>in_end := fin\<rparr>)"
| "close_input fin (Encrypted e d c) = Encrypted e d (c\<lparr>in_end := fin\<rparr>)"

definition bridge_turn ::
  "('k, 'st) listener_env \<Rightarrow> i32 \<Rightarrow> nat option \<Rightarrow> loop_event \<Rightarrow> 'st bridge \<Rightarrow> loop_state \<times> 'st bridge" where
  "bridge_turn env v thr ev br =
     (case ev of
        ClientSends bs \<Rightarrow> (Running, br\<lparr>br_client := receive bs (br_client br)\<rparr>)
      | BackendSends bs \<Rightarrow> (Running, br\<lparr>br_backend := (br_backend br)\<lparr>inb := inb (br_backend br) @ bs\<rparr>\<rparr>)
      | ClientCloses fin \<Rightarrow> (Running, br\<lparr>br_client := close_input fin (br_client br)\<rparr>)
      | BackendCloses fin \<Rightarrow> (Running, br\<lparr>br_backend := (br_backend br)\<lparr>in_end := fin\<rparr>\<rparr>)
      | BackendTurn polled \<Rightarrow>
          (case read_packet_with_compression (le_z env) DEFAULT_MAX_PACKET_SIZE thr (br_backend br) of
             (None, _) \<Rightarrow> (Running, br)
           | (Some r, b) \<Rightarrow>
               let br = br\<lparr>br_client := dropped_stream_read env thr polled (br_client br), br_backend := b\<rparr> in
               (case r of Inl e \<Rightarrow> (Done (Inl e), br) | Inr pkt \<Rightarrow> bridge_backend_packet env v thr pkt br))
      | ClientTurn polled \<Rightarrow>
          (case stream_read env thr (br_client br) of
             (None, _) \<Rightarrow> (Running, br)
           | (Some r, s) \<Rightarrow>
               let br = br\<lparr>br_client := s, br_backend := dropped_read (le_z env) thr polled (br_backend br)\<rparr> in
               (case r of Inl e \<Rightarrow> (Done (Inl e), br) | Inr pkt \<Rightarrow> bridge_client_packet env v thr pkt br))
      | ShutdownTurn cp bp \<Rightarrow>
          let br = br\<lparr>br_client := dropped_stream_read env thr cp (br_client br),
                       br_backend := dropped_read (le_z env) thr bp (br_backend br)\<rparr> in
          (case say env thr (shutdown_packet env v) (br_client br) of
             (None, s) \<Rightarrow> (Stuck, br\<lparr>br_client := s\<rparr>)
           | (Some _, s) \<Rightarrow> (Done (Inr ()), br\<lparr>br_client := s\<rparr>)))"

text \<open>The loop, with the events it leaves over. When it is \<open>Running\<close> at the end, either both sides have finished or
  the events are used up.\<close>

fun bridge_loop ::
  "('k, 'st) listener_env \<Rightarrow> i32 \<Rightarrow> nat option \<Rightarrow> loop_event list \<Rightarrow> 'st bridge \<Rightarrow> loop_state \<times> loop_event list \<times> 'st bridge" where
  "bridge_loop env v thr evs br =
     (if br_client_finished br \<and> br_backend_finished br then (Running, evs, br)
      else
        (case evs of
           [] \<Rightarrow> (Running, [], br)
         | ev # evs \<Rightarrow>
             (case bridge_turn env v thr ev br of
                (Running, br') \<Rightarrow> bridge_loop env v thr evs br'
              | (st, br') \<Rightarrow> (st, evs, br'))))"

declare bridge_loop.simps [simp del]

section \<open>A connection from handshake to play\<close>

text \<open>The local variables of \<^verbatim>\<open>process_connection\<close> that outlive the login.\<close>

record player_entry =
  en_client_ip :: str
  en_version :: i32
  en_profile :: player_profile
  en_target :: str
  en_threshold :: "nat option"

text \<open>Where a connection has got to: it is over (\<open>None\<close>: it waits for ever), it is still in the configuration phase, or
  it was handed to the routing loop, with the client's stream as it was then.\<close>

datatype ('st, 'ast) progress =
    Ended "unit res option" "'st active_stream" "conn option"
  | InConfiguration player_entry "'st bridge"
  | InPlay loop_state "'st active_stream" "'ast play_machine"

definition ended :: "'a res option \<Rightarrow> unit res option" where
  "ended r = map_option (map_sum id (\<lambda>_. ())) r"

definition play_env_of :: "('k, 'st) listener_env \<Rightarrow> play_env" where
  "play_env_of env = \<lparr>pe_z = le_z env, pe_json = le_json env, pe_lower = le_lower env\<rparr>"

text \<open>\<^verbatim>\<open>TcpBackendConnector\<close>: each connect of the session has its own outcome.\<close>

definition player_connector :: "('k, 'st) listener_env \<Rightarrow> nat \<Rightarrow> connector" where
  "player_connector env n = tcp_connect ((le_fwd env)\<lparr>fe_connect := le_reconnect env n\<rparr>)"

definition play_machine_of ::
  "('k, 'st) listener_env \<Rightarrow> proxy_config \<Rightarrow> 'ast script_host \<Rightarrow> player_entry \<Rightarrow> 'st active_stream \<Rightarrow> conn
     \<Rightarrow> session_registry_cache \<Rightarrow> 'ast play_machine" where
  "play_machine_of env config host en s b registry_cache =
     PlayStateMachine_new (view (le_cfb8 env) s) b (player_connector env)
       \<lparr>ps_profile = en_profile en, ps_client_ip = en_client_ip en, ps_protocol_version = en_version en,
        ps_current_server = en_target en, ps_registry_cache = registry_cache\<rparr>
       config host (en_threshold en)"

definition start_play ::
  "('k, 'st) listener_env \<Rightarrow> 'ast play_machine \<Rightarrow> 'st active_stream \<Rightarrow> loop_event list \<Rightarrow> ('st, 'ast) progress" where
  "start_play env pm s evs = (case run (play_env_of env) evs pm of (st, pm') \<Rightarrow> InPlay st s pm')"

definition enter_play ::
  "('k, 'st) listener_env \<Rightarrow> proxy_config \<Rightarrow> 'ast script_host \<Rightarrow> player_entry \<Rightarrow> loop_event list \<Rightarrow> bool
     \<Rightarrow> 'st active_stream \<times> conn \<Rightarrow> ('st, 'ast) progress" where
  "enter_play env config host en evs shut sb =
     (if 764 \<le> sint (en_version en) then
        (case await_acknowledged env (en_version en) (en_threshold en) shut sb of
           (Some (Inr True), s, b) \<Rightarrow>
             (case bridge_loop env (en_version en) (en_threshold en) evs
                     \<lparr>br_client = s, br_backend = b, br_cache = cache_new, br_client_finished = False,
                      br_backend_finished = False\<rparr> of
                (Running, rest, br) \<Rightarrow>
                  if br_client_finished br \<and> br_backend_finished br
                  then start_play env (play_machine_of env config host en (br_client br) (br_backend br) (br_cache br))
                         (br_client br) rest
                  else InConfiguration en br
              | (Done r, _, br) \<Rightarrow> Ended (Some r) (br_client br) (Some (br_backend br))
              | (Stuck, _, br) \<Rightarrow> Ended None (br_client br) (Some (br_backend br)))
         | (r, s, b) \<Rightarrow> Ended (ended r) s (Some b))
      else start_play env (play_machine_of env config host en (fst sb) (snd sb) cache_new) (fst sb) evs)"

definition connect_player ::
  "('k, 'st) listener_env \<Rightarrow> proxy_config \<Rightarrow> 'ast script_host \<Rightarrow> str \<Rightarrow> i32 \<Rightarrow> player_profile \<Rightarrow> str \<Rightarrow> backend_config
     \<Rightarrow> loop_event list \<Rightarrow> bool \<Rightarrow> 'st active_stream \<Rightarrow> ('st, 'ast) progress" where
  "connect_player env config host client_ip v profile target cfg evs shut s =
     (case connect_and_forward (le_fwd env) cfg profile client_ip v of
        None \<Rightarrow> Ended None s None
      | Some (Inl e) \<Rightarrow>
          (case goodbye env None (login_disconnect env (could_not_connect target (display_error e))) e s of
             (r, s) \<Rightarrow> Ended r s None)
      | Some (Inr b) \<Rightarrow>
          (case finish_login env profile v (s, b) of
             (Some (Inr thr), sb) \<Rightarrow>
               enter_play env config host
                 \<lparr>en_client_ip = client_ip, en_version = v, en_profile = profile, en_target = target, en_threshold = thr\<rparr>
                 evs shut sb
           | (r, s, b) \<Rightarrow> Ended (ended r) s (Some b)))"

definition join_event_of :: "('k, 'st) listener_env \<Rightarrow> player_profile \<Rightarrow> str \<Rightarrow> i32 \<Rightarrow> join_event" where
  "join_event_of env profile client_ip v =
     \<lparr>je_player_name = pr_name profile, je_uuid = u_hyphenated (fe_uuid (le_fwd env)) (pr_id profile), je_ip = client_ip,
      je_protocol_version = v\<rparr>"

definition serve_login ::
  "('k, 'st) listener_env \<Rightarrow> proxy_config \<Rightarrow> 'k rsa_key_manager \<Rightarrow> 'ast script_host \<Rightarrow> str \<Rightarrow> i32 \<Rightarrow> loop_event list \<Rightarrow> bool
     \<Rightarrow> 'st active_stream \<Rightarrow> ('st, 'ast) progress \<times> 'ast script_host" where
  "serve_login env config rsa_manager host client_ip v evs shut s =
     (case handle_login_auth env client_ip v config rsa_manager s of
        (Some (Inr profile), s) \<Rightarrow>
          let (join_decision, host) = eval_join (join_event_of env profile client_ip v) host in
          (case admit env config profile v join_decision s of
             (Some (Inr (target, cfg)), s) \<Rightarrow>
               (connect_player env config host client_ip v profile target cfg evs shut s, host)
           | (r, s) \<Rightarrow> (Ended (ended r) s None, host))
      | (r, s) \<Rightarrow> (Ended (ended r) s None, host))"

definition state_number :: "ConnectionState \<Rightarrow> i32" where
  "state_number st =
     (case st of Handshake \<Rightarrow> 0 | Status \<Rightarrow> 1 | Login \<Rightarrow> 2 | Configuration \<Rightarrow> 3 | Play \<Rightarrow> 4 | Closed \<Rightarrow> 5)"

definition read_handshake :: "('k, 'st) listener_env \<Rightarrow> handshake_packet io" where
  "read_handshake env =
     bindS (timeoutS (Io TimedOut (str ''Handshake read timed out'')) (read_packet (le_z env) DEFAULT_MAX_PACKET_SIZE))
       (\<lambda>raw_packet. liftS (handshake_decode raw_packet))"

definition process_connection ::
  "('k, 'st) listener_env \<Rightarrow> proxy_config \<Rightarrow> 'k rsa_key_manager \<Rightarrow> 'ast script_host \<Rightarrow> str \<Rightarrow> loop_event list \<Rightarrow> bool
     \<Rightarrow> conn \<Rightarrow> ('st, 'ast) progress \<times> 'ast script_host" where
  "process_connection env config rsa_manager host client_ip evs shut c =
     (case read_handshake env c of
        (Some (Inr handshake), c) \<Rightarrow>
          (case hs_next_state handshake of
             Status \<Rightarrow>
               (case handle_status_with_version (le_z env) (le_status_json env) config (hs_protocol_version handshake) c of
                  (r, c) \<Rightarrow> (Ended r (Plain c) None, host))
           | Login \<Rightarrow>
               serve_login env config rsa_manager host client_ip (hs_protocol_version handshake) evs shut (Plain c)
           | other_state \<Rightarrow>
               (Ended (Some (Inl (InvalidConnectionState (state_number other_state)))) (Plain c) None, host))
      | (r, c) \<Rightarrow> (Ended (ended r) (Plain c) None, host))"

section \<open>Accepting connections\<close>

definition max_connections :: "proxy_config \<Rightarrow> nat" where
  "max_connections config = (if 0 \<le> sint (pc_max_players config) then i32_as_usize (pc_max_players config) else 1000)"

text \<open>What the accept loop sees: a connection, a failed accept, a handler that is done, the shutdown signal.\<close>

datatype 'a accept_event = Incoming 'a | AcceptFailed str | HandlerDone 'a | ShutdownSignal

record 'a accept_state =
  al_permits :: nat
  al_handlers :: "'a list"
  al_dropped :: "'a list"
  al_listening :: bool

definition start_listener_with_state_on :: "proxy_config \<Rightarrow> 'a accept_state" where
  "start_listener_with_state_on config =
     \<lparr>al_permits = max_connections config, al_handlers = [], al_dropped = [], al_listening = True\<rparr>"

definition accept_turn :: "'a accept_event \<Rightarrow> 'a accept_state \<Rightarrow> 'a accept_state" where
  "accept_turn ev st =
     (case ev of
        Incoming client \<Rightarrow>
          if \<not> al_listening st then st
          else if al_permits st = 0 then st\<lparr>al_dropped := client # al_dropped st\<rparr>
          else st\<lparr>al_permits := al_permits st - 1, al_handlers := client # al_handlers st\<rparr>
      | AcceptFailed e \<Rightarrow> st
      | HandlerDone client \<Rightarrow>
          if client \<in> set (al_handlers st)
          then st\<lparr>al_permits := al_permits st + 1, al_handlers := remove1 client (al_handlers st)\<rparr>
          else st
      | ShutdownSignal \<Rightarrow> st\<lparr>al_listening := False\<rparr>)"

text \<open>\<^verbatim>\<open>wait_for_shutdown\<close> on a channel with a current value and later ones: it returns at the first \<^verbatim>\<open>true\<close>, and never when
  there is none.\<close>

fun wait_for_shutdown :: "bool \<Rightarrow> bool list \<Rightarrow> bool" where
  "wait_for_shutdown cur [] = cur"
| "wait_for_shutdown cur (b # bs) = (if cur then True else wait_for_shutdown b bs)"

end
