(* ===== verification/Startup.thy ===== *)
theory Startup
  imports Listener "HOL-Library.Sublist"
begin

text \<open>
  Starting the proxy: loading the settings and putting the default files in place (\<^verbatim>\<open>src/src/config.rs\<close>), and the sequence
  of \<^verbatim>\<open>main\<close> (\<^verbatim>\<open>src/src/main.rs\<close>) up to the listener.

  The file system is a store of files and directories. Paths are compared by their components, as \<^verbatim>\<open>Path\<close> does: empty
  components and \<^verbatim>\<open>.\<close> do not count. Which paths refuse to be created, and the errors of the operating system, are fields of
  the store; the TOML parser and the embedded files are parameters.
\<close>

section \<open>Files\<close>

type_synonym path_key = "bool \<times> str list"

definition path_key :: "str \<Rightarrow> path_key" where
  "path_key p = (starts_with p (str ''/''), filter (\<lambda>c. c \<noteq> [] \<and> c \<noteq> str ''.'') (path_parts [] p))"

definition join_key :: "path_key \<Rightarrow> path_key \<Rightarrow> path_key" where
  "join_key base k = (if fst k then k else (fst base, snd base @ snd k))"

definition parent_key :: "path_key \<Rightarrow> path_key option" where
  "parent_key k = (if snd k = [] then None else Some (fst k, butlast (snd k)))"

fun path_text :: "path_key \<Rightarrow> str" where
  "path_text (absolute, cs) =
     (if absolute then str ''/'' else []) @ concat (map (\<lambda>c. c @ str ''/'') (butlast cs)) @ (if cs = [] then [] else last cs)"

record disk =
  dk_files :: "(path_key \<times> bytes) list"
  dk_dirs :: "path_key list"
  dk_refuse :: "path_key \<Rightarrow> (io_kind \<times> str) option"
  dk_clash :: "path_key \<Rightarrow> io_kind \<times> str"

type_synonym 'a fs = "disk \<Rightarrow> 'a res option \<times> disk"

definition is_dir :: "disk \<Rightarrow> path_key \<Rightarrow> bool" where
  "is_dir d k \<longleftrightarrow> snd k = [] \<or> k \<in> set (dk_dirs d)"

definition exists_path :: "disk \<Rightarrow> path_key \<Rightarrow> bool" where
  "exists_path d k \<longleftrightarrow> is_dir d k \<or> map_of (dk_files d) k \<noteq> None"

definition io_err :: "io_kind \<times> str \<Rightarrow> proxy_error" where
  "io_err e = Io (fst e) (snd e)"

text \<open>\<^verbatim>\<open>create_dir_all\<close>: the missing directories from the top.\<close>

fun mkdirs :: "path_key list \<Rightarrow> unit fs" where
  "mkdirs [] d = returnS () d"
| "mkdirs (k # ks) d =
     (if is_dir d k then mkdirs ks d
      else if map_of (dk_files d) k \<noteq> None then failS (io_err (dk_clash d k)) d
      else case dk_refuse d k of
          Some e \<Rightarrow> failS (io_err e) d
        | None \<Rightarrow> mkdirs ks (d\<lparr>dk_dirs := k # dk_dirs d\<rparr>))"

definition create_dir_all :: "path_key \<Rightarrow> unit fs" where
  "create_dir_all k = mkdirs (map (\<lambda>n. (fst k, take (Suc n) (snd k))) [0..<length (snd k)])"

definition write_file :: "path_key \<Rightarrow> bytes \<Rightarrow> unit fs" where
  "write_file k bs d =
     (if is_dir d k \<or> (case parent_key k of None \<Rightarrow> True | Some p \<Rightarrow> \<not> is_dir d p) then failS (io_err (dk_clash d k)) d
      else case dk_refuse d k of
          Some e \<Rightarrow> failS (io_err e) d
        | None \<Rightarrow> returnS () (d\<lparr>dk_files := (k, bs) # dk_files d\<rparr>))"

definition read_to_string :: "disk \<Rightarrow> path_key \<Rightarrow> (io_kind \<times> str) + str" where
  "read_to_string d k =
     (case map_of (dk_files d) k of
        None \<Rightarrow> Inl (dk_clash d k)
      | Some bs \<Rightarrow> if utf8_valid bs then Inr bs else Inl (InvalidData, str ''stream did not contain valid UTF-8''))"

section \<open>Default files\<close>

record startup_env =
  se_toml :: "str \<Rightarrow> str + proxy_config"
  se_icon :: bytes
  se_main_script :: bytes
  se_switcher :: bytes
  se_exe_dir :: "str option"
  se_b64_encode :: "bytes \<Rightarrow> str"
  se_b64_valid :: "str \<Rightarrow> bool"

text \<open>\<^verbatim>\<open>if !path.exists()\<close>: create the directory unless it is empty, and try to write the file.\<close>

definition put_default :: "path_key \<Rightarrow> path_key option \<Rightarrow> bytes \<Rightarrow> unit fs" where
  "put_default k dir bs d =
     (if exists_path d k then returnS () d
      else
        bindS (case dir of Some p \<Rightarrow> if snd p = [] \<and> \<not> fst p then returnS () else create_dir_all p | None \<Rightarrow> returnS ())
          (\<lambda>_. ignoreS (write_file k bs)) d)"

definition bootstrap_default_files :: "startup_env \<Rightarrow> proxy_config \<Rightarrow> path_key option \<Rightarrow> unit fs" where
  "bootstrap_default_files env config base_dir =
     (let base = (case base_dir of Some b \<Rightarrow> b | None \<Rightarrow> (False, []));
          icon_path = join_key base (path_key (str ''server-icon.png''));
          script_path = join_key base (path_key (pc_script_path config));
          plugins_dir = join_key base (path_key (pc_plugins_dir config));
          switcher_path = join_key plugins_dir (path_key (str ''server_switcher.rhai''))
      in
      bindS (put_default icon_path (parent_key icon_path) (se_icon env)) (\<lambda>_.
      bindS (put_default script_path (parent_key script_path) (se_main_script env)) (\<lambda>_.
      put_default switcher_path (Some plugins_dir) (se_switcher env))))"

section \<open>Loading the settings\<close>

definition template_lines :: "str list" where
  \<open>template_lines =
     [str ''# ============================================================================='',
      str ''# FrameMC - High-Performance Minecraft Proxy Configuration'',
      str ''# ============================================================================='',
      [],
      str ''# Network binding configuration'',
      str ''bind_address = "0.0.0.0"'',
      str ''bind_port = 25565'',
      [],
      str ''# Server List Ping (Status) appearance'',
      str ''motd = "'' @ section_sign @ str ''aFrameMC '' @ section_sign @ str ''7High-Performance Minecraft Proxy"'',
      str ''max_players = 1000'',
      [],
      str ''# Authentication mode'',
      str ''# true  = Authenticate player accounts via Mojang session servers'',
      str ''# false = Offline mode / no external authentication'',
      str ''online_mode = true'',
      [],
      str ''# Optional path or base64 data URI for server favicon (64x64 PNG)'',
      str ''# favicon = "server-icon.png"'',
      [],
      str ''# Default backend server for newly connecting clients'',
      str ''default_server = "lobby"'',
      [],
      str ''# Directory containing Rhai plugin scripts (*.rhai)'',
      str ''plugins_dir = "plugins"'',
      [],
      str ''# Path to the Rhai scripting file for event interception'',
      str ''script_path = "scripts/main.rhai"'',
      [],
      str ''# ============================================================================='',
      str ''# Backend Server Definitions'',
      str ''# ============================================================================='',
      str ''# Supported forwarding modes:'',
      str ''# - "none": No player info forwarding'',
      str ''# - "legacy_bungee": BungeeCord handshake appending (client_host'' @ [0x5C] @ str ''0ip'' @ [0x5C] @ str ''0uuid)'',
      str ''# - "velocity_modern": Velocity modern forwarding via velocity:player_info (HMAC-SHA256)'',
      [],
      str ''[servers.lobby]'',
      str ''address = "127.0.0.1"'',
      str ''port = 25566'',
      str ''forwarding_mode = "none"'',
      [],
      str ''[servers.steelmc]'',
      str ''address = "127.0.0.1"'',
      str ''port = 25567'',
      str ''forwarding_mode = "none"'']\<close>

definition DEFAULT_CONFIG_TEMPLATE :: str where
  "DEFAULT_CONFIG_TEMPLATE = concat (map (\<lambda>l. l @ [0x0A]) template_lines)"

definition favicon_env_of :: "startup_env \<Rightarrow> disk \<Rightarrow> favicon_env" where
  "favicon_env_of env d =
     \<lparr>read_file = (\<lambda>p. map_of (dk_files d) (path_key p)), exe_dir = se_exe_dir env, b64_encode = se_b64_encode env,
      b64_valid = se_b64_valid env\<rparr>"

definition read_config :: "startup_env \<Rightarrow> str \<Rightarrow> proxy_config fs" where
  "read_config env path d =
     (case read_to_string d (path_key path) of
        Inl e \<Rightarrow> failS (io_err e) d
      | Inr content \<Rightarrow>
          (case se_toml env content of
             Inl e \<Rightarrow> failS (ConfigError (str ''Failed to parse config file '' @ quoted path @ str '': '' @ e)) d
           | Inr config \<Rightarrow> returnS config d))"

definition create_config :: "startup_env \<Rightarrow> path_key \<Rightarrow> proxy_config fs" where
  "create_config env k =
     bindS (case parent_key k of
              Some p \<Rightarrow> if snd p = [] \<and> \<not> fst p then returnS () else create_dir_all p
            | None \<Rightarrow> returnS ()) (\<lambda>_.
     bindS (write_file k DEFAULT_CONFIG_TEMPLATE) (\<lambda>_.
     case se_toml env DEFAULT_CONFIG_TEMPLATE of
       Inl e \<Rightarrow> failS (ConfigError (str ''Failed to parse default config template: '' @ e))
     | Inr config \<Rightarrow> returnS config))"

definition load_or_create :: "startup_env \<Rightarrow> str \<Rightarrow> proxy_config fs" where
  "load_or_create env path d =
     (let k = path_key path; is_new = \<not> exists_path d k in
      bindS (if is_new then create_config env k else read_config env path) (\<lambda>config.
      bindS (if is_new then ignoreS (bootstrap_default_files env config (parent_key k)) else returnS ()) (\<lambda>_ d.
      returnS (resolve_favicon (favicon_env_of env d) (map_option path_text (parent_key k)) config) d)) d)"

section \<open>The start of the program\<close>

text \<open>What the script host sees of the files: \<^verbatim>\<open>read_dir\<close> lists the files and directories right below a directory.\<close>

definition entries_of :: "disk \<Rightarrow> str \<Rightarrow> (str \<times> bool) list" where
  "entries_of d dir =
     map (\<lambda>(k, _). (path_join dir (last (snd k)), True)) (filter (\<lambda>(k, _). parent_key k = Some (path_key dir)) (dk_files d))
     @ map (\<lambda>k. (path_join dir (last (snd k)), False)) (filter (\<lambda>k. parent_key k = Some (path_key dir)) (dk_dirs d))"

definition plugin_fs_of :: "disk \<Rightarrow> plugin_fs" where
  "plugin_fs_of d =
     \<lparr>pf_read = (\<lambda>p. read_to_string d (path_key p)), pf_exists = (\<lambda>p. exists_path d (path_key p)),
      pf_create = (\<lambda>p. case create_dir_all (path_key p) d of (Some (Inr _), _) \<Rightarrow> True | _ \<Rightarrow> False),
      pf_entries = (\<lambda>p. if map_of (dk_files d) (path_key p) = None then Some (entries_of d p) else None)\<rparr>"

text \<open>The directory that \<^verbatim>\<open>load_plugins_dir\<close> creates when it is missing.\<close>

definition ensure_plugins_dir :: "str \<Rightarrow> disk \<Rightarrow> disk" where
  "ensure_plugins_dir dir d = (if exists_path d (path_key dir) then d else snd (create_dir_all (path_key dir) d))"

definition prepare_scripts :: "'ast rhai \<Rightarrow> nat option \<Rightarrow> proxy_config \<Rightarrow> disk \<Rightarrow> 'ast script_host \<times> disk" where
  "prepare_scripts engine clock config d =
     (let host = set_servers (map fst (pc_servers config)) (pc_default_server config) (ScriptHost_new engine clock);
          host = snd (load_plugins_dir (plugin_fs_of d) (pc_plugins_dir config) host);
          d = ensure_plugins_dir (pc_plugins_dir config) d;
          host = (if exists_path d (path_key (pc_script_path config))
                  then snd (reload (plugin_fs_of d) (pc_script_path config) host) else host)
      in (host, d))"

text \<open>Binding the address, generating the key and building the HTTP client; each may fail.\<close>

record 'k net_env =
  ne_bind :: "str \<Rightarrow> (io_kind \<times> str) option"
  ne_local_addr :: "(io_kind \<times> str) option"
  ne_rsa :: "'k rsa"
  ne_generated :: "str + 'k"
  ne_http_error :: "str option"

definition bind_listener :: "'k net_env \<Rightarrow> proxy_config \<Rightarrow> unit res" where
  "bind_listener ne config =
     (case ne_bind ne (pc_bind_address config @ str '':'' @ dec_nat (unat (pc_bind_port config))) of
        Some e \<Rightarrow> Inl (io_err e)
      | None \<Rightarrow> Inr ())"

definition start_listener_on :: "'k net_env \<Rightarrow> proxy_config \<Rightarrow> ('k rsa_key_manager \<times> 'a accept_state) res" where
  "start_listener_on ne config =
     bindE (RsaKeyManager_new (ne_rsa ne) (ne_generated ne)) (\<lambda>rsa_manager.
     case ne_http_error ne of
       Some e \<Rightarrow> Inl (AuthenticationFailed (str ''Failed to build HTTP client: '' @ e))
     | None \<Rightarrow> Inr (rsa_manager, start_listener_with_state_on config))"

definition start_listener :: "'k net_env \<Rightarrow> proxy_config \<Rightarrow> ('k rsa_key_manager \<times> 'a accept_state) res" where
  "start_listener ne config =
     bindE (bind_listener ne config) (\<lambda>_.
     case ne_local_addr ne of Some e \<Rightarrow> Inl (io_err e) | None \<Rightarrow> start_listener_on ne config)"

datatype ('ast, 'k, 'a) start_outcome =
    Printed CliAction
  | ExitWith str
  | StartFailed proxy_error
  | Listening proxy_config "'ast script_host" "'k rsa_key_manager" "'a accept_state"

text \<open>Loading the settings never waits, so that its \<open>None\<close> does not occur.\<close>

definition main ::
  "startup_env \<Rightarrow> 'ast rhai \<Rightarrow> nat option \<Rightarrow> 'k net_env \<Rightarrow> str list \<Rightarrow> disk \<Rightarrow> ('ast, 'k, 'a) start_outcome \<times> disk" where
  "main env engine clock ne args d =
     (case parse_cli_args args of
        Inl err_msg \<Rightarrow> (ExitWith err_msg, d)
      | Inr (Run config_path) \<Rightarrow>
          (case load_or_create env config_path d of
             (Some (Inr config), d) \<Rightarrow>
               (case prepare_scripts engine clock config d of
                  (host, d) \<Rightarrow>
                    (case start_listener ne config of
                       Inl e \<Rightarrow> (StartFailed e, d)
                     | Inr (rsa_manager, accepting) \<Rightarrow> (Listening config host rsa_manager accepting, d)))
           | (Some (Inl e), d) \<Rightarrow> (StartFailed e, d)
           | (None, d) \<Rightarrow> (StartFailed (ConfigError []), d))
      | Inr action \<Rightarrow> (Printed action, d))"

text \<open>The signals that end the program, by which handlers could be installed.\<close>

datatype os_signal = SIGINT | SIGTERM

fun wait_for_shutdown_signal :: "bool \<Rightarrow> bool \<Rightarrow> os_signal list \<Rightarrow> bool" where
  "wait_for_shutdown_signal int_ok term_ok [] = False"
| "wait_for_shutdown_signal int_ok term_ok (sig # sigs) =
     ((case sig of SIGINT \<Rightarrow> int_ok | SIGTERM \<Rightarrow> term_ok) \<or> wait_for_shutdown_signal int_ok term_ok sigs)"

section \<open>The settings survive a restart\<close>

text \<open>No operation of the start changes a file that is there, removes a directory or changes what is refused.\<close>

definition grows :: "disk \<Rightarrow> disk \<Rightarrow> bool" where
  "grows d d' \<longleftrightarrow> (\<forall>k bs. map_of (dk_files d) k = Some bs \<longrightarrow> map_of (dk_files d') k = Some bs)
     \<and> set (dk_dirs d) \<subseteq> set (dk_dirs d') \<and> dk_refuse d' = dk_refuse d \<and> dk_clash d' = dk_clash d"

lemma grows_refl [simp]: "grows d d"
  by (simp add: grows_def)

lemma grows_trans: "grows d d1 \<Longrightarrow> grows d1 d2 \<Longrightarrow> grows d d2"
  by (auto simp: grows_def)

lemma growsD: "grows d d' \<Longrightarrow> map_of (dk_files d) k = Some bs \<Longrightarrow> map_of (dk_files d') k = Some bs"
  unfolding grows_def by blast

definition growing :: "'a fs \<Rightarrow> bool" where
  "growing m \<longleftrightarrow> (\<forall>d. grows d (snd (m d)) \<and> fst (m d) \<noteq> None)"

lemma growing_bindS:
  assumes "growing m" and "\<And>x. growing (f x)"
  shows "growing (bindS m f)"
  unfolding growing_def
proof
  fix d
  obtain r d1 where m: "m d = (r, d1)" by (cases "m d")
  from assms(1) [unfolded growing_def, rule_format, of d] m have g: "grows d d1" "r \<noteq> None" by auto
  have "grows d1 (snd (f x d1)) \<and> fst (f x d1) \<noteq> None" for x using assms(2) unfolding growing_def by blast
  with m g show "grows d (snd (bindS m f d)) \<and> fst (bindS m f d) \<noteq> None"
    by (auto simp: bindS_def split: option.splits sum.splits intro: grows_trans)
qed

lemma growing_simple: "growing (returnS x)" "growing (failS e)"
  by (simp_all add: growing_def returnS_def failS_def)

lemma growing_ignoreS: "growing m \<Longrightarrow> growing (ignoreS m)"
proof -
  assume m: "growing m"
  have "grows d (snd (ignoreS m d)) \<and> fst (ignoreS m d) \<noteq> None" for d
    using m [unfolded growing_def, rule_format, of d] by (cases "m d") (auto simp: ignoreS_def split: option.splits)
  then show ?thesis unfolding growing_def by blast
qed

lemma growing_mkdirs: "growing (mkdirs ks)"
proof (induction ks)
  case (Cons k ks)
  have "grows d (snd (mkdirs (k # ks) d)) \<and> fst (mkdirs (k # ks) d) \<noteq> None" for d
  proof -
    have "grows d (d\<lparr>dk_dirs := k # dk_dirs d\<rparr>)" by (auto simp: grows_def)
    moreover have "grows d1 (snd (mkdirs ks d1)) \<and> fst (mkdirs ks d1) \<noteq> None" for d1
      using Cons.IH unfolding growing_def by blast
    ultimately show ?thesis by (auto simp: failS_def split: option.splits intro: grows_trans)
  qed
  then show ?case unfolding growing_def by blast
qed (simp add: growing_def returnS_def)

lemma growing_create_dir_all: "growing (create_dir_all k)"
  by (simp add: create_dir_all_def growing_mkdirs)

lemma mkdirs_files: "dk_files (snd (mkdirs ks d)) = dk_files d"
  by (induction ks arbitrary: d) (auto simp: returnS_def failS_def split: option.splits)

text \<open>A file that is not there is put there without touching another one.\<close>

lemma write_new_grows:
  assumes "map_of (dk_files d) k = None"
  shows "grows d (snd (write_file k bs d)) \<and> fst (write_file k bs d) \<noteq> None
    \<and> (fst (write_file k bs d) = Some (Inr ()) \<longrightarrow> map_of (dk_files (snd (write_file k bs d))) k = Some bs)"
  using assms by (auto simp: write_file_def grows_def returnS_def failS_def split: option.splits)

definition make_parent :: "path_key option \<Rightarrow> unit fs" where
  "make_parent dir =
     (case dir of Some p \<Rightarrow> if snd p = [] \<and> \<not> fst p then returnS () else create_dir_all p | None \<Rightarrow> returnS ())"

lemma make_parent_grows:
  assumes "make_parent dir d = (r, d1)"
  shows "grows d d1 \<and> r \<noteq> None \<and> dk_files d1 = dk_files d"
proof -
  have "growing (make_parent dir)"
    by (auto simp: make_parent_def growing_simple growing_create_dir_all split: option.split)
  moreover have "dk_files (snd (make_parent dir d)) = dk_files d"
    by (auto simp: make_parent_def returnS_def create_dir_all_def mkdirs_files split: option.split)
  ultimately show ?thesis using assms unfolding growing_def by (metis fst_conv snd_conv)
qed

lemma put_default_alt:
  "put_default k dir bs d = (if exists_path d k then returnS () d else bindS (make_parent dir) (\<lambda>_. ignoreS (write_file k bs)) d)"
  by (simp add: put_default_def make_parent_def)

lemma growing_put_default: "growing (put_default k dir bs)"
proof -
  have "grows d (snd (put_default k dir bs d)) \<and> fst (put_default k dir bs d) \<noteq> None" for d
  proof (cases "exists_path d k")
    case False
    obtain r d1 where m: "make_parent dir d = (r, d1)" by (cases "make_parent dir d")
    note g = make_parent_grows [OF m]
    with False have "map_of (dk_files d1) k = None" by (simp add: exists_path_def)
    note w = write_new_grows [OF this, of bs]
    obtain r2 d2 where "write_file k bs d1 = (r2, d2)" by (cases "write_file k bs d1")
    with w g m False show ?thesis
      by (auto simp: put_default_alt bindS_def ignoreS_def split: option.splits sum.splits intro: grows_trans)
  qed (simp add: put_default_def returnS_def)
  then show ?thesis unfolding growing_def by blast
qed

lemma growing_bootstrap: "growing (bootstrap_default_files env config base)"
  unfolding bootstrap_default_files_def Let_def by (intro growing_bindS growing_put_default)

lemma create_config_grows:
  assumes "\<not> exists_path d k" and "create_config env k d = (r, d')"
  shows "grows d d' \<and> r \<noteq> None
    \<and> (\<forall>config. r = Some (Inr config) \<longrightarrow> map_of (dk_files d') k = Some DEFAULT_CONFIG_TEMPLATE
         \<and> se_toml env DEFAULT_CONFIG_TEMPLATE = Inr config)"
proof -
  obtain x d1 where m: "make_parent (parent_key k) d = (x, d1)" by (cases "make_parent (parent_key k) d")
  note g = make_parent_grows [OF m]
  obtain y d2 where w: "write_file k DEFAULT_CONFIG_TEMPLATE d1 = (y, d2)" by (cases "write_file k DEFAULT_CONFIG_TEMPLATE d1")
  from g assms(1) have "map_of (dk_files d1) k = None" by (simp add: exists_path_def)
  note w' = write_new_grows [OF this, of DEFAULT_CONFIG_TEMPLATE, unfolded w fst_conv snd_conv]
  from assms(2) m w g w' grows_trans [of d d1 d2] show ?thesis
    by (fastforce simp: create_config_def make_parent_def [symmetric] bindS_def failS_def returnS_def split: option.splits sum.splits)
qed

lemma utf8_valid_concat: "\<forall>x \<in> set xs. utf8_valid x \<Longrightarrow> utf8_valid (concat xs)"
  by (induction xs) (auto intro: utf8_valid_append)

lemma template_valid: "utf8_valid DEFAULT_CONFIG_TEMPLATE"
proof -
  have "list_all utf8_valid template_lines"
    by (simp add: template_lines_def str_def of_char_def section_sign_def utf8_first_def is_continuation_def)
  moreover have "utf8_valid [0x0A]" by (simp add: utf8_first_def)
  ultimately show ?thesis
    unfolding DEFAULT_CONFIG_TEMPLATE_def by (auto simp: list_all_iff intro!: utf8_valid_concat utf8_valid_append)
qed

lemma load_or_create_existing:
  assumes "exists_path d (path_key path)"
  shows "load_or_create env path d =
    (case read_config env path d of
       (Some (Inr config), _) \<Rightarrow>
         (Some (Inr (resolve_favicon (favicon_env_of env d) (map_option path_text (parent_key (path_key path))) config)), d)
     | (r, _) \<Rightarrow> (r, d))"
  using assms
  by (simp add: load_or_create_def Let_def read_config_def bindS_def returnS_def failS_def split: sum.split)

lemma load_or_create_new:
  assumes "\<not> exists_path d (path_key path)" and "load_or_create env path d = (r, d')"
  shows "grows d d' \<and> r \<noteq> None \<and> (\<forall>config. r = Some (Inr config) \<longrightarrow>
    map_of (dk_files d') (path_key path) = Some DEFAULT_CONFIG_TEMPLATE
    \<and> (\<exists>config0. se_toml env DEFAULT_CONFIG_TEMPLATE = Inr config0
         \<and> config = resolve_favicon (favicon_env_of env d') (map_option path_text (parent_key (path_key path))) config0))"
proof -
  let ?k = "path_key path"
  obtain x d1 where c: "create_config env ?k d = (x, d1)" by (cases "create_config env ?k d")
  note g = create_config_grows [OF assms(1) c]
  show ?thesis
  proof (cases "\<exists>config. x = Some (Inr config)")
    case False
    then obtain e where "x = Some (Inl e)" using g by (cases x) (auto split: sum.splits, metis sum.exhaust)
    with c assms g show ?thesis by (auto simp: load_or_create_def Let_def bindS_def)
  next
    case True
    then obtain config0 where x: "x = Some (Inr config0)" ..
    let ?b = "bootstrap_default_files env config0 (parent_key ?k)"
    obtain y d2 where b: "ignoreS ?b d1 = (y, d2)" by (cases "ignoreS ?b d1")
    have "growing (ignoreS ?b)" by (intro growing_ignoreS growing_bootstrap)
    with b have b': "grows d1 d2" unfolding growing_def by (metis snd_conv)
    have y: "y = Some (Inr ())"
      using b growing_bootstrap [of env config0 "parent_key ?k", unfolded growing_def, rule_format, of d1]
      by (auto simp: ignoreS_def split: prod.splits option.splits)
    from assms(1,2) c x b y have "r = Some (Inr (resolve_favicon (favicon_env_of env d2) (map_option path_text (parent_key ?k)) config0))" "d' = d2"
      by (auto simp: load_or_create_def Let_def bindS_def returnS_def)
    with g x grows_trans [OF _ b', of d] growsD [OF b'] show ?thesis by auto
  qed
qed

text \<open>C29. Loading the settings always ends and never changes a file that is there: whatever it writes is new. When it succeeds,
  the next start with the same path loads the same settings, resolved icon included, and writes nothing; in particular
  the settings file it creates is valid text and is read back as the default settings it stands for.\<close>

theorem settings_survive_restart:
  assumes "load_or_create env path d = (r, d')"
  shows "r \<noteq> None \<and> grows d d' \<and> (\<forall>config. r = Some (Inr config) \<longrightarrow> load_or_create env path d' = (Some (Inr config), d'))"
proof (cases "exists_path d (path_key path)")
  case True
  from assms load_or_create_existing [OF True, of env] show ?thesis
    by (auto simp: read_config_def returnS_def failS_def split: sum.splits)
next
  case False
  note n = load_or_create_new [OF False assms]
  have "load_or_create env path d' = (Some (Inr config), d')" if r: "r = Some (Inr config)" for config
  proof -
    from n r obtain config0 where f: "map_of (dk_files d') (path_key path) = Some DEFAULT_CONFIG_TEMPLATE"
      "se_toml env DEFAULT_CONFIG_TEMPLATE = Inr config0"
      "config = resolve_favicon (favicon_env_of env d') (map_option path_text (parent_key (path_key path))) config0" by auto
    then have "exists_path d' (path_key path)" by (simp add: exists_path_def)
    from load_or_create_existing [OF this, of env] f template_valid show ?thesis
      by (simp add: read_config_def read_to_string_def returnS_def)
  qed
  with n show ?thesis by blast
qed

section \<open>Default scripts beside the settings\<close>

definition fresh_disk :: disk where
  "fresh_disk = \<lparr>dk_files = [], dk_dirs = [], dk_refuse = (\<lambda>_. None), dk_clash = (\<lambda>_. (OtherKind 2, str ''No such file''))\<rparr>"

lemma demo_keys:
  "path_key (str ''conf/config.toml'') = (False, [str ''conf'', str ''config.toml''])"
  "path_key (str ''server-icon.png'') = (False, [str ''server-icon.png''])"
  "path_key (str ''scripts/main.rhai'') = (False, [str ''scripts'', str ''main.rhai''])"
  "path_key (str ''plugins'') = (False, [str ''plugins''])"
  "path_key (str ''server_switcher.rhai'') = (False, [str ''server_switcher.rhai''])"
  by (simp_all add: path_key_def str_def of_char_def starts_with_def)

lemma demo_names_neq:
  "str ''conf'' \<noteq> str ''scripts''" "str ''conf'' \<noteq> str ''plugins''" "str ''scripts'' \<noteq> str ''plugins''"
  "str ''config.toml'' \<noteq> str ''server-icon.png''" "str ''scripts'' \<noteq> str ''conf''" "str ''plugins'' \<noteq> str ''conf''"
  "str ''plugins'' \<noteq> str ''scripts''"
  by (simp_all add: str_def of_char_def)

lemma icon_name_neq: "str ''scripts'' \<noteq> str ''server-icon.png''" "str ''plugins'' \<noteq> str ''server-icon.png''"
  "str ''server-icon.png'' \<noteq> str ''scripts''" "str ''server-icon.png'' \<noteq> str ''plugins''"
  by (simp_all add: str_def of_char_def)

lemma demo_default_paths:
  "pc_script_path default_proxy_config = str ''scripts/main.rhai''" "pc_plugins_dir default_proxy_config = str ''plugins''"
  by (simp_all add: default_proxy_config_def)

text \<open>The disk after the first start with \<^verbatim>\<open>conf/config.toml\<close>.\<close>

definition conf_disk :: "startup_env \<Rightarrow> disk" where
  "conf_disk env = fresh_disk\<lparr>
     dk_files := [((False, [str ''conf'', str ''plugins'', str ''server_switcher.rhai'']), se_switcher env),
                  ((False, [str ''conf'', str ''scripts'', str ''main.rhai'']), se_main_script env),
                  ((False, [str ''conf'', str ''server-icon.png'']), se_icon env),
                  ((False, [str ''conf'', str ''config.toml'']), DEFAULT_CONFIG_TEMPLATE)],
     dk_dirs := [(False, [str ''conf'', str ''plugins'']), (False, [str ''conf'', str ''scripts'']), (False, [str ''conf''])]\<rparr>"

lemma first_start_in_conf:
  assumes "se_toml env DEFAULT_CONFIG_TEMPLATE = Inr default_proxy_config"
  shows "\<exists>config. load_or_create env (str ''conf/config.toml'') fresh_disk = (Some (Inr config), conf_disk env)
    \<and> pc_script_path config = str ''scripts/main.rhai'' \<and> pc_plugins_dir config = str ''plugins''"
  using assms
  by (simp add: load_or_create_def demo_keys exists_path_def is_dir_def fresh_disk_def create_config_def parent_key_def bindS_def
      create_dir_all_def write_file_def returnS_def bootstrap_default_files_def Let_def demo_default_paths put_default_def join_key_def
      ignoreS_def conf_disk_def demo_names_neq resolve_favicon_def)

text \<open>Room for new files below a relative directory: nothing is there yet, no file is in the way, and nothing is refused. A disk
  without entries below a directory of the working directory.\<close>

definition can_hold :: "str list \<Rightarrow> disk \<Rightarrow> bool" where
  "can_hold base d \<longleftrightarrow> (\<forall>k. dk_refuse d k = None)
     \<and> (\<forall>n. map_of (dk_files d) (False, take n base) = None)
     \<and> (\<forall>k \<in> fst ` set (dk_files d) \<union> set (dk_dirs d). \<not> fst k \<longrightarrow> \<not> strict_prefix base (snd k))"

definition nothing_at :: "str \<Rightarrow> disk \<Rightarrow> bool" where
  "nothing_at c d \<longleftrightarrow> (\<forall>k \<in> fst ` set (dk_files d) \<union> set (dk_dirs d). \<not> fst k \<longrightarrow> \<not> prefix [c] (snd k))"

lemma nothing_atD: "nothing_at c d \<Longrightarrow> (False, c # cs) \<notin> fst ` set (dk_files d) \<union> set (dk_dirs d)"
proof
  assume "nothing_at c d" "(False, c # cs) \<in> fst ` set (dk_files d) \<union> set (dk_dirs d)"
  then have "\<not> fst (False, c # cs) \<longrightarrow> \<not> prefix [c] (snd (False, c # cs))" unfolding nothing_at_def by (rule bspec)
  then show False by simp
qed

text \<open>A place where a file can be put, and the disk after it has been put there with its directory.\<close>

definition free_at :: "str list \<Rightarrow> disk \<Rightarrow> bool" where
  "free_at cs d \<longleftrightarrow> (\<forall>k. dk_refuse d k = None) \<and> (\<forall>n. map_of (dk_files d) (False, take n cs) = None) \<and> (False, cs) \<notin> set (dk_dirs d)"

definition put_at :: "str list \<Rightarrow> bytes \<Rightarrow> disk \<Rightarrow> disk \<Rightarrow> bool" where
  "put_at cs bs d d' \<longleftrightarrow> dk_files d' = ((False, cs), bs) # dk_files d \<and> dk_refuse d' = dk_refuse d
     \<and> (\<forall>k \<in> set (dk_dirs d'). k \<in> set (dk_dirs d) \<or> \<not> fst k \<and> strict_prefix (snd k) cs \<and> snd k \<noteq> [])"

lemma mkdirs_ok:
  assumes "\<forall>k. dk_refuse d k = None" and "\<forall>k \<in> set ks. map_of (dk_files d) k = None"
  shows "\<exists>ds. mkdirs ks d = (Some (Inr ()), d\<lparr>dk_dirs := ds\<rparr>) \<and> set (dk_dirs d) \<subseteq> set ds
    \<and> set ds \<subseteq> set (dk_dirs d) \<union> {k \<in> set ks. snd k \<noteq> []} \<and> (\<forall>k \<in> set ks. is_dir (d\<lparr>dk_dirs := ds\<rparr>) k)"
  using assms
proof (induction ks arbitrary: d)
  case Nil
  show ?case by (intro exI [of _ "dk_dirs d"]) (simp add: returnS_def)
next
  case (Cons k ks)
  show ?case
  proof (cases "is_dir d k")
    case True
    from Cons.IH [of d] Cons.prems obtain ds where ds: "mkdirs ks d = (Some (Inr ()), d\<lparr>dk_dirs := ds\<rparr>)"
      "set (dk_dirs d) \<subseteq> set ds" "set ds \<subseteq> set (dk_dirs d) \<union> {k \<in> set ks. snd k \<noteq> []}"
      "\<forall>k \<in> set ks. is_dir (d\<lparr>dk_dirs := ds\<rparr>) k" by auto
    then show ?thesis using True by (intro exI [of _ ds]) (auto simp: is_dir_def)
  next
    case False
    let ?d = "d\<lparr>dk_dirs := k # dk_dirs d\<rparr>"
    from Cons.IH [of ?d] Cons.prems obtain ds where ds: "mkdirs ks ?d = (Some (Inr ()), ?d\<lparr>dk_dirs := ds\<rparr>)"
      "set (dk_dirs ?d) \<subseteq> set ds" "set ds \<subseteq> set (dk_dirs ?d) \<union> {k \<in> set ks. snd k \<noteq> []}"
      "\<forall>k \<in> set ks. is_dir (?d\<lparr>dk_dirs := ds\<rparr>) k" by auto
    moreover have "dk_refuse d k = None" "map_of (dk_files d) k = None" using Cons.prems by (blast, simp)
    ultimately show ?thesis using False by (intro exI [of _ ds]) (auto simp: is_dir_def)
  qed
qed

lemma make_parent_ok:
  assumes "free_at (cs @ [c]) d"
  shows "\<exists>d1. make_parent (Some (False, cs)) d = (Some (Inr ()), d1)
    \<and> dk_files d1 = dk_files d \<and> dk_refuse d1 = dk_refuse d \<and> is_dir d1 (False, cs)
    \<and> (\<forall>k \<in> set (dk_dirs d1). k \<in> set (dk_dirs d) \<or> \<not> fst k \<and> prefix (snd k) cs \<and> snd k \<noteq> [])"
proof (cases "cs = []")
  case True
  then show ?thesis by (simp add: make_parent_def returnS_def is_dir_def)
next
  case False
  let ?ks = "map (\<lambda>n. (False, take (Suc n) cs)) [0..<length cs]"
  from assms have "\<forall>k. dk_refuse d k = None" by (simp add: free_at_def)
  moreover have "map_of (dk_files d) k = None" if "k \<in> set ?ks" for k
  proof -
    from that obtain n where "n < length cs" "k = (False, take (Suc n) cs)" by auto
    then have k: "k = (False, take (Suc n) (cs @ [c]))" by simp
    from assms have "map_of (dk_files d) (False, take (Suc n) (cs @ [c])) = None" unfolding free_at_def by blast
    with k show ?thesis by simp
  qed
  ultimately obtain ds where ds: "mkdirs ?ks d = (Some (Inr ()), d\<lparr>dk_dirs := ds\<rparr>)"
    "set ds \<subseteq> set (dk_dirs d) \<union> {k \<in> set ?ks. snd k \<noteq> []}" "\<forall>k \<in> set ?ks. is_dir (d\<lparr>dk_dirs := ds\<rparr>) k"
    using mkdirs_ok [of d ?ks] by blast
  have "(False, cs) \<in> set ?ks" using False by (auto simp: image_iff intro!: bexI [of _ "length cs - 1"])
  with ds(3) have "is_dir (d\<lparr>dk_dirs := ds\<rparr>) (False, cs)" by blast
  with ds(1,2) False show ?thesis
    by (intro exI [of _ "d\<lparr>dk_dirs := ds\<rparr>"]) (auto simp: make_parent_def create_dir_all_def take_is_prefix)
qed

lemma put_new_file:
  assumes "free_at (cs @ [c]) d"
  shows "\<exists>d'. bindS (make_parent (Some (False, cs))) (\<lambda>_. write_file (False, cs @ [c]) bs) d = (Some (Inr ()), d')
    \<and> put_at (cs @ [c]) bs d d'"
proof -
  from make_parent_ok [OF assms] obtain d1 where m: "make_parent (Some (False, cs)) d = (Some (Inr ()), d1)"
    and d1: "dk_files d1 = dk_files d" "dk_refuse d1 = dk_refuse d" "is_dir d1 (False, cs)"
    "\<forall>k \<in> set (dk_dirs d1). k \<in> set (dk_dirs d) \<or> \<not> fst k \<and> prefix (snd k) cs \<and> snd k \<noteq> []" by blast
  have "(False, cs @ [c]) \<notin> set (dk_dirs d1)"
    using d1(4) assms unfolding free_at_def by (metis prefix_length_le length_append_singleton not_less_eq_eq order_refl snd_conv)
  then have "write_file (False, cs @ [c]) bs d1 = (Some (Inr ()), d1\<lparr>dk_files := ((False, cs @ [c]), bs) # dk_files d1\<rparr>)"
    using d1(2,3) assms by (simp add: write_file_def is_dir_def [of d1 "(False, cs @ [c])"] parent_key_def returnS_def free_at_def)
  moreover have "put_at (cs @ [c]) bs d (d1\<lparr>dk_files := ((False, cs @ [c]), bs) # dk_files d1\<rparr>)"
    using d1 unfolding put_at_def by (auto simp: strict_prefix_def)
  ultimately show ?thesis using m by (simp add: bindS_def)
qed

lemma put_default_new:
  assumes "free_at (cs @ [c]) d"
  shows "\<exists>d'. put_default (False, cs @ [c]) (Some (False, cs)) bs d = (Some (Inr ()), d') \<and> put_at (cs @ [c]) bs d d'"
proof -
  from assms have "map_of (dk_files d) (False, take (length (cs @ [c])) (cs @ [c])) = None" unfolding free_at_def by blast
  with assms have "\<not> exists_path d (False, cs @ [c])" by (simp add: exists_path_def is_dir_def free_at_def)
  moreover from put_new_file [OF assms, of bs] obtain d' where
    w: "bindS (make_parent (Some (False, cs))) (\<lambda>_. write_file (False, cs @ [c]) bs) d = (Some (Inr ()), d')"
    "put_at (cs @ [c]) bs d d'" by blast
  moreover from w(1) have "bindS (make_parent (Some (False, cs))) (\<lambda>_. ignoreS (write_file (False, cs @ [c]) bs)) d = (Some (Inr ()), d')"
    by (auto simp: bindS_def ignoreS_def split: prod.splits option.splits sum.splits)
  ultimately show ?thesis by (simp add: put_default_alt)
qed

lemma free_after_put:
  assumes "free_at cs d" and "put_at cs' bs d d'" and "\<not> prefix cs' cs" and "\<not> prefix cs cs'"
  shows "free_at cs d'"
proof -
  have "take n cs \<noteq> cs'" for n using assms(3) take_is_prefix [of n cs] by blast
  then show ?thesis
    using assms unfolding free_at_def put_at_def by (auto simp: strict_prefix_def)
qed

lemma nothing_after_put:
  assumes "nothing_at c d" and "put_at cs bs d d'" and "\<not> prefix [c] cs"
  shows "nothing_at c d'"
  using assms unfolding nothing_at_def put_at_def
  by (auto simp: strict_prefix_def)

lemma can_hold_free:
  assumes "can_hold base d" and "r \<noteq> []"
  shows "free_at (base @ r) d"
proof -
  have below: "strict_prefix base (base @ s)" if "s \<noteq> []" for s :: "str list"
    using that by (auto simp: strict_prefix_def)
  have "map_of (dk_files d) (False, take n (base @ r)) = None" for n
  proof (cases "n \<le> length base")
    case True
    with assms(1) show ?thesis by (simp add: can_hold_def)
  next
    case False
    then have "take (n - length base) r \<noteq> []" using assms(2) by simp
    note below [OF this]
    with assms(1) have "(False, base @ take (n - length base) r) \<notin> fst ` set (dk_files d)"
      unfolding can_hold_def by (metis UnI1 fst_conv snd_conv)
    with False show ?thesis by (simp add: map_of_eq_None_iff)
  qed
  moreover have "(False, base @ r) \<notin> set (dk_dirs d)"
    using assms(1) below [OF assms(2)] unfolding can_hold_def by (metis UnI2 fst_conv snd_conv)
  ultimately show ?thesis using assms(1) unfolding free_at_def can_hold_def by blast
qed

text \<open>The first start with settings in a directory that is still empty writes the settings, the icon and the two scripts.\<close>

lemma first_start_writes:
  assumes "se_toml env DEFAULT_CONFIG_TEMPLATE = Inr config0"
    and "pc_script_path config0 = str ''scripts/main.rhai''" "pc_plugins_dir config0 = str ''plugins''"
    and "path_key path = (False, base @ [name])"
    and "name \<noteq> str ''scripts''" "name \<noteq> str ''plugins''" "name \<noteq> str ''server-icon.png''" and "can_hold base d"
  shows "\<exists>config d1 d2 d3 d4. load_or_create env path d = (Some (Inr config), d4)
    \<and> pc_script_path config = str ''scripts/main.rhai'' \<and> pc_plugins_dir config = str ''plugins''
    \<and> put_at (base @ [name]) DEFAULT_CONFIG_TEMPLATE d d1
    \<and> put_at (base @ [str ''server-icon.png'']) (se_icon env) d1 d2
    \<and> put_at (base @ [str ''scripts'', str ''main.rhai'']) (se_main_script env) d2 d3
    \<and> put_at (base @ [str ''plugins'', str ''server_switcher.rhai'']) (se_switcher env) d3 d4"
proof -
  let ?icon = "base @ [str ''server-icon.png'']" and ?script = "(base @ [str ''scripts'']) @ [str ''main.rhai'']"
    and ?switcher = "(base @ [str ''plugins'']) @ [str ''server_switcher.rhai'']"
  note free = can_hold_free [OF assms(8)]
  note names = assms(5-7) demo_names_neq icon_name_neq
  have f0: "free_at (base @ [name]) d" "free_at ?icon d" "free_at ?script d" "free_at ?switcher d"
    using free by simp_all
  from put_new_file [OF f0(1), of DEFAULT_CONFIG_TEMPLATE] obtain d1 where
    w1: "bindS (make_parent (Some (False, base))) (\<lambda>_. write_file (False, base @ [name]) DEFAULT_CONFIG_TEMPLATE) d = (Some (Inr ()), d1)"
    and p1: "put_at (base @ [name]) DEFAULT_CONFIG_TEMPLATE d d1" by blast
  have "create_config env (False, base @ [name]) d = bindS (bindS (make_parent (Some (False, base)))
      (\<lambda>_. write_file (False, base @ [name]) DEFAULT_CONFIG_TEMPLATE)) (\<lambda>_. returnS config0) d"
    by (simp only: bindS_assoc) (simp add: create_config_def parent_key_def make_parent_def assms(1))
  with w1 have c: "create_config env (False, base @ [name]) d = (Some (Inr config0), d1)"
    by (simp add: bindS_def [of "bindS _ _"] returnS_def)
  have f1: "free_at ?icon d1" "free_at ?script d1" "free_at ?switcher d1"
    by (rule free_after_put [OF _ p1]; use f0 names in simp)+
  from put_default_new [OF f1(1), of "se_icon env"] obtain d2 where
    w2: "put_default (False, ?icon) (Some (False, base)) (se_icon env) d1 = (Some (Inr ()), d2)" and p2: "put_at ?icon (se_icon env) d1 d2" by blast
  have f2: "free_at ?script d2" "free_at ?switcher d2"
    by (rule free_after_put [OF _ p2]; use f1 names in simp)+
  from put_default_new [OF f2(1), of "se_main_script env"] obtain d3 where
    w3: "put_default (False, ?script) (Some (False, base @ [str ''scripts''])) (se_main_script env) d2 = (Some (Inr ()), d3)"
    and p3: "put_at ?script (se_main_script env) d2 d3" by blast
  have f3: "free_at ?switcher d3"
    by (rule free_after_put [OF f2(2) p3]; use names in simp)
  from put_default_new [OF f3, of "se_switcher env"] obtain d4 where
    w4: "put_default (False, ?switcher) (Some (False, base @ [str ''plugins''])) (se_switcher env) d3 = (Some (Inr ()), d4)"
    and p4: "put_at ?switcher (se_switcher env) d3 d4" by blast
  have "bootstrap_default_files env config0 (Some (False, base)) d1 = (Some (Inr ()), d4)"
    using w2 w3 w4 assms(2,3)
    by (simp add: bootstrap_default_files_def Let_def demo_keys join_key_def parent_key_def bindS_def butlast_append)
  moreover have "\<not> exists_path d (False, base @ [name])"
    using f0(1) [unfolded free_at_def, THEN conjunct2, THEN conjunct1, rule_format, of "Suc (length base)"] f0(1)
    by (simp add: exists_path_def is_dir_def free_at_def)
  ultimately have "load_or_create env path d =
      (Some (Inr (resolve_favicon (favicon_env_of env d4) (Some (path_text (False, base))) config0)), d4)"
    using c assms(4) by (simp add: load_or_create_def parent_key_def bindS_def ignoreS_def returnS_def)
  with p1 p2 p3 p4 assms(2,3) show ?thesis by (auto simp: resolve_favicon_def)
qed

lemma no_scripts_below_cwd:
  assumes "pc_script_path config = str ''scripts/main.rhai''" "pc_plugins_dir config = str ''plugins''"
    and "nothing_at (str ''scripts'') d" "nothing_at (str ''plugins'') d" "\<forall>k. dk_refuse d k = None"
  shows "scripts (fst (prepare_scripts engine clock config d)) = [rh_default engine]
    \<and> dk_files (snd (prepare_scripts engine clock config d)) = dk_files d"
proof -
  let ?host = "set_servers (map fst (pc_servers config)) (pc_default_server config) (ScriptHost_new engine clock)"
  let ?d = "ensure_plugins_dir (str ''plugins'') d"
  have "parent_key k \<noteq> Some (False, [str ''plugins''])" if "k \<in> fst ` set (dk_files d) \<union> set (dk_dirs d)" for k
  proof
    assume "parent_key k = Some (False, [str ''plugins''])"
    then have "\<not> fst k" "snd k \<noteq> []" "butlast (snd k) = [str ''plugins'']"
      by (auto simp: parent_key_def split: if_splits)
    then have "\<not> fst k \<and> prefix [str ''plugins''] (snd k)"
      using append_butlast_last_id [of "snd k"] prefixI [of "snd k" "[str ''plugins'']"] by metis
    with assms(4) that show False unfolding nothing_at_def by blast
  qed
  then have "entries_of d (str ''plugins'') = []"
    by (force simp: entries_of_def demo_keys filter_empty_conv)
  then have host: "snd (load_plugins_dir (plugin_fs_of d) (str ''plugins'') ?host) = ?host"
    by (simp add: load_plugins_dir_def plugin_fs_of_def plugin_files_def split: option.split)
  have files: "dk_files ?d = dk_files d"
    by (simp add: ensure_plugins_dir_def create_dir_all_def mkdirs_files)
  have "set (dk_dirs ?d) \<subseteq> insert (False, [str ''plugins'']) (set (dk_dirs d))"
    using assms(5) by (auto simp: ensure_plugins_dir_def create_dir_all_def demo_keys returnS_def failS_def split: option.splits if_splits)
  moreover note nothing_atD [OF assms(3), of "[str ''main.rhai'']"]
  then have "map_of (dk_files d) (False, [str ''scripts'', str ''main.rhai'']) = None"
    "(False, [str ''scripts'', str ''main.rhai'']) \<notin> set (dk_dirs d)" by (simp_all add: map_of_eq_None_iff)
  ultimately have "\<not> exists_path ?d (False, [str ''scripts'', str ''main.rhai''])"
    using files by (auto simp: exists_path_def is_dir_def)
  with host show ?thesis
    using assms(1,2) files by (simp add: prepare_scripts_def Let_def demo_keys scripts_def set_servers_def ScriptHost_new_def)
qed

text \<open>C30. The default scripts are put beside the settings file, but the program looks for them below the working directory: when it
  is started for the first time with settings in another relative directory (one that does not begin with \<^verbatim>\<open>scripts\<close> or
  \<^verbatim>\<open>plugins\<close>, has no \<^verbatim>\<open>..\<close> in it and has nothing in it yet) and there are no scripts below the working directory, it
  writes the default script and plugin there and then starts without any script.\<close>

theorem bootstrapped_scripts_not_loaded:
  assumes "se_toml env DEFAULT_CONFIG_TEMPLATE = Inr config0"
    and "pc_script_path config0 = str ''scripts/main.rhai''" "pc_plugins_dir config0 = str ''plugins''"
    and "parse_cli_args args = Inr (Run path)" and "path_key path = (False, base @ [name])"
    and "base \<noteq> []" "hd base \<notin> {str ''scripts'', str ''plugins''}" "str ''..'' \<notin> set base"
    and "name \<notin> {str ''scripts'', str ''plugins'', str ''server-icon.png'', str ''..''}"
    and "can_hold base d" and "nothing_at (str ''scripts'') d" "nothing_at (str ''plugins'') d"
  shows "\<exists>config host d'. main env engine clock ne args d =
      ((case start_listener ne config of Inl e \<Rightarrow> StartFailed e | Inr (m, acc) \<Rightarrow> Listening config host m acc), d')
    \<and> map_of (dk_files d') (False, base @ [str ''scripts'', str ''main.rhai'']) = Some (se_main_script env)
    \<and> map_of (dk_files d') (False, base @ [str ''plugins'', str ''server_switcher.rhai'']) = Some (se_switcher env)
    \<and> scripts host = [rh_default engine]"
proof -
  from first_start_writes [OF assms(1-3,5) _ _ _ assms(10)] assms(9) obtain config d1 d2 d3 d4 where
    l: "load_or_create env path d = (Some (Inr config), d4)"
    and c: "pc_script_path config = str ''scripts/main.rhai''" "pc_plugins_dir config = str ''plugins''"
    and puts: "put_at (base @ [name]) DEFAULT_CONFIG_TEMPLATE d d1"
      "put_at (base @ [str ''server-icon.png'']) (se_icon env) d1 d2"
      "put_at (base @ [str ''scripts'', str ''main.rhai'']) (se_main_script env) d2 d3"
      "put_at (base @ [str ''plugins'', str ''server_switcher.rhai'']) (se_switcher env) d3 d4" by auto
  have "\<not> prefix [x] (base @ r)" if "x \<noteq> hd base" for x r using that assms(6) by (cases base) auto
  with assms(7) have "nothing_at x d4" if "nothing_at x d" "x \<in> {str ''scripts'', str ''plugins''}" for x
    using that nothing_after_put [OF _ puts(1)] nothing_after_put [OF _ puts(2)] nothing_after_put [OF _ puts(3)]
      nothing_after_put [OF _ puts(4)] by metis
  with assms(11,12) have n: "nothing_at (str ''scripts'') d4" "nothing_at (str ''plugins'') d4" by simp_all
  from puts assms(10) have "\<forall>k. dk_refuse d4 k = None" by (simp add: put_at_def can_hold_def)
  note s = no_scripts_below_cwd [OF c n this, of engine clock]
  obtain host d' where p: "prepare_scripts engine clock config d4 = (host, d')"
    by (cases "prepare_scripts engine clock config d4")
  have "main env engine clock ne args d =
      ((case start_listener ne config of Inl e \<Rightarrow> StartFailed e | Inr (m, acc) \<Rightarrow> Listening config host m acc), d')"
    by (simp add: main_def assms(4) l p split: sum.split prod.split)
  moreover from puts(3,4) s p have "map_of (dk_files d') (False, base @ [str ''scripts'', str ''main.rhai'']) = Some (se_main_script env)"
    "map_of (dk_files d') (False, base @ [str ''plugins'', str ''server_switcher.rhai'']) = Some (se_switcher env)"
    by (simp_all add: put_at_def demo_names_neq)
  ultimately show ?thesis using s p by (intro exI [of _ config] exI [of _ host] exI [of _ d']) simp
qed

definition demo_startup :: startup_env where
  "demo_startup = \<lparr>se_toml = (\<lambda>_. Inr default_proxy_config), se_icon = [1], se_main_script = [2], se_switcher = [3], se_exe_dir = None,
     se_b64_encode = id, se_b64_valid = (\<lambda>_. False)\<rparr>"

definition demo_net :: "unit net_env" where
  "demo_net = \<lparr>ne_bind = (\<lambda>_. None), ne_local_addr = None, ne_rsa = le_rsa demo_listener, ne_generated = Inr (), ne_http_error = None\<rparr>"

definition demo_args :: "str list" where
  "demo_args = [str ''framemc'', str ''--config'', str ''conf/config.toml'']"

lemma demo_args_run: "parse_cli_args demo_args = Inr (Run (str ''conf/config.toml''))"
  by (simp add: demo_args_def parse_cli_args_def)

lemma demo_base: "path_key (str ''conf/config.toml'') = (False, [str ''conf''] @ [str ''config.toml''])"
  by (simp add: demo_keys)

lemma demo_place:
  "[str ''conf''] \<noteq> []" "hd [str ''conf''] \<notin> {str ''scripts'', str ''plugins''}" "str ''..'' \<notin> set [str ''conf'']"
  "str ''config.toml'' \<notin> {str ''scripts'', str ''plugins'', str ''server-icon.png'', str ''..''}"
  "can_hold [str ''conf''] fresh_disk" "nothing_at c fresh_disk"
  by (simp_all add: can_hold_def nothing_at_def fresh_disk_def str_def of_char_def)

theorem bootstrapped_scripts_not_loaded_witness:
  "\<exists>config host m acc d'. main demo_startup example_rhai None demo_net demo_args fresh_disk = (Listening config host m (acc :: nat accept_state), d')
    \<and> scripts host = [[]]"
proof -
  have "se_toml demo_startup DEFAULT_CONFIG_TEMPLATE = Inr default_proxy_config" by (simp add: demo_startup_def)
  from bootstrapped_scripts_not_loaded [OF this demo_default_paths demo_args_run demo_base, of fresh_disk example_rhai None demo_net]
    demo_place obtain config host d' where
    m: "main demo_startup example_rhai None demo_net demo_args fresh_disk = ((case start_listener demo_net config of
        Inl e \<Rightarrow> StartFailed e | Inr (m, acc) \<Rightarrow> Listening config host m (acc :: nat accept_state)), d')"
    and "scripts host = [rh_default example_rhai]" by blast
  then have "scripts host = [[]]" by (simp add: example_rhai_def)
  moreover have "start_listener demo_net config = Inr (demo_manager, start_listener_with_state_on config :: nat accept_state)"
    by (simp add: start_listener_def bind_listener_def start_listener_on_def demo_net_def demo_listener_def RsaKeyManager_new_def
        demo_manager_def)
  ultimately show ?thesis using m by auto
qed

theorem settings_survive_restart_witness:
  "\<exists>config d'. load_or_create demo_startup (str ''conf/config.toml'') fresh_disk = (Some (Inr config), d')
    \<and> load_or_create demo_startup (str ''conf/config.toml'') d' = (Some (Inr config), d')"
proof -
  have "se_toml demo_startup DEFAULT_CONFIG_TEMPLATE = Inr default_proxy_config" by (simp add: demo_startup_def)
  from first_start_in_conf [OF this] obtain config where
    l: "load_or_create demo_startup (str ''conf/config.toml'') fresh_disk = (Some (Inr config), conf_disk demo_startup)" by blast
  from settings_survive_restart [OF l] l show ?thesis by blast
qed

end
