(* ===== verification/Stream_Bridge.thy ===== *)
theory Stream_Bridge
  imports Connection
begin

text \<open>
  \<^verbatim>\<open>src/src/network/bridge.rs\<close>: two streams joined without looking into them. \<^verbatim>\<open>tokio::io::copy\<close> is a parameter: the state of
  the future and its poll function, from a reading to a writing end. What the theorems use of it is its documented
  behaviour (\<open>copies\<close>): it takes bytes from the reader, hands them to the writer in order, holds the difference,
  and is done only when the reader is at its end and everything is written.

  The bridge is a function of the events around it: what arrives, which end is closed, and which branch of \<^verbatim>\<open>select!\<close> is
  polled.
\<close>

section \<open>The bridge\<close>

record 'cs copier =
  cp_start :: 'cs
  cp_poll :: "'cs \<Rightarrow> conn \<Rightarrow> conn \<Rightarrow> nat res option \<times> 'cs \<times> conn \<times> conn"

text \<open>The two streams, the two futures, and whether the writing halves have been shut down.\<close>

record 'cs play_bridge =
  pb_client :: conn
  pb_backend :: conn
  pb_client_to_backend :: 'cs
  pb_backend_to_client :: 'cs
  pb_client_shut :: bool
  pb_backend_shut :: bool

datatype bridge_event =
    FromClient bytes | FromBackend bytes | ClientEnds in_end | BackendEnds in_end
  | PollClientToBackend | PollBackendToClient | ShutdownSeen

definition close_bridge :: "'cs play_bridge \<Rightarrow> 'cs play_bridge" where
  "close_bridge pb = pb\<lparr>pb_client_shut := True, pb_backend_shut := True\<rparr>"

text \<open>One event: \<open>Some\<close> when \<^verbatim>\<open>select!\<close> has its winner. The result of a copy is only logged.\<close>

definition bridge_event_step :: "'cs copier \<Rightarrow> bridge_event \<Rightarrow> 'cs play_bridge \<Rightarrow> unit res option \<times> 'cs play_bridge" where
  "bridge_event_step cp ev pb =
     (case ev of
        FromClient bs \<Rightarrow> (None, pb\<lparr>pb_client := (pb_client pb)\<lparr>inb := inb (pb_client pb) @ bs\<rparr>\<rparr>)
      | FromBackend bs \<Rightarrow> (None, pb\<lparr>pb_backend := (pb_backend pb)\<lparr>inb := inb (pb_backend pb) @ bs\<rparr>\<rparr>)
      | ClientEnds fin \<Rightarrow> (None, pb\<lparr>pb_client := (pb_client pb)\<lparr>in_end := fin\<rparr>\<rparr>)
      | BackendEnds fin \<Rightarrow> (None, pb\<lparr>pb_backend := (pb_backend pb)\<lparr>in_end := fin\<rparr>\<rparr>)
      | PollClientToBackend \<Rightarrow>
          (case cp_poll cp (pb_client_to_backend pb) (pb_client pb) (pb_backend pb) of
             (res, cs, c, b) \<Rightarrow>
               let pb = pb\<lparr>pb_client := c, pb_backend := b, pb_client_to_backend := cs\<rparr> in
               (case res of None \<Rightarrow> (None, pb) | Some _ \<Rightarrow> (Some (Inr ()), close_bridge pb)))
      | PollBackendToClient \<Rightarrow>
          (case cp_poll cp (pb_backend_to_client pb) (pb_backend pb) (pb_client pb) of
             (res, cs, b, c) \<Rightarrow>
               let pb = pb\<lparr>pb_client := c, pb_backend := b, pb_backend_to_client := cs\<rparr> in
               (case res of None \<Rightarrow> (None, pb) | Some _ \<Rightarrow> (Some (Inr ()), close_bridge pb)))
      | ShutdownSeen \<Rightarrow> (Some (Inr ()), close_bridge pb))"

fun bridge_events :: "'cs copier \<Rightarrow> bridge_event list \<Rightarrow> 'cs play_bridge \<Rightarrow> unit res option \<times> 'cs play_bridge" where
  "bridge_events cp [] pb = (None, pb)"
| "bridge_events cp (ev # evs) pb =
     (case bridge_event_step cp ev pb of
        (None, pb') \<Rightarrow> bridge_events cp evs pb'
      | (Some r, pb') \<Rightarrow> (Some r, pb'))"

definition bridge_play_streams ::
  "'cs copier \<Rightarrow> conn \<Rightarrow> conn \<Rightarrow> bridge_event list \<Rightarrow> unit res option \<times> 'cs play_bridge" where
  "bridge_play_streams cp client backend evs =
     bridge_events cp evs
       \<lparr>pb_client = client, pb_backend = backend, pb_client_to_backend = cp_start cp, pb_backend_to_client = cp_start cp,
        pb_client_shut = False, pb_backend_shut = False\<rparr>"

section \<open>What arrives on the other side\<close>

text \<open>The documented behaviour of a copy; \<open>held\<close> are the bytes it has read and not yet written.\<close>

definition copies :: "('cs \<Rightarrow> bytes) \<Rightarrow> 'cs copier \<Rightarrow> bool" where
  "copies held cp \<longleftrightarrow> held (cp_start cp) = [] \<and>
     (\<forall>cs r w. case cp_poll cp cs r w of (res, cs', r', w') \<Rightarrow>
        (\<exists>taken written. inb r = taken @ inb r' \<and> outb w' = outb w @ written \<and> held cs @ taken = written @ held cs')
        \<and> in_end r' = in_end r \<and> outb r' = outb r \<and> inb w' = inb w \<and> in_end w' = in_end w
        \<and> (\<forall>n. res = Some (Inr n) \<longrightarrow> in_end r = Eof \<and> inb r' = [] \<and> held cs' = []))"

text \<open>Written, held and unread bytes of one direction.\<close>

definition downstream :: "('cs \<Rightarrow> bytes) \<Rightarrow> 'cs play_bridge \<Rightarrow> bytes" where
  "downstream held pb = outb (pb_backend pb) @ held (pb_client_to_backend pb) @ inb (pb_client pb)"

definition upstream :: "('cs \<Rightarrow> bytes) \<Rightarrow> 'cs play_bridge \<Rightarrow> bytes" where
  "upstream held pb = outb (pb_client pb) @ held (pb_backend_to_client pb) @ inb (pb_backend pb)"

fun client_bytes :: "bridge_event \<Rightarrow> bytes" where
  "client_bytes (FromClient bs) = bs"
| "client_bytes _ = []"

fun backend_bytes :: "bridge_event \<Rightarrow> bytes" where
  "backend_bytes (FromBackend bs) = bs"
| "backend_bytes _ = []"

lemmas bridge_view_defs = downstream_def upstream_def close_bridge_def

lemma copiesD:
  assumes "copies held cp" and "cp_poll cp cs r w = (res, cs', r', w')"
  obtains taken written where "inb r = taken @ inb r'" "outb w' = outb w @ written" "held cs @ taken = written @ held cs'"
    "outb r' = outb r" "inb w' = inb w"
proof -
  from assms(1) have "case cp_poll cp cs r w of (res, cs', r', w') \<Rightarrow>
      (\<exists>taken written. inb r = taken @ inb r' \<and> outb w' = outb w @ written \<and> held cs @ taken = written @ held cs')
      \<and> outb r' = outb r \<and> inb w' = inb w"
    unfolding copies_def by (auto split: prod.splits)
  with assms(2) that show thesis by auto
qed

lemma copies_step:
  assumes "copies held cp" and "cp_poll cp cs r w = (res, cs', r', w')"
  shows "outb w' @ held cs' @ inb r' = outb w @ held cs @ inb r" "outb r' = outb r" "inb w' = inb w"
proof -
  from assms obtain taken written where *: "inb r = taken @ inb r'" "outb w' = outb w @ written"
    "held cs @ taken = written @ held cs'" "outb r' = outb r" "inb w' = inb w" by (rule copiesD)
  from *(3) have "(written @ held cs') @ inb r' = (held cs @ taken) @ inb r'" by simp
  with * show "outb w' @ held cs' @ inb r' = outb w @ held cs @ inb r" "outb r' = outb r" "inb w' = inb w" by simp_all
qed

text \<open>A step of the bridge changes the bytes of each direction only by what arrives, and ends only by closing both sides.\<close>

definition conserves :: "('cs \<Rightarrow> bytes) \<Rightarrow> bytes \<Rightarrow> bytes \<Rightarrow> 'cs play_bridge \<Rightarrow> unit res option \<times> 'cs play_bridge \<Rightarrow> bool" where
  "conserves held fc fb pb out \<longleftrightarrow>
     downstream held (snd out) = downstream held pb @ fc \<and> upstream held (snd out) = upstream held pb @ fb
     \<and> (fst out \<noteq> None \<longrightarrow> fst out = Some (Inr ()) \<and> pb_client_shut (snd out) \<and> pb_backend_shut (snd out))"

lemma bridge_step_conserves:
  assumes "copies held cp"
  shows "conserves held (client_bytes ev) (backend_bytes ev) pb (bridge_event_step cp ev pb)"
proof (cases ev)
  case PollClientToBackend
  obtain res cs c b where p: "cp_poll cp (pb_client_to_backend pb) (pb_client pb) (pb_backend pb) = (res, cs, c, b)"
    by (cases "cp_poll cp (pb_client_to_backend pb) (pb_client pb) (pb_backend pb)")
  from copies_step [OF assms p] p PollClientToBackend show ?thesis
    by (cases res) (simp_all add: bridge_event_step_def conserves_def bridge_view_defs)
next
  case PollBackendToClient
  obtain res cs b c where p: "cp_poll cp (pb_backend_to_client pb) (pb_backend pb) (pb_client pb) = (res, cs, b, c)"
    by (cases "cp_poll cp (pb_backend_to_client pb) (pb_backend pb) (pb_client pb)")
  from copies_step [OF assms p] p PollBackendToClient show ?thesis
    by (cases res) (simp_all add: bridge_event_step_def conserves_def bridge_view_defs)
qed (simp_all add: bridge_event_step_def conserves_def bridge_view_defs)

lemma conserves_trans:
  "conserves held fc fb pb (None, pb1) \<Longrightarrow> conserves held fc' fb' pb1 out \<Longrightarrow> conserves held (fc @ fc') (fb @ fb') pb out"
  by (simp add: conserves_def)

lemma bridge_events_conserve:
  assumes "copies held cp"
  shows "\<exists>n. conserves held (concat (map client_bytes (take n evs))) (concat (map backend_bytes (take n evs))) pb
      (bridge_events cp evs pb) \<and> (fst (bridge_events cp evs pb) = None \<longrightarrow> n = length evs)"
proof (induction evs arbitrary: pb)
  case Nil
  show ?case by (simp add: conserves_def)
next
  case (Cons ev evs)
  obtain r pb1 where s: "bridge_event_step cp ev pb = (r, pb1)" by (cases "bridge_event_step cp ev pb")
  note c = bridge_step_conserves [OF assms, of ev pb, unfolded s]
  show ?case
  proof (cases r)
    case None
    from Cons.IH [of pb1] obtain n where n: "conserves held (concat (map client_bytes (take n evs)))
        (concat (map backend_bytes (take n evs))) pb1 (bridge_events cp evs pb1)"
      "fst (bridge_events cp evs pb1) = None \<longrightarrow> n = length evs" by (elim exE conjE)
    have "bridge_events cp (ev # evs) pb = bridge_events cp evs pb1" using None s by simp
    moreover from conserves_trans [OF c [unfolded None] n(1)]
    have "conserves held (concat (map client_bytes (take (Suc n) (ev # evs)))) (concat (map backend_bytes (take (Suc n) (ev # evs))))
        pb (bridge_events cp evs pb1)" by simp
    ultimately show ?thesis using n(2) by (intro exI [of _ "Suc n"]) simp
  next
    case (Some x)
    with s c show ?thesis by (intro exI [of _ 1]) (simp add: conserves_def)
  qed
qed

text \<open>The bridge passes bytes on unchanged and in order: at any moment what a side has been sent, what the copy holds and
  what is still unread are together all that the other side sent up to then. It ends only with \<^verbatim>\<open>Ok(())\<close> and then both writing
  halves are shut down, whatever made it end. What the copies hold then, and what is unread, is lost.\<close>

theorem bridge_is_transparent:
  assumes "copies held cp" and "bridge_play_streams cp client backend evs = (r, pb)"
    and "outb client = []" "outb backend = []" "inb client = []" "inb backend = []"
  shows "\<exists>n. outb (pb_backend pb) @ held (pb_client_to_backend pb) @ inb (pb_client pb) = concat (map client_bytes (take n evs))
    \<and> outb (pb_client pb) @ held (pb_backend_to_client pb) @ inb (pb_backend pb) = concat (map backend_bytes (take n evs))
    \<and> (r = None \<and> n = length evs \<or> r = Some (Inr ()) \<and> pb_client_shut pb \<and> pb_backend_shut pb)"
proof -
  let ?pb = "\<lparr>pb_client = client, pb_backend = backend, pb_client_to_backend = cp_start cp, pb_backend_to_client = cp_start cp,
        pb_client_shut = False, pb_backend_shut = False\<rparr>"
  have "held (cp_start cp) = []" using assms(1) by (simp add: copies_def)
  then have "downstream held ?pb = []" "upstream held ?pb = []" using assms(3-6) by (simp_all add: bridge_view_defs)
  with bridge_events_conserve [OF assms(1), of evs ?pb] assms(2) show ?thesis
    by (cases r) (auto simp: bridge_play_streams_def conserves_def bridge_view_defs)
qed

text \<open>A copy that passes on one byte per poll.\<close>

definition byte_copier :: "bytes copier" where
  "byte_copier = \<lparr>cp_start = [], cp_poll = (\<lambda>cs r w.
     case cs of
       x # cs' \<Rightarrow> (None, cs', r, w\<lparr>outb := outb w @ [x]\<rparr>)
     | [] \<Rightarrow> (case inb r of
                x # rest \<Rightarrow> (None, [x], r\<lparr>inb := rest\<rparr>, w)
              | [] \<Rightarrow> (if in_end r = Eof then Some (Inr 0) else None, [], r, w)))\<rparr>"

lemma byte_copier_copies: "copies id byte_copier"
  by (auto simp: copies_def byte_copier_def split: list.splits)

definition idle_conn :: conn where
  "idle_conn = \<lparr>inb = [], in_end = Silent, outb = [], wfate = []\<rparr>"

theorem bridge_is_transparent_witness:
  "\<exists>pb. bridge_play_streams byte_copier idle_conn idle_conn [FromClient [7], PollClientToBackend, PollClientToBackend, ShutdownSeen]
       = (Some (Inr ()), pb) \<and> outb (pb_backend pb) = [7] \<and> pb_client_shut pb \<and> pb_backend_shut pb"
proof -
  let ?evs = "[FromClient [7], PollClientToBackend, PollClientToBackend, ShutdownSeen]"
  obtain pb where pb: "bridge_play_streams byte_copier idle_conn idle_conn ?evs = (Some (Inr ()), pb)" "outb (pb_backend pb) = [7]"
    by (simp add: bridge_play_streams_def bridge_event_step_def byte_copier_def close_bridge_def idle_conn_def)
  have "outb idle_conn = []" "inb idle_conn = []" by (simp_all add: idle_conn_def)
  from bridge_is_transparent [OF byte_copier_copies pb(1) this(1,1,2,2)] pb show ?thesis by auto
qed

end
