(* ===== verification/Listener_Proofs.thy ===== *)
theory Listener_Proofs
  imports Listener
begin

text \<open>
  What is proved of \<^verbatim>\<open>process_connection\<close>: what the client has been sent when the login is over, that the
  configuration phase passes every packet on. The plaintext written to a
  stream is described by \<open>wrote\<close>, which reads the same for plain and encrypted streams.
\<close>

section \<open>What is written to a stream\<close>

fun wrote :: "'st cfb8 \<Rightarrow> 'st active_stream \<Rightarrow> 'st active_stream \<Rightarrow> bytes \<Rightarrow> bool" where
  "wrote cf (Plain c) (Plain c') out \<longleftrightarrow> outb c' = outb c @ out"
| "wrote cf (Encrypted e d c) (Encrypted e' d' c') out \<longleftrightarrow>
     outb c' = outb c @ fst (encrypt_blocks cf e out) \<and> e' = snd (encrypt_blocks cf e out)"
| "wrote cf _ _ out \<longleftrightarrow> False"

lemma wrote_refl [simp]: "wrote cf s s []"
  by (cases s) simp_all

lemma wrote_trans: "wrote cf s s1 a \<Longrightarrow> wrote cf s1 s2 b \<Longrightarrow> wrote cf s s2 (a @ b)"
  by (cases s; cases s1; cases s2) (auto simp: encrypt_append split: prod.splits)

lemma wrote_encrypted: "wrote cf s s' out \<Longrightarrow> is_encrypted s' = is_encrypted s"
  by (cases s; cases s') auto

abbreviation takes :: "'st active_stream \<Rightarrow> bool" where
  "takes s \<equiv> wfate (raw_conn s) = []"

lemma wfate_view [simp]: "wfate (view cf s) = wfate (raw_conn s)" "outb (view cf s) = []"
  by (cases s; simp)+

lemma wfate_push [simp]: "wfate (raw_conn (push cf s v)) = wfate v"
  by (cases s) (simp_all add: Let_def)

lemma wrote_push: "wrote cf s (push cf s v) (outb v)"
  by (cases s) (simp_all add: Let_def)

lemma stream_write_wrote:
  assumes "takes s" and "stream_write env p thr s = (r, s')"
  shows "takes s' \<and> (case encode_packet_with_compression (le_z env) p thr of
      Inr bs \<Rightarrow> r = Some (Inr ()) \<and> wrote (le_cfb8 env) s s' bs
    | Inl e \<Rightarrow> r = Some (Inl e) \<and> wrote (le_cfb8 env) s s' [])"
  using assms wrote_push [of "le_cfb8 env" s]
  by (auto simp: on_stream_def write_packet_accepting split: sum.splits) (metis append_Nil conn.select_convs(3) conn.surjective
      conn.update_convs(3) wfate_view(2))+

lemma stream_read_wrote:
  assumes "stream_read env thr s = (r, s')"
  shows "wfate (raw_conn s') = wfate (raw_conn s) \<and> wrote (le_cfb8 env) s s' []"
proof -
  let ?m = "read_packet_with_compression (le_z env) DEFAULT_MAX_PACKET_SIZE thr"
  obtain v where v: "?m (view (le_cfb8 env) s) = (r, v)" "s' = push (le_cfb8 env) s v"
    using assms by (auto simp: on_stream_def split: prod.splits)
  from read_packet_same [OF v(1)] v(2) wrote_push [of "le_cfb8 env" s v] show ?thesis by simp
qed

lemma stream_flush_wrote:
  "stream_flush env s = (r, s') \<Longrightarrow> r = Some (Inr ()) \<and> wfate (raw_conn s') = wfate (raw_conn s) \<and> wrote (le_cfb8 env) s s' []"
  using wrote_push [of "le_cfb8 env" s "view (le_cfb8 env) s"]
  by (auto simp: on_stream_def flush_def returnS_def)

lemma say_wrote:
  assumes "takes s" and "say env thr p s = (r, s')"
  shows "r = Some (Inr ()) \<and> takes s' \<and> wrote (le_cfb8 env) s s' (wire (le_z env) thr p)"
proof -
  obtain x s1 where w: "stream_write env p thr s = (x, s1)" by (cases "stream_write env p thr s")
  obtain y s2 where f: "stream_flush env s1 = (y, s2)" by (cases "stream_flush env s1")
  note w' = stream_write_wrote [OF assms(1) w] and f' = stream_flush_wrote [OF f]
  from w' have w1: "takes s1" "x \<noteq> None" "wrote (le_cfb8 env) s s1 (wire (le_z env) thr p)"
    by (auto simp: wire_def split: sum.splits)
  from assms(2) w f w1(2) f' have "r = Some (Inr ())" "s' = s2"
    by (auto simp: say_def bindS_def ignoreS_def)
  with w1 f' wrote_trans [OF w1(3), of s2 "[]"] show ?thesis by simp
qed

lemma goodbye_wrote:
  assumes "takes s" and "goodbye env thr p e s = (r, s')"
  shows "r = Some (Inl e) \<and> takes s' \<and> wrote (le_cfb8 env) s s' (wire (le_z env) thr p)"
proof -
  obtain x s1 where w: "say env thr p s = (x, s1)" by (cases "say env thr p s")
  from say_wrote [OF assms(1) w] assms(2) w show ?thesis by (auto simp: goodbye_def bindS_def failS_def)
qed

lemma onC_apply: "onC m (s, b) = (r, sb') \<longleftrightarrow> (\<exists>s'. m s = (r, s') \<and> sb' = (s', b))"
  by (auto simp: onC_def split: prod.splits)

lemma onB_apply: "onB m (s, b) = (r, sb') \<longleftrightarrow> (\<exists>b'. m b = (r, b') \<and> sb' = (s, b'))"
  by (auto simp: onB_def split: prod.splits)

section \<open>The backend accepts first\<close>

text \<open>What the client has been told of the compression.\<close>

definition told :: "nat option \<Rightarrow> bytes \<Rightarrow> bool" where
  "told thr out \<longleftrightarrow>
     (case thr of
        None \<Rightarrow> out = []
      | Some n \<Rightarrow> \<exists>p t rest. out = frame p \<and> rp_id p = 0x03 \<and> decode_varint (payload p) = Inr (t, rest)
                  \<and> 0 \<le> sint t \<and> n = i32_as_usize t)"

text \<open>A disconnect message in the framing that the client was told.\<close>

definition farewell :: "('k, 'st) listener_env \<Rightarrow> nat option \<Rightarrow> bytes \<Rightarrow> bool" where
  "farewell env thr out \<longleftrightarrow> (\<exists>reason. out = wire (le_z env) thr (login_disconnect env reason))"

text \<open>The backend's first packet is a compression packet without a threshold of at least 0.\<close>

definition bad_compression :: "('k, 'st) listener_env \<Rightarrow> conn \<Rightarrow> bool" where
  "bad_compression env b \<longleftrightarrow> (\<exists>pkt. fst (read_packet (le_z env) DEFAULT_MAX_PACKET_SIZE b) = Some (Inr pkt) \<and> rp_id pkt = 0x03
     \<and> (\<forall>t rest. decode_varint (payload pkt) = Inr (t, rest) \<longrightarrow> sint t < 0))"

lemma encode_uncompressed: "encode_packet_with_compression z p None = Inr (frame p)"
  by (simp add: encode_packet_with_compression_def frame_def Let_def)

text \<open>Reading from the backend, or telling the client that it is lost.\<close>

lemma read_or_goodbye:
  assumes "takes s"
    and "recoverS (onB (read_packet_with_compression (le_z env) mx thr))
           (\<lambda>e. onC (goodbye env thr (lost_packet env e) e)) (s, b) = (r, s', b')"
  shows "takes s' \<and> (case r of
      Some (Inl e) \<Rightarrow> \<exists>bye. farewell env thr bye \<and> wrote (le_cfb8 env) s s' bye
    | _ \<Rightarrow> s' = s)"
proof -
  obtain x b1 where rd: "read_packet_with_compression (le_z env) mx thr b = (x, b1)"
    by (cases "read_packet_with_compression (le_z env) mx thr b")
  show ?thesis
  proof (cases "\<exists>e. x = Some (Inl e)")
    case True
    then obtain e where x: "x = Some (Inl e)" ..
    obtain y :: "raw_packet res option" and s1 where g: "goodbye env thr (lost_packet env e) e s = (y, s1)"
      by (cases "goodbye env thr (lost_packet env e) e s :: raw_packet res option \<times> _")
    have "y = r" "s1 = s'" using assms(2) rd x g by (simp_all add: recoverS_def onB_def onC_def)
    with goodbye_wrote [OF assms(1) g] show ?thesis by (auto simp: farewell_def lost_packet_def)
  next
    case False
    with assms rd show ?thesis by (auto simp: recoverS_def onB_def split: option.splits sum.splits)
  qed
qed

definition answer_effect ::
  "('k, 'st) listener_env \<Rightarrow> conn \<Rightarrow> 'st active_stream \<Rightarrow> (nat option \<times> raw_packet) res option \<Rightarrow> 'st active_stream \<Rightarrow> bool" where
  "answer_effect env b s r s' \<longleftrightarrow> takes s' \<and> (\<exists>thr out. told thr out \<and>
     (case r of
        None \<Rightarrow> wrote (le_cfb8 env) s s' out
      | Some (Inl e) \<Rightarrow>
          (\<exists>bye. farewell env thr bye \<and> wrote (le_cfb8 env) s s' (out @ bye))
          \<or> (wrote (le_cfb8 env) s s' [] \<and> bad_compression env b)
      | Some (Inr (thr', pkt)) \<Rightarrow> thr' = thr \<and> wrote (le_cfb8 env) s s' out))"

lemma told_None [simp]: "told None []"
  by (simp add: told_def)

lemma answer_effectI:
  assumes "told thr out" "takes s'"
  shows "wrote (le_cfb8 env) s s' (out @ bye) \<Longrightarrow> farewell env thr bye \<Longrightarrow> answer_effect env b s (Some (Inl e)) s'"
    and "wrote (le_cfb8 env) s s' out \<Longrightarrow> answer_effect env b s None s'"
    and "wrote (le_cfb8 env) s s' out \<Longrightarrow> answer_effect env b s (Some (Inr (thr, p))) s'"
  using assms unfolding answer_effect_def by auto

lemma answer_effect_bad:
  "takes s' \<Longrightarrow> wrote (le_cfb8 env) s s' [] \<Longrightarrow> bad_compression env b \<Longrightarrow> answer_effect env b s (Some (Inl e)) s'"
  unfolding answer_effect_def by (auto intro: told_None)

text \<open>Behind \<^verbatim>\<open>SetCompression\<close>: it is passed on in clear framing, and the next packet is read with it.\<close>

lemma after_set_compression:
  assumes "takes s" "rp_id pkt = 0x03" "decode_varint (payload pkt) = Inr (t, rest)" "0 \<le> sint t"
    and m: "bindS (onC (stream_write env pkt None)) (\<lambda>_.
         bindS (ignoreS (onC (stream_flush env))) (\<lambda>_.
         bindS (recoverS (onB (read_packet_with_compression (le_z env) DEFAULT_MAX_PACKET_SIZE (Some (i32_as_usize t))))
                  (\<lambda>e. onC (goodbye env (Some (i32_as_usize t)) (lost_packet env e) e))) (\<lambda>next_pkt.
         returnS (Some (i32_as_usize t), next_pkt)))) (s, b) = (r, s', b')"
  shows "answer_effect env b0 s r s'"
proof -
  let ?thr = "Some (i32_as_usize t)"
  obtain x s1 where w: "stream_write env pkt None s = (x, s1)" by (cases "stream_write env pkt None s")
  obtain y s2 where f: "stream_flush env s1 = (y, s2)" by (cases "stream_flush env s1")
  note w' = stream_write_wrote [OF assms(1) w, unfolded encode_uncompressed] and f' = stream_flush_wrote [OF f]
  have s2: "takes s2" "wrote (le_cfb8 env) s s2 (frame pkt)" "x = Some (Inr ())" "y = Some (Inr ())"
    using w' f' wrote_trans [of "le_cfb8 env" s s1 "frame pkt" s2 "[]"] by auto
  have told: "told ?thr (frame pkt)" using assms(2-4) by (auto simp: told_def)
  let ?m = "recoverS (onB (read_packet_with_compression (le_z env) DEFAULT_MAX_PACKET_SIZE ?thr))
                  (\<lambda>e. onC (goodbye env ?thr (lost_packet env e) e))"
  obtain u s3 b3 where rg: "?m (s2, b) = (u, s3, b3)" by (cases "?m (s2, b)") auto
  from m w f s2(3,4) rg have r: "r = (case u of None \<Rightarrow> None | Some (Inl e) \<Rightarrow> Some (Inl e) | Some (Inr p) \<Rightarrow> Some (Inr (?thr, p)))"
    and s': "s' = s3"
    by (auto simp: bindS_def onC_def ignoreS_def returnS_def split: option.splits sum.splits)
  from read_or_goodbye [OF s2(1) rg] s2(2) show ?thesis
    unfolding r s' by (auto split: option.splits sum.splits intro: answer_effectI [OF told] wrote_trans)
qed

lemma backend_answer_effect:
  assumes "takes s" and "backend_answer env (s, b) = (r, s', b')"
  shows "answer_effect env b s r s'"
proof -
  let ?m = "recoverS (onB (read_packet_with_compression (le_z env) DEFAULT_MAX_PACKET_SIZE None))
                  (\<lambda>e. onC (goodbye env None (lost_packet env e) e))"
  obtain u s1 b1 where rg: "?m (s, b) = (u, s1, b1)" by (cases "?m (s, b)") auto
  note eff = read_or_goodbye [OF assms(1) rg]
  show ?thesis
  proof (cases "\<exists>pkt. u = Some (Inr pkt)")
    case False
    with assms(2) rg have "s' = s1" "u = None \<and> r = None \<or> (\<exists>e. u = Some (Inl e) \<and> r = Some (Inl e))"
      by (auto simp: backend_answer_def read_packet_def bindS_def split: option.splits sum.splits)
    with eff assms(1) answer_effectI [OF told_None, of s' env s] show ?thesis
      by (auto split: option.splits sum.splits)
  next
    case True
    then obtain pkt where u: "u = Some (Inr pkt)" ..
    with eff have s1: "s1 = s" by simp
    show ?thesis
    proof (cases "rp_id pkt = 0x03 \<and> (\<exists>t rest. decode_varint (payload pkt) = Inr (t, rest) \<and> 0 \<le> sint t)")
      case True
      then obtain t rest where t: "rp_id pkt = 0x03" "decode_varint (payload pkt) = Inr (t, rest)" "0 \<le> sint t" by blast
      show ?thesis
        by (rule after_set_compression [OF assms(1) t])
           (use assms(2) rg u s1 t in \<open>simp add: backend_answer_def read_packet_def bindS_def [of ?m] Let_def\<close>)
    next
      case False
      with assms(2) rg u s1 have r: "r = Some (Inr (None, pkt)) \<and> s' = s \<and> rp_id pkt \<noteq> 0x03
          \<or> (\<exists>e. r = Some (Inl e) \<and> s' = s) \<and> rp_id pkt = 0x03"
        by (auto simp: backend_answer_def read_packet_def bindS_def [of ?m] returnS_def failS_def bindS_def [of "liftS _"] liftS_def
            split: if_splits sum.splits)
      have "fst (read_packet (le_z env) DEFAULT_MAX_PACKET_SIZE b) = Some (Inr pkt)"
        using rg u by (auto simp: read_packet_def recoverS_def onB_def onC_def goodbye_def bindS_def failS_def
            split: prod.splits option.splits sum.splits)
      with False have "rp_id pkt = 0x03 \<Longrightarrow> bad_compression env b"
        unfolding bad_compression_def by (intro exI [of _ pkt]) auto
      with r answer_effectI(3) [OF told_None assms(1), of env s] answer_effect_bad [OF assms(1), of env s b]
      show ?thesis by auto
    qed
  qed
qed

lemma check_answer_effect:
  assumes "takes s" and "check_answer env thr pkt s = (r, s')"
  shows "takes s' \<and> (r = Some (Inr ()) \<and> rp_id pkt = 0x02 \<and> s' = s
    \<or> (\<exists>e bye. r = Some (Inl e) \<and> farewell env thr bye \<and> wrote (le_cfb8 env) s s' bye))"
proof (cases "rp_id pkt = 0x02")
  case True
  with assms show ?thesis by (simp add: check_answer_def returnS_def)
next
  case False
  with assms(2) obtain reason e where "goodbye env thr (login_disconnect env reason) e s = (r, s')"
    by (auto simp: check_answer_def Let_def split: if_splits)
  from goodbye_wrote [OF assms(1) this] show ?thesis by (auto simp: farewell_def)
qed

lemma send_login_success_effect:
  assumes "zlib_ok (le_z env)" and "takes s" and "send_login_success env profile v thr pkt s = (r, s')"
  shows "takes s' \<and> r = Some (Inr ()) \<and> wrote (le_cfb8 env) s s'
          (wire (le_z env) thr (login_success_for env profile (Some (session_of env v pkt)) v))"
proof -
  let ?bs = "wire (le_z env) thr (login_success_for env profile (Some (session_of env v pkt)) v)"
  let ?s1 = "push (le_cfb8 env) s ((view (le_cfb8 env) s)\<lparr>outb := ?bs\<rparr>)"
  have "on_stream (le_cfb8 env) (write_all ?bs) s = (Some (Inr ()), ?s1)"
    using assms(2) by (simp add: on_stream_def write_all_ok)
  with assms(3) obtain y where f: "stream_flush env ?s1 = (y, s')" "y = r"
    by (cases "stream_flush env ?s1") (auto simp: send_login_success_def bindS_def liftS_def encode_is_wire [OF assms(1)])
  have "wrote (le_cfb8 env) s ?s1 ?bs" using wrote_push [of "le_cfb8 env" s "(view (le_cfb8 env) s)\<lparr>outb := ?bs\<rparr>"] by simp
  from wrote_trans [OF this, of s' "[]"] stream_flush_wrote [OF f(1)] f(2) assms(2) show ?thesis
    by simp
qed


definition quiet_conn :: "bytes \<Rightarrow> conn" where
  "quiet_conn bs = \<lparr>inb = bs, in_end = Silent, outb = [], wfate = []\<rparr>"

lemma quiet_conn_simps [simp]: "wfate (quiet_conn bs) = []" "outb (quiet_conn bs) = []" "inb (quiet_conn bs) = bs"
  by (simp_all add: quiet_conn_def)

lemma accepted_at_once:
  assumes "takes s" and "inb b = frame (RawPacket 0x02 [])"
  shows "\<exists>sb'. finish_login env profile v (s, b) = (Some (Inr None), sb') \<and> takes (fst sb')"
proof -
  have "read_packet (le_z env) DEFAULT_MAX_PACKET_SIZE b = (Some (Inr (RawPacket 0x02 [])), b\<lparr>inb := []\<rparr>)"
    by (rule read_packet_default) (simp_all add: assms(2) wire_length_def varint_size_def DEFAULT_MAX_PACKET_SIZE_def)
  then have "backend_answer env (s, b) = (Some (Inr (None, RawPacket 0x02 [])), s, b\<lparr>inb := []\<rparr>)"
    by (simp add: backend_answer_def recoverS_def onB_def bindS_def returnS_def)
  with assms(1) show ?thesis
    by (simp add: finish_login_def bindS_def onC_def check_answer_def returnS_def send_login_success_def liftS_def
        encode_uncompressed on_stream_def write_all_ok flush_def)
qed


section \<open>The configuration phase passes everything on\<close>

abbreviation unprotected :: "raw_packet list \<Rightarrow> raw_packet list" where
  "unprotected ps \<equiv> filter (\<lambda>p. \<not> is_protected_plugin_channel p) ps"

definition wires :: "('k, 'st) listener_env \<Rightarrow> nat option \<Rightarrow> raw_packet list \<Rightarrow> bytes" where
  "wires env thr ps = concat (map (wire (le_z env) thr) (unprotected ps))"

text \<open>The packets a turn reads from the backend and from the client.\<close>

definition from_backend :: "('k, 'st) listener_env \<Rightarrow> nat option \<Rightarrow> loop_event \<Rightarrow> 'st bridge \<Rightarrow> raw_packet list" where
  "from_backend env thr ev br =
     (case ev of
        BackendTurn _ \<Rightarrow>
          (case fst (read_packet_with_compression (le_z env) DEFAULT_MAX_PACKET_SIZE thr (br_backend br)) of
             Some (Inr p) \<Rightarrow> [p] | _ \<Rightarrow> [])
      | _ \<Rightarrow> [])"

definition from_client :: "('k, 'st) listener_env \<Rightarrow> nat option \<Rightarrow> loop_event \<Rightarrow> 'st bridge \<Rightarrow> raw_packet list" where
  "from_client env thr ev br =
     (case ev of
        ClientTurn _ \<Rightarrow> (case fst (stream_read env thr (br_client br)) of Some (Inr p) \<Rightarrow> [p] | _ \<Rightarrow> [])
      | _ \<Rightarrow> [])"

text \<open>What a packet of the backend does to the registry cache.\<close>

definition cache_step :: "i32 \<Rightarrow> raw_packet \<Rightarrow> session_registry_cache \<Rightarrow> session_registry_cache" where
  "cache_step v pkt cache =
     (if rp_id pkt = REGISTRY_DATA_PACKET_ID \<or> (sint v < 766 \<and> rp_id pkt = 0x05) then snd (cache_packet pkt cache) else cache)"

definition finished_by :: "i32 \<Rightarrow> raw_packet list \<Rightarrow> bool" where
  "finished_by v ps \<longleftrightarrow> (\<exists>p \<in> set (unprotected ps). rp_id p = finish_id v)"

lemma wires_append: "wires env thr (ps @ qs) = wires env thr ps @ wires env thr qs"
  by (simp add: wires_def)

lemma finished_by_append: "finished_by v (ps @ qs) \<longleftrightarrow> finished_by v ps \<or> finished_by v qs"
  by (auto simp: finished_by_def)

text \<open>The state after the packets \<open>fb\<close> of the backend and \<open>fc\<close> of the client have been passed on.\<close>

definition passed_on ::
  "('k, 'st) listener_env \<Rightarrow> i32 \<Rightarrow> nat option \<Rightarrow> raw_packet list \<Rightarrow> raw_packet list \<Rightarrow> 'st bridge \<Rightarrow> 'st bridge \<Rightarrow> bool" where
  "passed_on env v thr fb fc br br' \<longleftrightarrow>
     wrote (le_cfb8 env) (br_client br) (br_client br') (wires env thr fb)
     \<and> outb (br_backend br') = outb (br_backend br) @ wires env thr fc
     \<and> br_cache br' = fold (cache_step v) (unprotected fb) (br_cache br)
     \<and> (br_backend_finished br' \<longleftrightarrow> br_backend_finished br \<or> finished_by v fb)
     \<and> (br_client_finished br' \<longleftrightarrow> br_client_finished br \<or> finished_by v fc)"

definition br_takes :: "'st bridge \<Rightarrow> bool" where
  "br_takes br \<longleftrightarrow> takes (br_client br) \<and> wfate (br_backend br) = []"

lemma passed_on_refl: "passed_on env v thr [] [] br br"
  by (simp add: passed_on_def wires_def finished_by_def)

lemma passed_on_trans:
  assumes "passed_on env v thr fb fc br br1" "passed_on env v thr fb' fc' br1 br2"
  shows "passed_on env v thr (fb @ fb') (fc @ fc') br br2"
  using assms wrote_trans [of "le_cfb8 env" "br_client br" "br_client br1" "wires env thr fb" "br_client br2" "wires env thr fb'"]
  by (auto simp: passed_on_def wires_def finished_by_def)

lemma wrote_input:
  "wrote cf s (receive bs s) []" "wfate (raw_conn (receive bs s)) = wfate (raw_conn s)"
  "wrote cf s (close_input fin s) []" "wfate (raw_conn (close_input fin s)) = wfate (raw_conn s)"
  by (cases s; simp)+

lemma dropped_read_same:
  "outb (dropped_read z thr polled c) = outb c" "wfate (dropped_read z thr polled c) = wfate c"
  using read_packet_same [of z DEFAULT_MAX_PACKET_SIZE thr c]
  by (auto simp: dropped_read_def split: prod.splits option.splits)

lemma wrote_dropped:
  "wrote (le_cfb8 env) s (dropped_stream_read env thr polled s) []"
  "wfate (raw_conn (dropped_stream_read env thr polled s)) = wfate (raw_conn s)"
  using wrote_push [of "le_cfb8 env" s "dropped_read (le_z env) thr polled (view (le_cfb8 env) s)"]
  by (simp_all add: dropped_stream_read_def dropped_read_same)

lemma write_then_client:
  assumes "zlib_ok (le_z env)" and "takes s" and "write_then st (stream_write env p thr) (stream_flush env) s = (st', s')"
  shows "st' = st \<and> takes s' \<and> wrote (le_cfb8 env) s s' (wire (le_z env) thr p)"
proof -
  obtain x s1 where w: "stream_write env p thr s = (x, s1)" by (cases "stream_write env p thr s")
  obtain y s2 where f: "stream_flush env s1 = (y, s2)" by (cases "stream_flush env s1")
  from stream_write_wrote [OF assms(2) w]
  have x: "x = Some (Inr ())" "takes s1" "wrote (le_cfb8 env) s s1 (wire (le_z env) thr p)"
    by (simp_all add: encode_is_wire [OF assms(1)])
  with assms(3) w f stream_flush_wrote [OF f] have "st' = st" "s' = s2" by (simp_all add: write_then_def bindS_def ignoreS_def)
  with x stream_flush_wrote [OF f] wrote_trans [OF x(3), of s2 "[]"] show ?thesis by simp
qed

lemma write_then_backend:
  assumes "zlib_ok z" and "wfate b = []" and "write_then st (write_packet_with_compression z p thr) flush b = (st', b')"
  shows "st' = st \<and> outb b' = outb b @ wire z thr p \<and> wfate b' = []"
  using assms by (auto simp: write_then_def bindS_def ignoreS_def write_packet_accepting flush_def returnS_def encode_is_wire)

lemma bridge_backend_packet_passed:
  assumes "zlib_ok (le_z env)" and "br_takes br" and "bridge_backend_packet env v thr pkt br = (st, br')"
  shows "br_takes br' \<and> passed_on env v thr [pkt] [] br br'
    \<and> st = (if \<not> is_protected_plugin_channel pkt \<and> rp_id pkt = disconnect_id v then Done (Inr ()) else Running)"
proof (cases "is_protected_plugin_channel pkt")
  case True
  with assms show ?thesis
    by (simp add: bridge_backend_packet_def passed_on_def wires_def finished_by_def)
next
  case False
  let ?st = "if rp_id pkt = disconnect_id v then Done (Inr ()) else Running"
  obtain st1 s where w: "write_then ?st (stream_write env pkt thr) (stream_flush env) (br_client br) = (st1, s)"
    by (cases "write_then ?st (stream_write env pkt thr) (stream_flush env) (br_client br)")
  from assms(3) w False have br': "st = st1" "br_client br' = s" "br_backend br' = br_backend br"
    "br_cache br' = cache_step v pkt (br_cache br)" "br_client_finished br' = br_client_finished br"
    "br_backend_finished br' \<longleftrightarrow> br_backend_finished br \<or> rp_id pkt = finish_id v"
    by (auto simp: bridge_backend_packet_def Let_def cache_step_def split: prod.splits if_splits)
  moreover from assms(2) have "takes (br_client br)" by (simp add: br_takes_def)
  note write_then_client [OF assms(1) this w]
  ultimately show ?thesis
    using assms(2) False by (simp add: br_takes_def passed_on_def wires_def finished_by_def)
qed

lemma bridge_client_packet_passed:
  assumes "zlib_ok (le_z env)" and "br_takes br" and "bridge_client_packet env v thr pkt br = (st, br')"
  shows "br_takes br' \<and> passed_on env v thr [] [pkt] br br' \<and> st = Running"
proof (cases "is_protected_plugin_channel pkt")
  case True
  with assms show ?thesis
    by (simp add: bridge_client_packet_def passed_on_def wires_def finished_by_def)
next
  case False
  obtain st1 b where w: "write_then Running (write_packet_with_compression (le_z env) pkt thr) flush (br_backend br) = (st1, b)"
    by (cases "write_then Running (write_packet_with_compression (le_z env) pkt thr) flush (br_backend br)")
  from assms(3) w False have br': "st = st1" "br_client br' = br_client br" "br_backend br' = b"
    "br_cache br' = br_cache br" "br_backend_finished br' = br_backend_finished br"
    "br_client_finished br' \<longleftrightarrow> br_client_finished br \<or> rp_id pkt = finish_id v"
    by (auto simp: bridge_client_packet_def Let_def split: prod.splits if_splits)
  moreover from assms(2) have "wfate (br_backend br) = []" by (simp add: br_takes_def)
  note write_then_backend [OF assms(1) this w]
  ultimately show ?thesis
    using assms(2) False by (simp add: br_takes_def passed_on_def wires_def finished_by_def)
qed

text \<open>Everything but reading a packet leaves what is written as it is.\<close>

lemma passed_on_input:
  assumes "br_takes br" "wrote (le_cfb8 env) (br_client br) s []" "wfate (raw_conn s) = wfate (raw_conn (br_client br))"
    and "outb b = outb (br_backend br)" "wfate b = wfate (br_backend br)"
  shows "br_takes (br\<lparr>br_client := s, br_backend := b\<rparr>) \<and> passed_on env v thr [] [] br (br\<lparr>br_client := s, br_backend := b\<rparr>)"
  using assms by (simp add: br_takes_def passed_on_def wires_def finished_by_def)

text \<open>Why a turn ends the loop: an error of a read, the backend's disconnect packet, or the shutdown.\<close>

lemma bridge_turn_passed:
  assumes "zlib_ok (le_z env)" and "br_takes br" and "bridge_turn env v thr ev br = (st, br')" and "\<forall>c b. ev \<noteq> ShutdownTurn c b"
  shows "br_takes br' \<and> passed_on env v thr (from_backend env thr ev br) (from_client env thr ev br) br br'
    \<and> (st = Running \<or> (\<exists>e. st = Done (Inl e))
       \<or> st = Done (Inr ()) \<and> (\<exists>p. from_backend env thr ev br = [p] \<and> rp_id p = disconnect_id v))"
proof (cases ev)
  case (BackendTurn polled)
  obtain x b where rd: "read_packet_with_compression (le_z env) DEFAULT_MAX_PACKET_SIZE thr (br_backend br) = (x, b)"
    by (cases "read_packet_with_compression (le_z env) DEFAULT_MAX_PACKET_SIZE thr (br_backend br)")
  let ?br = "br\<lparr>br_client := dropped_stream_read env thr polled (br_client br), br_backend := b\<rparr>"
  have eff: "br_takes ?br \<and> passed_on env v thr [] [] br ?br"
    using assms(2) wrote_dropped read_packet_same [OF rd] by (intro passed_on_input) simp_all
  from assms(3) BackendTurn rd consider "x = None" "br' = br" "st = Running"
    | e where "x = Some (Inl e)" "br' = ?br" "st = Done (Inl e)"
    | pkt where "x = Some (Inr pkt)" "bridge_backend_packet env v thr pkt ?br = (st, br')"
    by (auto simp: bridge_turn_def Let_def split: option.splits sum.splits)
  then show ?thesis
  proof cases
    case 1
    with assms(2) BackendTurn rd passed_on_refl [of env v thr br] show ?thesis by (simp add: from_backend_def from_client_def)
  next
    case (2 e)
    with eff BackendTurn rd show ?thesis by (simp add: from_backend_def from_client_def)
  next
    case (3 pkt)
    with eff bridge_backend_packet_passed [OF assms(1), of ?br v thr pkt st br']
      passed_on_trans [of env v thr "[]" "[]" br ?br "[pkt]" "[]" br'] BackendTurn rd
    show ?thesis by (simp add: from_backend_def from_client_def)
  qed
next
  case (ClientTurn polled)
  obtain x s where rd: "stream_read env thr (br_client br) = (x, s)" by (cases "stream_read env thr (br_client br)")
  let ?br = "br\<lparr>br_client := s, br_backend := dropped_read (le_z env) thr polled (br_backend br)\<rparr>"
  have eff: "br_takes ?br \<and> passed_on env v thr [] [] br ?br"
    using assms(2) stream_read_wrote [OF rd] dropped_read_same by (intro passed_on_input) simp_all
  from assms(3) ClientTurn rd consider "x = None" "br' = br" "st = Running"
    | e where "x = Some (Inl e)" "br' = ?br" "st = Done (Inl e)"
    | pkt where "x = Some (Inr pkt)" "bridge_client_packet env v thr pkt ?br = (st, br')"
    by (auto simp: bridge_turn_def Let_def split: option.splits sum.splits)
  then show ?thesis
  proof cases
    case 1
    with assms(2) ClientTurn rd passed_on_refl [of env v thr br] show ?thesis by (simp add: from_backend_def from_client_def)
  next
    case (2 e)
    with eff ClientTurn rd show ?thesis by (simp add: from_backend_def from_client_def)
  next
    case (3 pkt)
    with eff bridge_client_packet_passed [OF assms(1), of ?br v thr pkt st br']
      passed_on_trans [of env v thr "[]" "[]" br ?br "[]" "[pkt]" br'] ClientTurn rd
    show ?thesis by (simp add: from_backend_def from_client_def)
  qed
qed (use assms in \<open>auto simp: wrote_input bridge_turn_def br_takes_def passed_on_def wires_def finished_by_def from_backend_def
    from_client_def\<close>)

text \<open>The state when the loop stops: everything read has been passed on, and the shutdown has been announced if that is why.\<close>

definition bridged ::
  "('k, 'st) listener_env \<Rightarrow> i32 \<Rightarrow> nat option \<Rightarrow> raw_packet list \<Rightarrow> raw_packet list \<Rightarrow> 'st bridge \<Rightarrow> loop_state \<Rightarrow> 'st bridge \<Rightarrow> bool" where
  "bridged env v thr fb fc br st br' \<longleftrightarrow>
     (\<exists>shut. wrote (le_cfb8 env) (br_client br) (br_client br')
         (wires env thr fb @ (if shut then wire (le_z env) thr (shutdown_packet env v) else []))
     \<and> outb (br_backend br') = outb (br_backend br) @ wires env thr fc
     \<and> br_cache br' = fold (cache_step v) (unprotected fb) (br_cache br)
     \<and> (br_backend_finished br' \<longleftrightarrow> br_backend_finished br \<or> finished_by v fb)
     \<and> (br_client_finished br' \<longleftrightarrow> br_client_finished br \<or> finished_by v fc)
     \<and> (shut \<longrightarrow> st = Done (Inr ()))
     \<and> (st = Done (Inr ()) \<and> \<not> shut \<longrightarrow> fb \<noteq> [] \<and> rp_id (last fb) = disconnect_id v)
     \<and> st \<noteq> Stuck)"

lemma bridged_passed:
  assumes "passed_on env v thr fb fc br br1" "bridged env v thr fb' fc' br1 st br2"
  shows "bridged env v thr (fb @ fb') (fc @ fc') br st br2"
proof -
  from assms(2) obtain shut where w1: "wrote (le_cfb8 env) (br_client br1) (br_client br2)
       (wires env thr fb' @ (if shut then wire (le_z env) thr (shutdown_packet env v) else []))"
    and rest: "outb (br_backend br2) = outb (br_backend br1) @ wires env thr fc'"
     "br_cache br2 = fold (cache_step v) (unprotected fb') (br_cache br1)"
     "br_backend_finished br2 \<longleftrightarrow> br_backend_finished br1 \<or> finished_by v fb'"
     "br_client_finished br2 \<longleftrightarrow> br_client_finished br1 \<or> finished_by v fc'"
     "shut \<longrightarrow> st = Done (Inr ())" "st = Done (Inr ()) \<and> \<not> shut \<longrightarrow> fb' \<noteq> [] \<and> rp_id (last fb') = disconnect_id v"
     "st \<noteq> Stuck"
    by (auto simp: bridged_def)
  note first = assms(1) [unfolded passed_on_def]
  from wrote_trans [OF conjunct1 [OF first] w1] have w: "wrote (le_cfb8 env) (br_client br) (br_client br2)
      (wires env thr (fb @ fb') @ (if shut then wire (le_z env) thr (shutdown_packet env v) else []))"
    by (simp add: wires_append)
  show ?thesis
    unfolding bridged_def
  proof (intro exI [of _ shut] conjI)
    show "outb (br_backend br2) = outb (br_backend br) @ wires env thr (fc @ fc')"
      using first rest(1) by (simp add: wires_append)
    show "br_cache br2 = fold (cache_step v) (unprotected (fb @ fb')) (br_cache br)"
      using first rest(2) by simp
    show "br_backend_finished br2 \<longleftrightarrow> br_backend_finished br \<or> finished_by v (fb @ fb')"
      using first rest(3) by (simp add: finished_by_append)
    show "br_client_finished br2 \<longleftrightarrow> br_client_finished br \<or> finished_by v (fc @ fc')"
      using first rest(4) by (simp add: finished_by_append)
    show "st = Done (Inr ()) \<and> \<not> shut \<longrightarrow> fb @ fb' \<noteq> [] \<and> rp_id (last (fb @ fb')) = disconnect_id v"
      using rest(6) by simp
  qed (rule w rest(5) rest(7))+
qed

lemma passed_on_bridged:
  "passed_on env v thr fb fc br br' \<Longrightarrow> st \<noteq> Stuck \<Longrightarrow>
   (st = Done (Inr ()) \<longrightarrow> fb \<noteq> [] \<and> rp_id (last fb) = disconnect_id v) \<Longrightarrow> bridged env v thr fb fc br st br'"
  unfolding bridged_def passed_on_def by (intro exI [of _ False]) simp

lemma bridge_turn_bridged:
  assumes "zlib_ok (le_z env)" and "br_takes br" and "bridge_turn env v thr ev br = (st, br')"
  shows "bridged env v thr (from_backend env thr ev br) (from_client env thr ev br) br st br'"
proof (cases "\<exists>cp bp. ev = ShutdownTurn cp bp")
  case False
  then have "\<forall>cp bp. ev \<noteq> ShutdownTurn cp bp" by blast
  from bridge_turn_passed [OF assms this] show ?thesis
    by (auto intro!: passed_on_bridged)
next
  case True
  then obtain cp bp where ev: "ev = ShutdownTurn cp bp" by blast
  let ?s = "dropped_stream_read env thr cp (br_client br)" and ?b = "dropped_read (le_z env) thr bp (br_backend br)"
  obtain r s where s: "say env thr (shutdown_packet env v) ?s = (r, s)" by (cases "say env thr (shutdown_packet env v) ?s")
  have "takes ?s" using assms(2) wrote_dropped(2) [of env thr cp "br_client br"] by (simp add: br_takes_def)
  from say_wrote [OF this s] have r: "r = Some (Inr ())" "wrote (le_cfb8 env) ?s s (wire (le_z env) thr (shutdown_packet env v))"
    by simp_all
  from assms(3) s r(1) have br': "st = Done (Inr ())" "br' = br\<lparr>br_backend := ?b, br_client := s\<rparr>"
    by (simp_all add: bridge_turn_def ev Let_def)
  from wrote_trans [OF wrote_dropped(1) [of env "br_client br" thr cp] r(2)] show ?thesis
    unfolding bridged_def
    by (intro exI [of _ True]) (simp add: br' ev from_backend_def from_client_def wires_def finished_by_def dropped_read_same)
qed

text \<open>All packets the loop has read from the backend and from the client.\<close>

fun bridge_trace ::
  "('k, 'st) listener_env \<Rightarrow> i32 \<Rightarrow> nat option \<Rightarrow> loop_event list \<Rightarrow> 'st bridge \<Rightarrow> raw_packet list \<times> raw_packet list" where
  "bridge_trace env v thr [] br = ([], [])"
| "bridge_trace env v thr (ev # evs) br =
     (if br_client_finished br \<and> br_backend_finished br then ([], [])
      else
        (case bridge_turn env v thr ev br of
           (Running, br') \<Rightarrow>
             (case bridge_trace env v thr evs br' of
                (fb, fc) \<Rightarrow> (from_backend env thr ev br @ fb, from_client env thr ev br @ fc))
         | _ \<Rightarrow> (from_backend env thr ev br, from_client env thr ev br)))"

lemma bridge_loop_passed:
  assumes "zlib_ok (le_z env)"
  shows "br_takes br \<Longrightarrow> bridge_loop env v thr evs br = (st, rest, br') \<Longrightarrow> bridge_trace env v thr evs br = (fb, fc) \<Longrightarrow>
   bridged env v thr fb fc br st br' \<and> (st = Running \<longrightarrow> rest = [] \<or> br_client_finished br' \<and> br_backend_finished br')"
proof (induction evs arbitrary: br fb fc)
  case Nil
  then show ?case
    using passed_on_bridged [OF passed_on_refl [of env v thr br], of Running]
    by (auto simp: bridge_loop.simps split: if_splits)
next
  case (Cons ev evs)
  show ?case
  proof (cases "br_client_finished br \<and> br_backend_finished br")
    case True
    with Cons.prems passed_on_bridged [OF passed_on_refl [of env v thr br], of Running] show ?thesis
      by (auto simp: bridge_loop.simps)
  next
    case False
    obtain st1 br1 where t: "bridge_turn env v thr ev br = (st1, br1)" by (cases "bridge_turn env v thr ev br")
    show ?thesis
    proof (cases "st1 = Running")
      case True
      with Cons.prems(2) False t have l: "bridge_loop env v thr evs br1 = (st, rest, br')"
        by (subst (asm) bridge_loop.simps) simp
      obtain fb' fc' where tr: "bridge_trace env v thr evs br1 = (fb', fc')" by (cases "bridge_trace env v thr evs br1")
      have "\<forall>cp bp. ev \<noteq> ShutdownTurn cp bp"
        using t True by (auto simp: bridge_turn_def Let_def split: prod.splits option.splits)
      note step = bridge_turn_passed [OF assms Cons.prems(1) t this]
      from Cons.prems(3) False t tr True have "fb = from_backend env thr ev br @ fb'" "fc = from_client env thr ev br @ fc'"
        by auto
      with Cons.IH [OF _ l tr] step bridged_passed [of env v thr _ _ br br1 fb' fc' st br'] show ?thesis by blast
    next
      case stop: False
      with Cons.prems(2) False t have "st = st1" "br' = br1"
        by (subst (asm) bridge_loop.simps; auto split: loop_state.splits)+
      moreover from stop Cons.prems(3) False t have "fb = from_backend env thr ev br" "fc = from_client env thr ev br"
        by (auto split: loop_state.splits)
      ultimately show ?thesis using bridge_turn_bridged [OF assms Cons.prems(1) t] stop by simp
    qed
  qed
qed

text \<open>C11. During the configuration phase the proxy passes on, in order and unchanged, every packet it reads from either side,
  except those on protected plugin channels, whatever arrives and in whatever order the branches of \<^verbatim>\<open>select!\<close>
  complete; this holds for the whole run, however it ends. (A packet of which a dropped read has taken only a part
  is not among those read: its bytes are lost, as theory \<open>Codec\<close> shows.) The registry cache is the result of the registry packets among those of
  the backend. The run ends with an error of a read, after the backend's disconnect packet, or with the shutdown, which
  the client is told by one more packet; otherwise the phase is over exactly when each side has sent its own packet
  that ends the configuration, and no event is taken after that.\<close>

theorem configuration_is_bridged:
  assumes "zlib_ok (le_z env)" and "takes s" and "wfate b = []"
    and "bridge_loop env v thr evs \<lparr>br_client = s, br_backend = b, br_cache = cache_new, br_client_finished = False,
           br_backend_finished = False\<rparr> = (st, rest, br')"
    and "bridge_trace env v thr evs \<lparr>br_client = s, br_backend = b, br_cache = cache_new, br_client_finished = False,
           br_backend_finished = False\<rparr> = (fb, fc)"
  shows "(\<exists>shut. wrote (le_cfb8 env) s (br_client br')
           (wires env thr fb @ (if shut then wire (le_z env) thr (shutdown_packet env v) else []))
         \<and> (shut \<longrightarrow> st = Done (Inr ()))
         \<and> (st = Done (Inr ()) \<and> \<not> shut \<longrightarrow> fb \<noteq> [] \<and> rp_id (last fb) = disconnect_id v))
    \<and> outb (br_backend br') = outb b @ wires env thr fc
    \<and> br_cache br' = fold (cache_step v) (unprotected fb) cache_new
    \<and> (br_backend_finished br' \<longleftrightarrow> finished_by v fb) \<and> (br_client_finished br' \<longleftrightarrow> finished_by v fc)
    \<and> st \<noteq> Stuck
    \<and> (st = Running \<longrightarrow> rest = [] \<or> br_client_finished br' \<and> br_backend_finished br')"
proof -
  let ?br = "\<lparr>br_client = s, br_backend = b, br_cache = cache_new, br_client_finished = False, br_backend_finished = False\<rparr>"
  have "br_takes ?br" using assms(2,3) by (simp add: br_takes_def)
  note stops = bridge_loop_passed [OF assms(1) this assms(4,5)]
  from conjunct1 [OF this, unfolded bridged_def bridge.simps]
  obtain shut where "wrote (le_cfb8 env) s (br_client br')
       (wires env thr fb @ (if shut then wire (le_z env) thr (shutdown_packet env v) else []))"
    and rest: "outb (br_backend br') = outb b @ wires env thr fc"
     "br_cache br' = fold (cache_step v) (unprotected fb) cache_new"
     "br_backend_finished br' \<longleftrightarrow> False \<or> finished_by v fb" "br_client_finished br' \<longleftrightarrow> False \<or> finished_by v fc"
    and shut: "shut \<longrightarrow> st = Done (Inr ())" "st = Done (Inr ()) \<and> \<not> shut \<longrightarrow> fb \<noteq> [] \<and> rp_id (last fb) = disconnect_id v"
    and "st \<noteq> Stuck"
    by blast
  with stops show ?thesis by (intro conjI exI [of _ shut]) (assumption | simp)+
qed

definition demo_bridge :: "u8 bridge" where
  "demo_bridge = \<lparr>br_client = Plain (quiet_conn []), br_backend = quiet_conn (frame (RawPacket 0x03 [])), br_cache = cache_new,
     br_client_finished = False, br_backend_finished = False\<rparr>"

lemma quiet_read:
  assumes "varint_size i = 1"
  shows "read_packet_with_compression z DEFAULT_MAX_PACKET_SIZE None (quiet_conn (frame (RawPacket i []))) =
    (Some (Inr (RawPacket i [])), quiet_conn [])"
  using read_packet_default [of "RawPacket i []" "quiet_conn (frame (RawPacket i []))" "[]" z] assms
  by (simp add: quiet_conn_def wire_length_def DEFAULT_MAX_PACKET_SIZE_def read_packet_def)

lemmas demo_finish_read = quiet_read [of "0x03", unfolded varint_size_def, simplified]

lemma empty_not_protected: "\<not> is_protected_plugin_channel (RawPacket i [])"
  by (simp add: is_protected_plugin_channel_def decode_varint_def)

lemma demo_bridge_turn:
  "\<exists>br'. bridge_turn demo_listener 767 None (BackendTurn False) demo_bridge = (Running, br') \<and> \<not> br_client_finished br'"
proof -
  have "dropped_read z None False (quiet_conn []) = quiet_conn []" for z
    by (auto simp: dropped_read_def split: prod.splits option.splits)
  then have "dropped_stream_read demo_listener None False (Plain (quiet_conn [])) = Plain (quiet_conn [])"
    by (simp add: dropped_stream_read_def quiet_conn_def)
  then show ?thesis
    by (simp add: empty_not_protected bridge_turn_def demo_bridge_def demo_finish_read bridge_backend_packet_def Let_def write_then_def bindS_def
        on_stream_def write_packet_accepting encode_uncompressed ignoreS_def flush_def returnS_def
        disconnect_id_def)
qed

theorem configuration_is_bridged_witness:
  "\<exists>br'. bridge_loop demo_listener 767 None [BackendTurn False] demo_bridge = (Running, [], br')
    \<and> br_backend_finished br' \<and> \<not> br_client_finished br'
    \<and> wrote demo_cfb8 (Plain (quiet_conn [])) (br_client br') (frame (RawPacket 0x03 []))"
proof -
  obtain br' where t: "bridge_turn demo_listener 767 None (BackendTurn False) demo_bridge = (Running, br')"
    "\<not> br_client_finished br'" using demo_bridge_turn by blast
  have nf: "\<not> br_client_finished demo_bridge" by (simp add: demo_bridge_def)
  from t nf have l: "bridge_loop demo_listener 767 None [BackendTurn False] demo_bridge = (Running, [], br')"
    by (simp add: bridge_loop.simps)
  from t nf have tr: "bridge_trace demo_listener 767 None [BackendTurn False] demo_bridge = ([RawPacket 0x03 []], [])"
    by (simp add: from_backend_def from_client_def demo_bridge_def demo_finish_read)
  have w: "takes (Plain (quiet_conn []))" "wfate (quiet_conn (frame (RawPacket 0x03 []))) = []" by (simp_all add: quiet_conn_def)
  have z: "zlib_ok (le_z demo_listener)" by (simp add: demo_listener_def example_env_def zlib_ok_stored)
  from configuration_is_bridged [OF z w l [unfolded demo_bridge_def] tr [unfolded demo_bridge_def]] l show ?thesis
    by (auto simp: wires_def wire_def encode_uncompressed finished_by_def finish_id_def demo_listener_def empty_not_protected)
qed

end
