(* ===== verification/Listener_Session.thy ===== *)
theory Listener_Session
  imports Listener_Proofs
begin

text \<open>
  How a connection of \<^verbatim>\<open>src/src/network/listener.rs\<close> gets to the routing loop: the phases it must have gone through, and that
  none of them changes whether its stream is encrypted. At the end, the limit of connections of the accept loop.
\<close>

section \<open>How a connection gets to the routing loop\<close>

text \<open>Whether a stream is encrypted never changes behind the authentication.\<close>

definition pres :: "('s \<Rightarrow> 'c) \<Rightarrow> ('s \<Rightarrow> 'a res option \<times> 's) \<Rightarrow> bool" where
  "pres f m \<longleftrightarrow> (\<forall>s. f (snd (m s)) = f s)"

lemma presD: "pres f m \<Longrightarrow> m s = (r, s') \<Longrightarrow> f s' = f s"
  unfolding pres_def by (metis snd_conv)

lemma pres_bindS:
  assumes m: "pres f m" and g: "\<And>x. pres f (g x)"
  shows "pres f (bindS m g)"
  unfolding pres_def
proof
  fix s
  obtain r s1 where ms: "m s = (r, s1)" by (cases "m s")
  have s1: "f s1 = f s" by (rule presD [OF m ms])
  have "f (snd (g x s1)) = f s1" for x using g unfolding pres_def by blast
  with ms s1 show "f (snd (bindS m g s)) = f s" by (auto simp: bindS_def split: option.splits sum.splits)
qed

lemma pres_recoverS:
  assumes m: "pres f m" and h: "\<And>e. pres f (h e)"
  shows "pres f (recoverS m h)"
  unfolding pres_def
proof
  fix s
  obtain r s1 where ms: "m s = (r, s1)" by (cases "m s")
  have s1: "f s1 = f s" by (rule presD [OF m ms])
  have "f (snd (h e s1)) = f s1" for e using h unfolding pres_def by blast
  with ms s1 show "f (snd (recoverS m h s)) = f s" by (auto simp: recoverS_def split: option.splits sum.splits)
qed

lemma pres_simple: "pres f (returnS x)" "pres f (failS e)" "pres f (liftS r)"
  by (simp_all add: pres_def returnS_def failS_def liftS_def)

lemma pres_wrap: "pres f m \<Longrightarrow> pres f (ignoreS m)" "pres f m \<Longrightarrow> pres f (timeoutS e m)"
  unfolding pres_def ignoreS_def timeoutS_def by (simp_all split: prod.splits option.splits) (metis snd_conv)+

lemma pres_if: "(b \<Longrightarrow> pres f m) \<Longrightarrow> (\<not> b \<Longrightarrow> pres f m') \<Longrightarrow> pres f (if b then m else m')"
  by simp

lemma pres_pair: "(\<And>x y. pres f (g x y)) \<Longrightarrow> pres f (case p of (x, y) \<Rightarrow> g x y)"
  by (cases p) simp

lemma is_encrypted_push [simp]: "is_encrypted (push cf s v) = is_encrypted s"
  by (cases s) (simp_all add: Let_def)

lemma is_encrypted_input [simp]:
  "is_encrypted (receive bs s) = is_encrypted s" "is_encrypted (close_input fin s) = is_encrypted s"
  by (cases s; simp)+

lemma is_encrypted_dropped [simp]: "is_encrypted (dropped_stream_read env thr polled s) = is_encrypted s"
  by (simp add: dropped_stream_read_def)

lemma pres_on_stream: "pres is_encrypted (on_stream cf m)"
  by (simp add: pres_def on_stream_def split: prod.splits)

lemma pres_onC: "pres is_encrypted m \<Longrightarrow> pres (\<lambda>sb. is_encrypted (fst sb)) (onC m)"
  unfolding pres_def onC_def by (simp split: prod.splits) (metis snd_conv)

lemma pres_onB: "pres (\<lambda>sb. is_encrypted (fst sb)) (onB m)"
  by (simp add: pres_def onB_def split: prod.splits)

lemmas pres_intros = pres_bindS pres_recoverS pres_simple pres_wrap pres_if pres_pair pres_on_stream pres_onC pres_onB

lemma pres_say: "pres is_encrypted (say env thr p)" "pres is_encrypted (goodbye env thr p e)"
  unfolding goodbye_def say_def by (intro pres_intros)+

lemma pres_check_answer: "pres is_encrypted (check_answer env thr pkt)"
  unfolding check_answer_def Let_def by (intro pres_if pres_say pres_simple)

lemma pres_send_login_success: "pres is_encrypted (send_login_success env profile v thr pkt)"
  unfolding send_login_success_def by (intro pres_bindS pres_simple pres_on_stream)

lemma pres_backend_answer: "pres (\<lambda>sb. is_encrypted (fst sb)) (backend_answer env)"
  unfolding backend_answer_def Let_def
  by (intro pres_bindS pres_recoverS pres_if pres_pair pres_onC pres_onB pres_wrap pres_say pres_on_stream pres_simple)

lemma pres_finish_login: "pres (\<lambda>sb. is_encrypted (fst sb)) (finish_login env profile v)"
  unfolding finish_login_def
  by (intro pres_bindS pres_pair pres_onC pres_backend_answer pres_check_answer pres_send_login_success pres_simple)

lemma pres_await_acknowledged: "pres (\<lambda>sb. is_encrypted (fst sb)) (await_acknowledged env v thr shut)"
  unfolding await_acknowledged_def by (intro pres_intros pres_say)

lemma write_then_enc:
  assumes "write_then st (on_stream cf m) (on_stream cf m') s = (st', s')"
  shows "is_encrypted s' = is_encrypted s"
proof -
  have "pres is_encrypted (bindS (on_stream cf m) (\<lambda>_. ignoreS (on_stream cf m')))" by (intro pres_intros)
  with assms show ?thesis
    unfolding write_then_def by (auto split: prod.splits option.splits sum.splits dest: presD)
qed

lemma bridge_packet_enc:
  "bridge_backend_packet env v thr pkt br = (st, br') \<Longrightarrow> is_encrypted (br_client br') = is_encrypted (br_client br)"
  "bridge_client_packet env v thr pkt br = (st, br') \<Longrightarrow> br_client br' = br_client br"
  by (auto simp: bridge_backend_packet_def bridge_client_packet_def Let_def split: if_splits prod.splits dest: write_then_enc)

lemma bridge_turn_enc:
  assumes "bridge_turn env v thr ev br = (st, br')"
  shows "is_encrypted (br_client br') = is_encrypted (br_client br)"
proof (cases ev)
  case (ClientTurn polled)
  obtain x s where rd: "stream_read env thr (br_client br) = (x, s)" by (cases "stream_read env thr (br_client br)")
  with presD [OF pres_on_stream rd] assms ClientTurn show ?thesis
    by (auto simp: bridge_turn_def Let_def split: option.splits sum.splits dest!: bridge_packet_enc(2))
next
  case (ShutdownTurn cp bp)
  let ?s = "dropped_stream_read env thr cp (br_client br)"
  obtain x s where sy: "say env thr (shutdown_packet env v) ?s = (x, s)" by (cases "say env thr (shutdown_packet env v) ?s")
  with presD [OF pres_say(1) sy] assms ShutdownTurn show ?thesis
    by (auto simp: bridge_turn_def Let_def split: option.splits)
qed (use assms in \<open>auto simp: bridge_turn_def Let_def split: prod.splits option.splits sum.splits dest!: bridge_packet_enc\<close>)

lemma bridge_loop_enc:
  "bridge_loop env v thr evs br = (st, rest, br') \<Longrightarrow> is_encrypted (br_client br') = is_encrypted (br_client br)"
proof (induction evs arbitrary: br)
  case Nil
  then show ?case by (simp add: bridge_loop.simps split: if_splits)
next
  case (Cons ev evs)
  obtain st1 br1 where t: "bridge_turn env v thr ev br = (st1, br1)" by (cases "bridge_turn env v thr ev br")
  from Cons.prems t consider "br' = br" | "br' = br1" | "bridge_loop env v thr evs br1 = (st, rest, br')"
    by (subst (asm) bridge_loop.simps) (auto split: if_splits loop_state.splits)
  then show ?case using bridge_turn_enc [OF t] Cons.IH [of br1] by cases auto
qed

lemma admit_ok:
  fixes env :: "('k, 'st) listener_env"
  assumes "admit env config profile v d s = (Some (Inr (target, cfg)), s')"
  shows "s' = s \<and> jr_allow d \<and> target = join_target config d \<and> map_of (pc_servers config) target = Some cfg"
proof -
  have never: "fst (goodbye env thr p e s1) \<noteq> Some (Inr (x :: str \<times> backend_config))" for thr p e s1 x
    by (auto simp: goodbye_def bindS_def failS_def split: prod.splits option.splits sum.splits)
  then have "fst (bindS m (\<lambda>_. goodbye env thr p e) s1) \<noteq> Some (Inr (x :: str \<times> backend_config))" for m :: "('st, unit) sio" and thr p e s1 x
    by (auto simp: bindS_def split: prod.splits option.splits sum.splits)
  with never assms show ?thesis
    by (auto simp: admit_def Let_def returnS_def split: if_splits option.splits) (metis fst_conv)+
qed

text \<open>The only way into the routing loop.\<close>

lemma enter_play_InPlay:
  assumes "enter_play env config host en evs shut sb = InPlay st s pm"
  shows "\<exists>b cache rest. run (play_env_of env) rest (play_machine_of env config host en s b cache) = (st, pm)
    \<and> is_encrypted s = is_encrypted (fst sb)"
proof (cases "764 \<le> sint (en_version en)")
  case False
  with assms show ?thesis by (auto simp: enter_play_def start_play_def split: prod.splits)
next
  case True
  let ?br = "\<lambda>s b. \<lparr>br_client = s, br_backend = b, br_cache = cache_new, br_client_finished = False, br_backend_finished = False\<rparr>"
  let ?v = "en_version en" and ?thr = "en_threshold en"
  from True assms obtain s1 b1 where aw: "await_acknowledged env ?v ?thr shut sb = (Some (Inr True), s1, b1)"
    by (auto simp: enter_play_def split: prod.splits option.splits sum.splits bool.splits)
  obtain st1 rest br where bl: "bridge_loop env ?v ?thr evs (?br s1 b1) = (st1, rest, br)"
    by (cases "bridge_loop env ?v ?thr evs (?br s1 b1)") auto
  from True assms aw bl have "run (play_env_of env) rest (play_machine_of env config host en (br_client br) (br_backend br) (br_cache br)) = (st, pm)"
    "s = br_client br"
    by (auto simp: enter_play_def start_play_def split: prod.splits loop_state.splits if_splits)
  with bridge_loop_enc [OF bl] presD [OF pres_await_acknowledged aw] show ?thesis by auto
qed

lemma connect_player_InPlay:
  assumes "connect_player env config host ip v profile target cfg evs shut s0 = InPlay st s pm"
  shows "\<exists>thr b cache rest. run (play_env_of env) rest (play_machine_of env config host
      \<lparr>en_client_ip = ip, en_version = v, en_profile = profile, en_target = target, en_threshold = thr\<rparr> s b cache) = (st, pm)
    \<and> is_encrypted s = is_encrypted s0"
proof -
  from assms obtain b thr sb where f: "finish_login env profile v (s0, b) = (Some (Inr thr), sb)"
    and e: "enter_play env config host
      \<lparr>en_client_ip = ip, en_version = v, en_profile = profile, en_target = target, en_threshold = thr\<rparr> evs shut sb = InPlay st s pm"
    by (auto simp: connect_player_def split: option.splits sum.splits prod.splits)
  from enter_play_InPlay [OF e] presD [OF pres_finish_login f] show ?thesis by auto
qed

lemma read_handshake_same:
  assumes "read_handshake env c = (r, c')"
  shows "outb c' = outb c \<and> wfate c' = wfate c"
proof -
  obtain x c1 where rd: "read_packet (le_z env) DEFAULT_MAX_PACKET_SIZE c = (x, c1)"
    by (cases "read_packet (le_z env) DEFAULT_MAX_PACKET_SIZE c")
  from read_packet_keeps [OF rd] assms rd show ?thesis
    by (auto simp: read_handshake_def bindS_def timeoutS_def liftS_def split: option.splits sum.splits)
qed

definition goes_on :: "('st, 'ast) progress \<Rightarrow> bool" where
  "goes_on p \<longleftrightarrow> (case p of Ended _ _ _ \<Rightarrow> False | _ \<Rightarrow> True)"

lemma goes_on_simps [simp]: "\<not> goes_on (Ended r s b)" "goes_on (InConfiguration en br)" "goes_on (InPlay st s pm)"
  by (simp_all add: goes_on_def)

lemma process_connection_goes_on:
  assumes "process_connection env config m host ip evs shut c = (p, host')" and "goes_on p"
  obtains handshake c1 profile s1 d target cfg where
    "read_handshake env c = (Some (Inr handshake), c1)" "hs_next_state handshake = Login"
    "handle_login_auth env ip (hs_protocol_version handshake) config m (Plain c1) = (Some (Inr profile), s1)"
    "eval_join (join_event_of env profile ip (hs_protocol_version handshake)) host = (d, host')"
    "admit env config profile (hs_protocol_version handshake) d s1 = (Some (Inr (target, cfg)), s1)"
    "connect_player env config host' ip (hs_protocol_version handshake) profile target cfg evs shut s1 = p"
proof -
  from assms obtain handshake c1 where h: "read_handshake env c = (Some (Inr handshake), c1)" "hs_next_state handshake = Login"
    "serve_login env config m host ip (hs_protocol_version handshake) evs shut (Plain c1) = (p, host')"
    by (auto simp: process_connection_def split: prod.splits option.splits sum.splits ConnectionState.splits)
  with assms(2) obtain profile s1 where
    p: "handle_login_auth env ip (hs_protocol_version handshake) config m (Plain c1) = (Some (Inr profile), s1)"
    by (auto simp: serve_login_def split: prod.splits option.splits sum.splits)
  obtain d host1 where d: "eval_join (join_event_of env profile ip (hs_protocol_version handshake)) host = (d, host1)"
    by (cases "eval_join (join_event_of env profile ip (hs_protocol_version handshake)) host")
  from h(3) p d assms(2) obtain target cfg s2 where
    a: "admit env config profile (hs_protocol_version handshake) d s1 = (Some (Inr (target, cfg)), s2)"
    "connect_player env config host1 ip (hs_protocol_version handshake) profile target cfg evs shut s2 = p" "host1 = host'"
    by (auto simp: serve_login_def Let_def split: prod.splits option.splits sum.splits)
  with admit_ok [OF a(1)] show ?thesis using that h(1,2) p d by blast
qed

section \<open>The limit of connections\<close>

lemma accept_turn_inv:
  "length (al_handlers st) + al_permits st = n \<Longrightarrow>
   length (al_handlers (accept_turn ev st)) + al_permits (accept_turn ev st) = n"
  by (cases ev) (auto simp: accept_turn_def length_remove1 dest: length_pos_if_in_set)

text \<open>However connections come and go, the number of handlers never exceeds the limit that \<^verbatim>\<open>max_players\<close> sets (1000
  when it is negative); a connection is dropped exactly when the limit is reached, every handler that ends makes room for
  another, and none is accepted after the shutdown signal.\<close>

theorem connection_limit:
  "let st = fold accept_turn evs (start_listener_with_state_on config) in
     length (al_handlers st) \<le> max_connections config
     \<and> accept_turn (Incoming client) st =
        (if ShutdownSignal \<in> set evs then st
         else if length (al_handlers st) = max_connections config then st\<lparr>al_dropped := client # al_dropped st\<rparr>
         else st\<lparr>al_permits := al_permits st - 1, al_handlers := client # al_handlers st\<rparr>)"
proof -
  let ?st = "fold accept_turn evs (start_listener_with_state_on config)"
  have "length (al_handlers st) + al_permits st = n \<Longrightarrow>
      length (al_handlers (fold accept_turn evs st)) + al_permits (fold accept_turn evs st) = n" for st :: "'a accept_state" and n
    by (induction evs arbitrary: st) (simp_all add: accept_turn_inv)
  from this [of "start_listener_with_state_on config"] have "length (al_handlers ?st) + al_permits ?st = max_connections config"
    by (simp add: start_listener_with_state_on_def)
  moreover have "al_listening (fold accept_turn evs st) \<longleftrightarrow> al_listening st \<and> ShutdownSignal \<notin> set evs" for st :: "'a accept_state"
    by (induction evs arbitrary: st) (auto simp: accept_turn_def split: accept_event.splits)
  then have "al_listening ?st \<longleftrightarrow> ShutdownSignal \<notin> set evs" by (simp add: start_listener_with_state_on_def)
  ultimately show ?thesis by (auto simp: Let_def accept_turn_def [of "Incoming client"])
qed

end
