(* ===== verification/Connection_Steps.thy ===== *)
theory Connection_Steps
  imports Listener_Session
begin

text \<open>
  \<^verbatim>\<open>process_connection\<close> one event at a time. \<^verbatim>\<open>Listener\<close> gives the result of a connection for a whole list of events; a server
  that runs many connections takes one event of one of them at a time. \<open>advance\<close> is that step. The last lemma of this theory
  says that the two views agree: feeding the events one by one to \<open>advance\<close> gives what \<^verbatim>\<open>process_connection\<close> gives for the list.
\<close>

section \<open>One event\<close>

definition hand_over ::
  "('k, 'st) listener_env \<Rightarrow> proxy_config \<Rightarrow> 'ast script_host \<Rightarrow> player_entry \<Rightarrow> 'st bridge \<Rightarrow> ('st, 'ast) progress" where
  "hand_over env config host en br =
     (if br_client_finished br \<and> br_backend_finished br
      then InPlay Running (br_client br) (play_machine_of env config host en (br_client br) (br_backend br) (br_cache br))
      else InConfiguration en br)"

definition advance ::
  "('k, 'st) listener_env \<Rightarrow> proxy_config \<Rightarrow> 'ast script_host \<Rightarrow> loop_event \<Rightarrow> ('st, 'ast) progress \<Rightarrow> ('st, 'ast) progress" where
  "advance env config host ev p =
     (case p of
        Ended r s b \<Rightarrow> Ended r s b
      | InConfiguration en br \<Rightarrow>
          (case bridge_turn env (en_version en) (en_threshold en) ev br of
             (Running, br') \<Rightarrow> hand_over env config host en br'
           | (Done r, br') \<Rightarrow> Ended (Some r) (br_client br') (Some (br_backend br'))
           | (Stuck, br') \<Rightarrow> Ended None (br_client br') (Some (br_backend br')))
      | InPlay st s pm \<Rightarrow>
          (case st of
             Running \<Rightarrow> (case run_turn (play_env_of env) ev pm of (st', pm') \<Rightarrow> InPlay st' s pm')
           | _ \<Rightarrow> InPlay st s pm))"

lemma advance_Ended [simp]: "advance env config host ev (Ended r s b) = Ended r s b"
  by (simp add: advance_def)

lemma advance_left [simp]: "st \<noteq> Running \<Longrightarrow> advance env config host ev (InPlay st s pm) = InPlay st s pm"
  by (cases st) (simp_all add: advance_def)

lemma fold_advance_over [simp]:
  "fold (advance env config host) evs (Ended r s b) = Ended r s b"
  "st \<noteq> Running \<Longrightarrow> fold (advance env config host) evs (InPlay st s pm) = InPlay st s pm"
  by (induction evs) simp_all

section \<open>Event by event\<close>

lemma start_play_steps: "start_play env pm s evs = fold (advance env config host) evs (InPlay Running s pm)"
proof (induction evs arbitrary: pm)
  case Nil
  show ?case by (simp add: start_play_def)
next
  case (Cons ev evs)
  obtain st pm' where t: "run_turn (play_env_of env) ev pm = (st, pm')" by (cases "run_turn (play_env_of env) ev pm")
  then have a: "advance env config host ev (InPlay Running s pm) = InPlay st s pm'" by (simp add: advance_def)
  show ?case
  proof (cases st)
    case Running
    with t have "start_play env pm s (ev # evs) = start_play env pm' s evs" by (simp add: start_play_def)
    with a Running Cons.IH [of pm'] show ?thesis by simp
  qed (use t a in \<open>simp_all add: start_play_def\<close>)
qed

lemma bridge_steps:
  "(case bridge_loop env (en_version en) (en_threshold en) evs br of
      (Running, rest, br) \<Rightarrow>
        if br_client_finished br \<and> br_backend_finished br
        then start_play env (play_machine_of env config host en (br_client br) (br_backend br) (br_cache br)) (br_client br) rest
        else InConfiguration en br
    | (Done r, _, br) \<Rightarrow> Ended (Some r) (br_client br) (Some (br_backend br))
    | (Stuck, _, br) \<Rightarrow> Ended None (br_client br) (Some (br_backend br)))
   = fold (advance env config host) evs (hand_over env config host en br)"
  (is "?hand (bridge_loop _ _ _ evs br) = _")
proof (induction evs arbitrary: br)
  case Nil
  show ?case
    by (subst bridge_loop.simps) (auto simp: hand_over_def start_play_def)
next
  case (Cons ev evs)
  show ?case
  proof (cases "br_client_finished br \<and> br_backend_finished br")
    case True
    then show ?thesis
      by (subst bridge_loop.simps) (simp add: hand_over_def start_play_steps [where config = config and host = host])
  next
    case False
    obtain st br' where t: "bridge_turn env (en_version en) (en_threshold en) ev br = (st, br')"
      by (cases "bridge_turn env (en_version en) (en_threshold en) ev br")
    from False have h: "hand_over env config host en br = InConfiguration en br" by (auto simp: hand_over_def)
    note a = advance_def [of env config host ev "InConfiguration en br"]
    show ?thesis
    proof (cases st)
      case Running
      from False t Running have "bridge_loop env (en_version en) (en_threshold en) (ev # evs) br
          = bridge_loop env (en_version en) (en_threshold en) evs br'"
        by (subst bridge_loop.simps) auto
      with t h Running Cons.IH [of br'] show ?thesis by (simp add: a)
    next
      case (Done r)
      from False t Done have "bridge_loop env (en_version en) (en_threshold en) (ev # evs) br = (Done r, evs, br')"
        by (subst bridge_loop.simps) auto
      with t h Done show ?thesis by (simp add: a)
    next
      case Stuck
      from False t Stuck have "bridge_loop env (en_version en) (en_threshold en) (ev # evs) br = (Stuck, evs, br')"
        by (subst bridge_loop.simps) auto
      with t h Stuck show ?thesis by (simp add: a)
    qed
  qed
qed

lemma enter_play_steps:
  "enter_play env config host en evs shut sb = fold (advance env config host) evs (enter_play env config host en [] shut sb)"
  unfolding enter_play_def bridge_steps [where config = config and host = host]
  by (auto simp: start_play_steps [where config = config and host = host] split: prod.split option.split sum.split bool.split)

lemma connect_player_steps:
  "connect_player env config host ip v profile target cfg evs shut s =
     fold (advance env config host) evs (connect_player env config host ip v profile target cfg [] shut s)"
  unfolding connect_player_def enter_play_steps [where evs = evs]
  by (auto split: prod.split option.split sum.split)

lemma serve_login_steps:
  "serve_login env config m host ip v evs shut s =
     (case serve_login env config m host ip v [] shut s of (p, host') \<Rightarrow> (fold (advance env config host') evs p, host'))"
  unfolding serve_login_def Let_def connect_player_steps [where evs = evs]
  by (auto split: prod.split option.split sum.split)

text \<open>A connection can be run event by event: whatever happens in whatever order, taking up the connection and then
  handling the events one at a time, each on the result of the one before, gives the same outcome, the same bytes
  written and the same state as running the connection on all the events at once, and the scripts are asked about the
  join exactly once, at the start.\<close>

lemma connection_runs_event_by_event:
  "process_connection env config m host ip evs shut c =
     (case process_connection env config m host ip [] shut c of
        (p, host') \<Rightarrow> (fold (advance env config host') evs p, host'))"
  unfolding process_connection_def serve_login_steps [where evs = evs]
  by (auto split: prod.split option.split sum.split ConnectionState.split)

end
