(* ===== verification/Script_Sharing.thy ===== *)
theory Script_Sharing
  imports Connection_Steps
begin

text \<open>
  The script host is shared by all connections (\<^verbatim>\<open>Arc<ScriptHost>\<close>). This theory shows how a connection uses it: whatever a
  turn of the routing loop does, also when it fails or never returns, the host changes only by evaluations of hooks
  (\<open>host_step\<close>), and these change nothing but the plugin storage (\<open>confined\<close>).
\<close>

section \<open>Changes of the host\<close>

inductive host_step :: "'ast script_host \<Rightarrow> 'ast script_host \<Rightarrow> bool" where
  joined: "host_step h (snd (eval_join je h))"
| commanded: "host_step h (snd (eval_command ce h))"
| completed: "host_step h (snd (eval_tab_complete te h))"

text \<open>Same engine, scripts and servers; the storage stays well formed.\<close>

definition confined :: "'ast script_host \<Rightarrow> 'ast script_host \<Rightarrow> bool" where
  "confined h h' \<longleftrightarrow> (\<exists>w. h' = h\<lparr>sh_world := w\<rparr>) \<and> same_servers (sh_world h) (sh_world h')"

lemma confined_refl [simp]: "confined h h"
  by (auto simp: confined_def intro: exI [of _ "sh_world h"])

lemma confined_trans: "confined h h' \<Longrightarrow> confined h' h'' \<Longrightarrow> confined h h''"
  by (auto simp: confined_def intro: same_servers_trans)

lemma confined_engine: "confined h h' \<Longrightarrow> sh_engine h' = sh_engine h"
  by (auto simp: confined_def)

lemma host_step_confined: "host_step h h' \<Longrightarrow> sandboxed (sh_engine h) \<Longrightarrow> confined h h'"
  by (induction rule: host_step.induct)
     (auto simp: confined_def eval_host join_loop_same_servers command_loop_same_servers tab_loop_same_servers)

lemma host_steps_confined:
  assumes "host_step\<^sup>*\<^sup>* h h'" and "sandboxed (sh_engine h)"
  shows "confined h h'"
  using assms(1)
proof (induction rule: rtranclp_induct)
  case (step h1 h2)
  from step.IH have "sandboxed (sh_engine h1)" using assms(2) by (simp add: confined_engine)
  with step.hyps(2) have "confined h1 h2" by (rule host_step_confined)
  with step.IH show ?case by (rule confined_trans)
qed simp

section \<open>Handlers\<close>

definition asks :: "('ast, 'a) play \<Rightarrow> bool" where
  "asks m \<longleftrightarrow> (\<forall>pm. host_step\<^sup>*\<^sup>* (pm_script_host pm) (pm_script_host (snd (m pm))))"

lemma asksD: "asks m \<Longrightarrow> m pm = (r, pm') \<Longrightarrow> host_step\<^sup>*\<^sup>* (pm_script_host pm) (pm_script_host pm')"
  unfolding asks_def by (metis snd_conv)

lemma asks_at: "asks m \<Longrightarrow> pm_script_host pm' = pm_script_host pm \<Longrightarrow> host_step\<^sup>*\<^sup>* (pm_script_host pm) (pm_script_host (snd (m pm')))"
  unfolding asks_def by metis

lemma asks_client_only: "client_only m \<Longrightarrow> asks m"
  unfolding asks_def
proof
  fix pm
  assume "client_only m"
  then obtain c where "snd (m pm) = pm\<lparr>pm_client := c\<rparr>" unfolding client_only_def by blast
  then show "host_step\<^sup>*\<^sup>* (pm_script_host pm) (pm_script_host (snd (m pm)))" by simp
qed

lemma asks_bindS:
  assumes m: "asks m" and f: "\<And>x. asks (f x)"
  shows "asks (bindS m f)"
  unfolding asks_def
proof
  fix pm
  obtain r pm1 where e: "m pm = (r, pm1)" by (cases "m pm")
  have h: "host_step\<^sup>*\<^sup>* (pm_script_host pm) (pm_script_host pm1)" by (rule asksD [OF m e])
  have "host_step\<^sup>*\<^sup>* (pm_script_host pm1) (pm_script_host (snd (f x pm1)))" for x using f unfolding asks_def by blast
  with e h show "host_step\<^sup>*\<^sup>* (pm_script_host pm) (pm_script_host (snd (bindS m f pm)))"
    by (auto simp: bindS_def split: option.splits sum.splits intro: rtranclp_trans)
qed

lemma asks_ignoreS: "asks m \<Longrightarrow> asks (ignoreS m)"
  unfolding asks_def ignoreS_def by (simp split: prod.splits option.splits) (metis snd_conv)

lemma asks_cases:
  "asks m \<Longrightarrow> asks m' \<Longrightarrow> asks (if b then m else m')"
  "asks m \<Longrightarrow> (\<And>x. asks (g x)) \<Longrightarrow> asks (case y of None \<Rightarrow> m | Some x \<Rightarrow> g x)"
  by (simp_all split: option.split)

lemmas asks_intros = asks_bindS asks_ignoreS asks_cases
  client_only_returnS [THEN asks_client_only] client_only_failS [THEN asks_client_only]
  client_only_send [THEN asks_client_only] client_only_chat [THEN asks_client_only]
  client_only_write_client [THEN asks_client_only] client_only_try_write_each [THEN asks_client_only]
  client_only_on_client [THEN asks_client_only]

lemma asks_send_backend: "asks (send_backend env pkt)"
  by (auto simp: asks_def send_backend_def returnS_def split: option.split prod.split)

lemma asks_teardown: "asks (teardown_transferred_state env)"
proof -
  have "asks (teardown_container env)" "asks (teardown_audio env)" "asks (teardown_objectives env)"
    "asks (teardown_display_slots env)" "asks (teardown_boss_bars env)"
    unfolding asks_def teardown_container_def teardown_audio_def teardown_objectives_def teardown_display_slots_def
      teardown_boss_bars_def
    by (auto split: option.split intro!: asks_at asks_intros)
  then show ?thesis unfolding teardown_transferred_state_def by (intro asks_intros)
qed

lemma asks_attach_backend: "asks (attach_backend env target nb thr)"
proof -
  have "asks (\<lambda>pm. returnS True (pm\<lparr>pm_backend := Some nb, pm_backend_threshold := thr,
      pm_compression_threshold := pm_client_threshold pm, pm_session := (pm_session pm)\<lparr>ps_current_server := target\<rparr>,
      pm_server_transferred := True\<rparr>))"
    by (simp add: asks_def returnS_def)
  then have "asks (bindS (ignoreS (teardown_transferred_state env)) (\<lambda>_ pm. returnS True (pm\<lparr>pm_backend := Some nb,
      pm_backend_threshold := thr, pm_compression_threshold := pm_client_threshold pm,
      pm_session := (pm_session pm)\<lparr>ps_current_server := target\<rparr>, pm_server_transferred := True\<rparr>)))"
    by (intro asks_bindS asks_ignoreS asks_teardown)
  then show ?thesis
    unfolding asks_def [of "attach_backend env target nb thr"] attach_backend_def
    by (intro allI asks_at) (auto split: option.split)
qed

lemma asks_complete_transfer: "asks (complete_transfer env target nb thr)"
  unfolding asks_def
proof
  fix pm
  have c: "pm_script_host (set_registry_cache cache pm) = pm_script_host pm" for cache by (simp add: set_registry_cache_def)
  show "host_step\<^sup>*\<^sup>* (pm_script_host pm) (pm_script_host (snd (complete_transfer env target nb thr pm)))"
    unfolding complete_transfer_def
    by (auto split: prod.split option.split sum.split simp: c intro!: asks_at asks_intros asks_attach_backend)
qed

lemma asks_switch_server: "asks (switch_server env target)"
  unfolding asks_def switch_server_def Let_def
  by (auto split: option.split sum.split prod.split intro!: asks_at asks_intros asks_complete_transfer)

lemma asks_run_command: "asks (run_command env cmd)"
  unfolding asks_def
proof
  fix pm :: "'ast play_machine"
  let ?e = "\<lparr>ce_player_name = pr_name (ps_profile (pm_session pm)), ce_command = normalized_command cmd, ce_current_server = pm_server pm\<rparr>"
  obtain res host where e: "eval_command ?e (pm_script_host pm) = (res, host)" by (cases "eval_command ?e (pm_script_host pm)")
  then have h: "host_step (pm_script_host pm) host" using commanded [of "pm_script_host pm" ?e] by simp
  have "asks (bindS (if cr_send_message res \<noteq> [] then chat env (cr_send_message res) else returnS ()) (\<lambda>_.
      if cr_reroute_server res \<noteq> [] then bindS (switch_server env (cr_reroute_server res)) (\<lambda>_. returnS True)
      else returnS (cr_cancel res)) :: ('ast, bool) play)"
    by (intro asks_intros asks_switch_server)
  from asks_at [OF this, of "pm\<lparr>pm_script_host := host\<rparr>" "pm\<lparr>pm_script_host := host\<rparr>"] e h
  show "host_step\<^sup>*\<^sup>* (pm_script_host pm) (pm_script_host (snd (run_command env cmd pm)))"
    by (simp add: run_command_def converse_rtranclp_into_rtranclp)
qed

lemma asks_answer_tab_complete: "asks (answer_tab_complete env req)"
  unfolding asks_def
proof
  fix pm :: "'ast play_machine"
  let ?e = "\<lparr>te_player_name = pr_name (ps_profile (pm_session pm)), te_command = tcq_text req, te_current_server = pm_server pm\<rparr>"
  obtain ss host where e: "eval_tab_complete ?e (pm_script_host pm) = (ss, host)" by (cases "eval_tab_complete ?e (pm_script_host pm)")
  then have h: "host_step (pm_script_host pm) host" using completed [of "pm_script_host pm" ?e] by simp
  obtain start len where r: "completion_range (tcq_text req) = (start, len)" by (cases "completion_range (tcq_text req)")
  have "asks (if ss' = [] then returnS False else bindS (send_client env p) (\<lambda>_. returnS True) :: ('ast, bool) play)"
    for ss' :: "str list" and p by (intro asks_intros)
  note asks_at [OF this, of "pm\<lparr>pm_script_host := host\<rparr>" "pm\<lparr>pm_script_host := host\<rparr>"]
  then show "host_step\<^sup>*\<^sup>* (pm_script_host pm) (pm_script_host (snd (answer_tab_complete env req pm)))"
    using e h r by (simp add: answer_tab_complete_def Let_def converse_rtranclp_into_rtranclp)
qed

lemma asks_handle_client_packet: "asks (handle_client_packet env packet)"
  unfolding asks_def
proof
  fix pm :: "'ast play_machine"
  let ?m = "bindS (case intercepted_command (pm_version pm) packet of Some cmd \<Rightarrow> run_command env cmd | None \<Rightarrow> returnS False)
      (\<lambda>handled. if handled then returnS True
        else bindS (case intercepted_completion (pm_version pm) packet of
            Some req \<Rightarrow> answer_tab_complete env req | None \<Rightarrow> returnS False)
          (\<lambda>handled. if handled then returnS True else bindS (send_backend env packet) (\<lambda>_. returnS True))) :: ('ast, bool) play"
  have "asks ?m" by (intro asks_intros asks_run_command asks_answer_tab_complete asks_send_backend)
  then show "host_step\<^sup>*\<^sup>* (pm_script_host pm) (pm_script_host (snd (handle_client_packet env packet pm)))"
    by (simp add: handle_client_packet_def returnS_def asks_at)
qed

lemma fall_back_asks:
  "host_step\<^sup>*\<^sup>* (pm_script_host pm) (pm_script_host (snd (bindS (try_chat env msg) (\<lambda>_. switch_server env target) pm)))"
  by (rule asks_at) (intro asks_intros asks_switch_server, rule refl)

lemma asks_handle_backend_packet: "asks (handle_backend_packet env packet :: ('ast, bool) play)"
proof -
  have d: "asks (handle_disconnect env :: ('ast, bool) play)"
    unfolding asks_def handle_disconnect_def by (simp add: fall_back_asks failS_def)
  have l: "asks (handle_login_play env packet :: ('ast, bool) play)"
    unfolding asks_def handle_login_play_def by (auto intro!: asks_at asks_intros)
  have s: "host_step\<^sup>*\<^sup>* (pm_script_host pm) (pm_script_host (snd (bindS (send_client env p) (\<lambda>_. returnS True) (track packet pm))))"
    for p and pm :: "'ast play_machine"
    by (rule asks_at) (intro asks_intros, simp)
  show ?thesis
    unfolding asks_def handle_backend_packet_def Let_def
    by (simp add: s asks_at [OF d] asks_at [OF l]) (simp add: returnS_def)
qed

lemma asks_handle_backend_eof: "asks (handle_backend_eof env)"
  unfolding asks_def handle_backend_eof_def by (simp add: fall_back_asks returnS_def)

section \<open>Turns\<close>

text \<open>The host behind a turn of the routing loop.\<close>

lemma leave_loop_host [simp]: "pm_script_host (snd (leave_loop pm)) = pm_script_host pm"
  by (simp add: leave_loop_def Let_def split: option.split)

lemma after_handler_host [simp]: "pm_script_host (snd (after_handler r)) = pm_script_host (snd r)"
  by (simp add: after_handler_def split: prod.split option.split sum.split)

lemma run_turn_asks: "host_step\<^sup>*\<^sup>* (pm_script_host pm) (pm_script_host (snd (run_turn env ev pm)))"
proof (cases "pm_backend pm")
  case None
  then show ?thesis by (simp add: run_turn_def)
next
  case (Some b)
  have "host_step\<^sup>*\<^sup>* (pm_script_host pm) (pm_script_host (snd (client_turn env polled b pm)))" for polled
    by (auto simp: client_turn_def Let_def split: prod.split option.split sum.split intro!: asks_at asks_handle_client_packet)
  moreover have "host_step\<^sup>*\<^sup>* (pm_script_host pm) (pm_script_host (snd (backend_turn env polled b pm)))" for polled
    by (auto simp: backend_turn_def Let_def split: prod.split option.split sum.split
        intro!: asks_at asks_handle_backend_packet asks_handle_backend_eof)
  moreover have "host_step\<^sup>*\<^sup>* (pm_script_host pm) (pm_script_host (snd (shutdown_turn env cp bp b pm)))" for cp bp
    by (auto simp: shutdown_turn_def Let_def intro!: asks_at asks_intros)
  ultimately show ?thesis using Some by (cases ev) (simp_all add: run_turn_def)
qed

end
