(* ===== verification/Server.thy ===== *)
theory Server
  imports Script_Sharing
begin

text \<open>
  The whole server: the accept loop, one task per accepted connection (\<^verbatim>\<open>tokio::spawn\<close> of \<^verbatim>\<open>handle_client\<close> in
  \<^verbatim>\<open>src/src/network/listener.rs\<close>), the script host they share and the shutdown signal. A step is a turn of the accept loop or one
  turn of one task; the tasks interleave in every possible way. What other tasks do to the script host between two turns
  of a task is part of the state the next turn finds.

  A turn is atomic: logging in is one turn, and hooks of different tasks run one after the other. Everything random or
  outside the program (\<open>envs\<close>) may be different for every task.
\<close>

section \<open>State and steps\<close>

text \<open>A task is accepted, with the client's address and its connection, or on its way; address and connection are kept for reference.\<close>

datatype ('st, 'ast) task = Accepted str conn | Serving str conn "('st, 'ast) progress"

record ('st, 'ast) server =
  sv_accept :: "nat accept_state"
  sv_tasks :: "nat \<Rightarrow> ('st, 'ast) task option"
  sv_host :: "'ast script_host"
  sv_signal :: bool

definition server_start :: "proxy_config \<Rightarrow> 'ast script_host \<Rightarrow> ('st, 'ast) server" where
  "server_start config host =
     \<lparr>sv_accept = start_listener_with_state_on config, sv_tasks = (\<lambda>_. None), sv_host = host, sv_signal = False\<rparr>"

text \<open>The start of a task. Its result, once there is one, is only logged.\<close>

definition handle_client ::
  "('k, 'st) listener_env \<Rightarrow> proxy_config \<Rightarrow> 'k rsa_key_manager \<Rightarrow> 'ast script_host \<Rightarrow> str \<Rightarrow> bool \<Rightarrow> conn
     \<Rightarrow> ('st, 'ast) task \<times> 'ast script_host" where
  "handle_client env config rsa_manager host client_ip shut c =
     (case process_connection env config rsa_manager host client_ip [] shut c of (p, host') \<Rightarrow> (Serving client_ip c p, host'))"

text \<open>The routing loop reaches the shared host through its \<^verbatim>\<open>Arc\<close>.\<close>

definition with_host :: "'ast script_host \<Rightarrow> ('st, 'ast) progress \<Rightarrow> ('st, 'ast) progress" where
  "with_host host p = (case p of InPlay st s pm \<Rightarrow> InPlay st s (pm\<lparr>pm_script_host := host\<rparr>) | _ \<Rightarrow> p)"

definition host_after :: "'ast script_host \<Rightarrow> ('st, 'ast) progress \<Rightarrow> 'ast script_host" where
  "host_after host p = (case p of InPlay st s pm \<Rightarrow> pm_script_host pm | _ \<Rightarrow> host)"

definition returned :: "('st, 'ast) progress \<Rightarrow> bool" where
  "returned p \<longleftrightarrow> (case p of Ended r s b \<Rightarrow> r \<noteq> None | InConfiguration en br \<Rightarrow> False | InPlay st s pm \<Rightarrow> \<exists>r. st = Done r)"

definition is_shutdown :: "loop_event \<Rightarrow> bool" where
  "is_shutdown ev \<longleftrightarrow> (case ev of ShutdownTurn cp bp \<Rightarrow> True | _ \<Rightarrow> False)"

inductive server_step ::
  "(nat \<Rightarrow> ('k, 'st) listener_env) \<Rightarrow> proxy_config \<Rightarrow> 'k rsa_key_manager \<Rightarrow> ('st, 'ast) server \<Rightarrow> ('st, 'ast) server \<Rightarrow> bool"
  for envs config m where
  accepts: "al_listening (sv_accept sv) \<Longrightarrow> al_permits (sv_accept sv) \<noteq> 0 \<Longrightarrow> sv_tasks sv n = None \<Longrightarrow>
    server_step envs config m sv
      (sv\<lparr>sv_accept := accept_turn (Incoming n) (sv_accept sv), sv_tasks := (sv_tasks sv)(n \<mapsto> Accepted ip c)\<rparr>)"
| refuses: "al_listening (sv_accept sv) \<Longrightarrow> al_permits (sv_accept sv) = 0 \<Longrightarrow>
    server_step envs config m sv (sv\<lparr>sv_accept := accept_turn (Incoming n) (sv_accept sv)\<rparr>)"
| fails: "server_step envs config m sv (sv\<lparr>sv_accept := accept_turn (AcceptFailed e) (sv_accept sv)\<rparr>)"
| begins: "sv_tasks sv n = Some (Accepted ip c) \<Longrightarrow> (shut \<Longrightarrow> sv_signal sv) \<Longrightarrow>
    handle_client (envs n) config m (sv_host sv) ip shut c = (t, host') \<Longrightarrow>
    server_step envs config m sv (sv\<lparr>sv_tasks := (sv_tasks sv)(n \<mapsto> t), sv_host := host'\<rparr>)"
| goes_on: "sv_tasks sv n = Some (Serving ip c p) \<Longrightarrow> (is_shutdown ev \<Longrightarrow> sv_signal sv) \<Longrightarrow>
    p' = advance (envs n) config (sv_host sv) ev (with_host (sv_host sv) p) \<Longrightarrow>
    server_step envs config m sv (sv\<lparr>sv_tasks := (sv_tasks sv)(n \<mapsto> Serving ip c p'), sv_host := host_after (sv_host sv) p'\<rparr>)"
| returns: "sv_tasks sv n = Some (Serving ip c p) \<Longrightarrow> returned p \<Longrightarrow>
    server_step envs config m sv
      (sv\<lparr>sv_accept := accept_turn (HandlerDone n) (sv_accept sv), sv_tasks := (sv_tasks sv)(n := None)\<rparr>)"
| signalled: "server_step envs config m sv (sv\<lparr>sv_signal := True\<rparr>)"
| stops: "sv_signal sv \<Longrightarrow> server_step envs config m sv (sv\<lparr>sv_accept := accept_turn ShutdownSignal (sv_accept sv)\<rparr>)"

section \<open>A task on its way\<close>

text \<open>The player of an entry opened with a login handshake, was authenticated under it, and was let in by the scripts of the
  server, in some state of their storage, who also chose the server.\<close>

definition vetted ::
  "('k, 'st) listener_env \<Rightarrow> proxy_config \<Rightarrow> 'k rsa_key_manager \<Rightarrow> 'ast script_host \<Rightarrow> str \<Rightarrow> conn \<Rightarrow> player_entry \<Rightarrow> bool" where
  "vetted env config m host0 ip c en \<longleftrightarrow> en_client_ip en = ip \<and> en_target en \<in> fst ` set (pc_servers config) \<and>
     (\<exists>handshake c1 s1 host. read_handshake env c = (Some (Inr handshake), c1) \<and> hs_next_state handshake = Login
        \<and> en_version en = hs_protocol_version handshake
        \<and> handle_login_auth env ip (en_version en) config m (Plain c1) = (Some (Inr (en_profile en)), s1)
        \<and> (wfate c = [] \<and> pc_online_mode config \<longrightarrow>
             (\<exists>username. valid_username username
                \<and> authenticated env ip (en_version en) config m username (en_profile en) c1 s1))
        \<and> confined host0 host
        \<and> (let d = fst (eval_join (join_event_of env (en_profile en) ip (en_version en)) host)
           in jr_allow d \<and> en_target en = join_target config d))"

definition in_session ::
  "('k, 'st) listener_env \<Rightarrow> proxy_config \<Rightarrow> 'k rsa_key_manager \<Rightarrow> 'ast script_host \<Rightarrow> str \<Rightarrow> conn \<Rightarrow> 'ast play_machine \<Rightarrow> bool" where
  "in_session env config m host0 ip c pm \<longleftrightarrow> session_inv pm \<and> pm_config pm = config \<and>
     (\<exists>en. vetted env config m host0 ip c en \<and> ps_profile (pm_session pm) = en_profile en
        \<and> ps_client_ip (pm_session pm) = ip \<and> pm_version pm = en_version en \<and> pm_client_threshold pm = en_threshold en)"

definition sound ::
  "('k, 'st) listener_env \<Rightarrow> proxy_config \<Rightarrow> 'k rsa_key_manager \<Rightarrow> 'ast script_host \<Rightarrow> str \<Rightarrow> conn \<Rightarrow> ('st, 'ast) progress \<Rightarrow> bool" where
  "sound env config m host0 ip c p \<longleftrightarrow>
     (case p of
        Ended r s b \<Rightarrow> True
      | InConfiguration en br \<Rightarrow>
          vetted env config m host0 ip c en \<and> (wfate c = [] \<longrightarrow> is_encrypted (br_client br) = pc_online_mode config)
      | InPlay st s pm \<Rightarrow>
          st = Running \<longrightarrow> in_session env config m host0 ip c pm \<and> (wfate c = [] \<longrightarrow> is_encrypted s = pc_online_mode config))"

lemma in_session_start:
  assumes "vetted env config m host0 ip c en"
  shows "in_session env config m host0 ip c (play_machine_of env config host en s b cache)"
proof -
  have "en_client_ip en = ip" "en_target en \<in> fst ` set (pc_servers config)" using assms by (simp_all add: vetted_def)
  with assms show ?thesis
    unfolding in_session_def play_machine_of_def PlayStateMachine_new_def with_thresholds_def
    by (intro conjI exI [of _ en]) (simp_all add: session_inv_def tracked_wf_def)
qed

lemma in_session_host [simp]:
  "in_session env config m host0 ip c (pm\<lparr>pm_script_host := h\<rparr>) = in_session env config m host0 ip c pm"
  by (simp add: in_session_def session_inv_def tracked_wf_def)

lemma in_session_turn:
  assumes "in_session env config m host0 ip c pm" and "run_turn penv ev pm = (Running, pm')"
  shows "in_session env config m host0 ip c pm'"
proof -
  have "fixed_settings pm pm" by (simp add: fixed_settings_def)
  with settings.run_turn_keeps [OF _ assms(2)] have "fixed_settings pm pm'" by simp
  moreover have "session_inv pm'" using assms session.run_turn_keeps [OF _ assms(2)] by (simp add: in_session_def)
  ultimately show ?thesis using assms(1) by (simp add: in_session_def fixed_settings_def)
qed

lemma sound_advance:
  assumes "sound env config m host0 ip c p"
  shows "sound env config m host0 ip c (advance env config host ev (with_host host p))"
proof (cases p)
  case (InConfiguration en br)
  obtain st br' where t: "bridge_turn env (en_version en) (en_threshold en) ev br = (st, br')"
    by (cases "bridge_turn env (en_version en) (en_threshold en) ev br")
  with assms InConfiguration bridge_turn_enc [OF t] show ?thesis
    by (cases st) (simp_all add: sound_def with_host_def advance_def hand_over_def in_session_start)
next
  case (InPlay st s pm)
  obtain st' pm' where t: "run_turn (play_env_of env) ev (pm\<lparr>pm_script_host := host\<rparr>) = (st', pm')"
    by (cases "run_turn (play_env_of env) ev (pm\<lparr>pm_script_host := host\<rparr>)")
  with assms InPlay in_session_turn [of env config m host0 ip c "pm\<lparr>pm_script_host := host\<rparr>" "play_env_of env" ev pm'] show ?thesis
    by (cases st) (auto simp: sound_def with_host_def advance_def)
qed (simp add: sound_def with_host_def)

lemma advance_host:
  assumes "sandboxed (sh_engine host)"
  shows "confined host (host_after host (advance env config host ev (with_host host p)))"
proof (cases p)
  case (InConfiguration en br)
  then show ?thesis
    by (auto simp: host_after_def advance_def with_host_def hand_over_def play_machine_of_def PlayStateMachine_new_def
        with_thresholds_def split: loop_state.split prod.split)
next
  case (InPlay st s pm)
  have "confined host (pm_script_host (snd (run_turn (play_env_of env) ev (pm\<lparr>pm_script_host := host\<rparr>))))"
    using run_turn_asks [of "pm\<lparr>pm_script_host := host\<rparr>" "play_env_of env" ev] assms host_steps_confined by force
  with InPlay show ?thesis
    by (auto simp: host_after_def advance_def with_host_def split: loop_state.split prod.split)
qed (simp add: host_after_def advance_def with_host_def)

section \<open>The start of a task\<close>

lemma enter_play_start:
  assumes "enter_play env config host en [] shut sb = p" and "goes_on p"
  shows "(\<exists>br. p = InConfiguration en br \<and> is_encrypted (br_client br) = is_encrypted (fst sb))
    \<or> (\<exists>s b cache. p = InPlay Running s (play_machine_of env config host en s b cache) \<and> is_encrypted s = is_encrypted (fst sb))"
proof (cases "764 \<le> sint (en_version en)")
  case False
  with assms show ?thesis by (auto simp: enter_play_def start_play_def)
next
  case True
  with assms obtain s b where aw: "await_acknowledged env (en_version en) (en_threshold en) shut sb = (Some (Inr True), s, b)"
    by (auto simp: enter_play_def split: prod.splits option.splits sum.splits bool.splits)
  with True assms presD [OF pres_await_acknowledged aw] show ?thesis
    by (auto simp: enter_play_def bridge_loop.simps)
qed

lemma eval_join_confined:
  assumes "eval_join je h = (d, h')" and "sandboxed (sh_engine h)"
  shows "confined h h'"
  using host_step_confined [OF joined [of h je] assms(2)] assms(1) by simp

lemma process_connection_host:
  assumes "process_connection env config m host ip evs shut c = (p, host')" and "sandboxed (sh_engine host)"
  shows "confined host host'"
proof -
  have "host' = host \<or> (\<exists>je d. eval_join je host = (d, host'))"
    using assms(1) by (auto simp: process_connection_def serve_login_def Let_def
        split: prod.splits option.splits sum.splits ConnectionState.splits)
  then show ?thesis using eval_join_confined [OF _ assms(2)] by auto
qed

lemma sound_start:
  assumes "process_connection env config m host ip [] shut c = (p, host')" and "confined host0 host"
  shows "sound env config m host0 ip c p"
proof (cases "goes_on p")
  case False
  then show ?thesis by (cases p) (simp_all add: sound_def)
next
  case True
  with assms(1) obtain handshake c1 profile s1 d target cfg where
    hs: "read_handshake env c = (Some (Inr handshake), c1)" "hs_next_state handshake = Login"
    and auth: "handle_login_auth env ip (hs_protocol_version handshake) config m (Plain c1) = (Some (Inr profile), s1)"
    and join: "eval_join (join_event_of env profile ip (hs_protocol_version handshake)) host = (d, host')"
    and adm: "admit env config profile (hs_protocol_version handshake) d s1 = (Some (Inr (target, cfg)), s1)"
    and con: "connect_player env config host' ip (hs_protocol_version handshake) profile target cfg [] shut s1 = p"
    by (rule process_connection_goes_on)
  from True con obtain b thr sb where f: "finish_login env profile (hs_protocol_version handshake) (s1, b) = (Some (Inr thr), sb)"
    and e: "enter_play env config host' \<lparr>en_client_ip = ip, en_version = hs_protocol_version handshake, en_profile = profile,
        en_target = target, en_threshold = thr\<rparr> [] shut sb = p"
    by (auto simp: connect_player_def split: option.splits sum.splits prod.splits)
  let ?en = "\<lparr>en_client_ip = ip, en_version = hs_protocol_version handshake, en_profile = profile, en_target = target,
      en_threshold = thr\<rparr>"
  have w: "wfate c1 = wfate c" using read_handshake_same [OF hs(1)] by simp
  note ok = admit_ok [OF adm]
  from ok have "target \<in> fst ` set (pc_servers config)" using map_of_SomeD [of "pc_servers config" target cfg] by force
  with hs auth join ok assms(2) w login_auth_encrypts [OF _ auth] have v: "vetted env config m host0 ip c ?en"
    unfolding vetted_def Let_def by (intro conjI exI [of _ handshake] exI [of _ c1] exI [of _ s1] exI [of _ host]) simp_all
  have "is_encrypted (fst sb) = is_encrypted s1" using presD [OF pres_finish_login f] by simp
  with enter_play_start [OF e True] in_session_start [OF v] v w login_auth_encrypts [OF _ auth] show ?thesis
    by (auto simp: sound_def)
qed

section \<open>The invariant of the server\<close>

definition server_inv ::
  "(nat \<Rightarrow> ('k, 'st) listener_env) \<Rightarrow> proxy_config \<Rightarrow> 'k rsa_key_manager \<Rightarrow> 'ast script_host \<Rightarrow> ('st, 'ast) server \<Rightarrow> bool" where
  "server_inv envs config m host0 sv \<longleftrightarrow>
     length (al_handlers (sv_accept sv)) + al_permits (sv_accept sv) = max_connections config
     \<and> distinct (al_handlers (sv_accept sv)) \<and> set (al_handlers (sv_accept sv)) = dom (sv_tasks sv)
     \<and> (al_listening (sv_accept sv) \<or> sv_signal sv) \<and> confined host0 (sv_host sv)
     \<and> (\<forall>n ip c p. sv_tasks sv n = Some (Serving ip c p) \<longrightarrow> sound (envs n) config m host0 ip c p)"

lemma server_inv_start: "server_inv envs config m host (server_start config host)"
  by (simp add: server_inv_def server_start_def start_listener_with_state_on_def)

text \<open>A step of one task: the other tasks and the accept loop are as before.\<close>

lemma server_inv_task:
  assumes "server_inv envs config m host0 sv" and "sv_tasks sv n = Some t" and "confined (sv_host sv) host'"
    and "\<And>ip c p. t' = Serving ip c p \<Longrightarrow> sound (envs n) config m host0 ip c p"
  shows "server_inv envs config m host0 (sv\<lparr>sv_tasks := (sv_tasks sv)(n \<mapsto> t'), sv_host := host'\<rparr>)"
  using assms by (auto simp: server_inv_def intro: confined_trans)

lemma server_inv_step:
  assumes "server_step envs config m sv sv'" and "server_inv envs config m host0 sv" and "sandboxed (sh_engine host0)"
  shows "server_inv envs config m host0 sv'"
  using assms
proof (induction rule: server_step.induct)
  case (accepts sv n ip c)
  then have "n \<notin> set (al_handlers (sv_accept sv))" by (auto simp: server_inv_def)
  with accepts show ?case by (auto simp: server_inv_def accept_turn_def)
next
  case (begins sv n ip c shut t host')
  have h: "confined host0 (sv_host sv)" using begins.prems(1) by (simp add: server_inv_def)
  with begins.prems(2) have "sandboxed (sh_engine (sv_host sv))" by (simp add: confined_engine)
  with begins h show ?case
    by (intro server_inv_task) (auto simp: handle_client_def split: prod.splits intro: process_connection_host sound_start)
next
  case (goes_on sv n ip c p ev p')
  have "confined host0 (sv_host sv)" "sound (envs n) config m host0 ip c p"
    using goes_on.prems(1) goes_on.hyps(1) by (simp_all add: server_inv_def)
  with goes_on show ?case
    by (intro server_inv_task) (auto simp: confined_engine intro: advance_host sound_advance)
next
  case (returns sv n ip c p)
  then have n: "n \<in> set (al_handlers (sv_accept sv))" by (auto simp: server_inv_def)
  have "length (al_handlers (accept_turn (HandlerDone n) (sv_accept sv)))
      + al_permits (accept_turn (HandlerDone n) (sv_accept sv)) = max_connections config"
    using returns.prems(1) by (intro accept_turn_inv) (simp add: server_inv_def)
  with returns n show ?case by (auto simp: server_inv_def accept_turn_def)
qed (auto simp: server_inv_def accept_turn_def)

lemma server_inv_reachable:
  assumes "(server_step envs config m)\<^sup>*\<^sup>* (server_start config host0) sv" and "sandboxed (sh_engine host0)"
  shows "server_inv envs config m host0 sv"
  using assms(1) by (induction rule: rtranclp_induct) (simp_all add: server_inv_start server_inv_step assms(2))

section \<open>Shutdown\<close>

lemma try_send_client_accepted:
  assumes "wfate (pm_client pm) = []"
  shows "try_send_client env pkt pm =
    (Some (Inr ()), pm\<lparr>pm_client := (pm_client pm)\<lparr>outb := outb (pm_client pm) @ wire (pe_z env) (pm_client_threshold pm) pkt\<rparr>\<rparr>)"
  using assms
  by (auto simp: try_send_client_def bindS_def ignoreS_def write_client_def on_client_def write_packet_accepting wire_def
      flush_def returnS_def split: sum.split)

lemma shutdown_turn_sends:
  assumes "pm_backend pm = Some b" and "wfate (pm_client pm) = []"
  shows "\<exists>pm'. run_turn env (ShutdownTurn cp bp) pm = (Done (Inr ()), pm') \<and> pm_client_closed pm' \<and> pm_backend pm' = None
    \<and> outb (pm_client pm') = outb (pm_client pm) @ wire (pe_z env) (pm_client_threshold pm)
        (disconnect_encode_for_client (pe_json env) \<lparr>dc_reason = section_sign @ str ''cServer is shutting down''\<rparr> (pm_version pm) True)"
proof -
  let ?pkt = "disconnect_encode_for_client (pe_json env) \<lparr>dc_reason = section_sign @ str ''cServer is shutting down''\<rparr> (pm_version pm) True"
  let ?pm = "pm\<lparr>pm_client := dropped_read (pe_z env) (pm_client_threshold pm) cp (pm_client pm),
      pm_backend := Some (dropped_read (pe_z env) (pm_backend_threshold pm) bp b)\<rparr>"
  have "wfate (pm_client ?pm) = []" using assms(2) by (simp add: dropped_read_same)
  note w = try_send_client_accepted [OF this, of env ?pkt]
  show ?thesis
    by (simp add: run_turn_def assms(1) shutdown_turn_def Let_def bindS_def w returnS_def after_handler_def leave_loop_def
        dropped_read_same)
qed

text \<open>What a client in the play state is told at shutdown: one disconnect packet with the reason, before version 764 that of
  the play state with the reason as JSON, at 764 and 765 that of the configuration state with the reason as JSON, and from 766
  on that of the configuration state with the reason as NBT.\<close>

definition shutdown_notice :: "(str \<Rightarrow> str) \<Rightarrow> i32 \<Rightarrow> raw_packet" where
  "shutdown_notice json v =
     (let reason = section_sign @ str ''cServer is shutting down'' in
      if sint v < 764 then RawPacket 0x1B (put_prefixed (json reason))
      else if sint v < 766 then RawPacket 0x01 (put_prefixed (json reason))
      else RawPacket 0x02 (nbt_text reason))"

lemma shutdown_notice_sent:
  "disconnect_encode_for_client json \<lparr>dc_reason = section_sign @ str ''cServer is shutting down''\<rparr> v True = shutdown_notice json v"
  by (simp add: disconnect_encode_for_client_def disconnect_encode_config_def disconnect_encode_play_def shutdown_notice_def Let_def)

lemma shutdown_notice_state: "is_play_disconnect (shutdown_notice json v) \<longleftrightarrow> sint v < 764"
  by (simp add: shutdown_notice_def is_play_disconnect_def Let_def)

end
