(* ===== verification/Play_Transparency.thy ===== *)
theory Play_Transparency
  imports Listener_Proofs
begin

text \<open>
  The routing loop as a pipe. Between two server transfers the loop of \<^verbatim>\<open>PlayStateMachine::run\<close> passes on what it reads: to the
  backend the packets of the client, to the client those of the backend, with the few changes the proxy makes on
  purpose. This is stated for whole runs: for every order in which bytes arrive and the branches of \<^verbatim>\<open>select!\<close> complete.
\<close>

section \<open>What is read and what is delivered\<close>

text \<open>The packets a turn reads.\<close>

definition backend_reads :: "play_env \<Rightarrow> loop_event \<Rightarrow> 'ast play_machine \<Rightarrow> raw_packet res list" where
  "backend_reads env ev pm =
     (case (ev, pm_backend pm) of
        (BackendTurn _, Some b) \<Rightarrow>
          (case fst (read_packet_with_compression (pe_z env) DEFAULT_MAX_PACKET_SIZE (pm_backend_threshold pm) b) of
             Some r \<Rightarrow> [r] | None \<Rightarrow> [])
      | _ \<Rightarrow> [])"

definition client_reads :: "play_env \<Rightarrow> loop_event \<Rightarrow> 'ast play_machine \<Rightarrow> raw_packet res list" where
  "client_reads env ev pm =
     (case (ev, pm_backend pm) of
        (ClientTurn _, Some b) \<Rightarrow>
          (case fst (read_packet_with_compression (pe_z env) DEFAULT_MAX_PACKET_SIZE (pm_client_threshold pm) (pm_client pm)) of
             Some r \<Rightarrow> [r] | None \<Rightarrow> [])
      | _ \<Rightarrow> [])"

fun reads :: "play_env \<Rightarrow> loop_event list \<Rightarrow> 'ast play_machine \<Rightarrow> raw_packet res list \<times> raw_packet res list" where
  "reads env [] pm = ([], [])"
| "reads env (ev # evs) pm =
     (case reads env evs (snd (run_turn env ev pm)) of
        (fb, fc) \<Rightarrow> (backend_reads env ev pm @ fb, client_reads env ev pm @ fc))"

text \<open>Packets that make the proxy act on its own: the end of the backend's connection, its disconnect packet, and commands and
  completion requests of the player.\<close>

definition calm :: "i32 \<Rightarrow> raw_packet res list \<Rightarrow> raw_packet res list \<Rightarrow> bool" where
  "calm v fb fc \<longleftrightarrow>
     list_all (\<lambda>r. case r of Inl _ \<Rightarrow> False | Inr p \<Rightarrow> is_protected_plugin_channel p \<or> \<not> is_play_disconnect p) fb
     \<and> list_all (\<lambda>r. case r of Inl _ \<Rightarrow> True | Inr p \<Rightarrow> is_protected_plugin_channel p
          \<or> intercepted_command v p = None \<and> intercepted_completion v p = None) fc"

text \<open>What the proxy makes of the packets of the backend: none on protected channels, its own commands in the command graph,
  and, after a transfer, a respawn for the next join game packet.\<close>

fun delivered :: "(raw_packet \<Rightarrow> raw_packet) \<Rightarrow> i32 \<Rightarrow> bool \<Rightarrow> raw_packet list \<Rightarrow> raw_packet list" where
  "delivered inject v transferred [] = []"
| "delivered inject v transferred (p # ps) =
     (if is_protected_plugin_channel p then delivered inject v transferred ps
      else if is_login_play_packet (rp_id p) v
      then (if transferred then transfer_respawn v p else p) # delivered inject v False ps
      else if is_declare_commands_packet (rp_id p) v then inject p # delivered inject v transferred ps
      else p # delivered inject v transferred ps)"

fun still_transferred :: "i32 \<Rightarrow> bool \<Rightarrow> raw_packet list \<Rightarrow> bool" where
  "still_transferred v transferred [] = transferred"
| "still_transferred v transferred (p # ps) =
     still_transferred v (transferred \<and> (is_protected_plugin_channel p \<or> \<not> is_login_play_packet (rp_id p) v)) ps"

abbreviation packets :: "raw_packet res list \<Rightarrow> raw_packet list" where
  "packets rs \<equiv> List.map_filter (\<lambda>r. case r of Inr p \<Rightarrow> Some p | Inl _ \<Rightarrow> None) rs"

lemma packets_simps [simp]: "packets [] = []" "packets (Inr p # rs) = p # packets rs" "packets (Inl e # rs) = packets rs"
  "packets (rs @ rs') = packets rs @ packets rs'"
  by (simp_all add: List.map_filter_def)

lemma delivered_append:
  "delivered inject v t (ps @ qs) = delivered inject v t ps @ delivered inject v (still_transferred v t ps) qs"
  by (induction ps arbitrary: t) auto

lemma still_transferred_append:
  "still_transferred v t (ps @ qs) = still_transferred v (still_transferred v t ps) qs"
  by (induction ps arbitrary: t) auto

section \<open>The machine between two transfers\<close>

text \<open>Everything but the two streams and the note of the screen is as before.\<close>

definition pipes :: "play_env \<Rightarrow> raw_packet list \<Rightarrow> raw_packet list \<Rightarrow> 'ast play_machine \<Rightarrow> 'ast play_machine \<Rightarrow> bool" where
  "pipes env fb fc pm pm' \<longleftrightarrow>
     outb (pm_client pm') = outb (pm_client pm) @ concat (map (wire (pe_z env) (pm_client_threshold pm))
       (delivered (with_proxy_commands env pm) (pm_version pm) (pm_server_transferred pm) fb))
     \<and> (\<exists>b b'. pm_backend pm = Some b \<and> pm_backend pm' = Some b'
          \<and> outb b' = outb b @ concat (map (wire (pe_z env) (pm_backend_threshold pm)) (unprotected fc))
          \<and> wfate b' = wfate b)
     \<and> wfate (pm_client pm') = wfate (pm_client pm)
     \<and> pm_server_transferred pm' = still_transferred (pm_version pm) (pm_server_transferred pm) fb
     \<and> pm_client_threshold pm' = pm_client_threshold pm \<and> pm_backend_threshold pm' = pm_backend_threshold pm
     \<and> pm_version pm' = pm_version pm \<and> pm_config pm' = pm_config pm \<and> pm_server pm' = pm_server pm
     \<and> pm_script_host pm' = pm_script_host pm"

lemma with_proxy_commands_cong:
  "pm_version pm' = pm_version pm \<Longrightarrow> pm_config pm' = pm_config pm \<Longrightarrow> with_proxy_commands env pm' = with_proxy_commands env pm"
  by (simp add: with_proxy_commands_def fun_eq_iff)

lemma pipes_trans:
  assumes "pipes env fb fc pm pm1" "pipes env fb' fc' pm1 pm2"
  shows "pipes env (fb @ fb') (fc @ fc') pm pm2"
  using assms with_proxy_commands_cong [of pm1 pm env]
  by (auto simp: pipes_def delivered_append still_transferred_append)

lemma send_client_runs:
  assumes "wfate (pm_client pm) = []" and "bindS (send_client env p) (\<lambda>_. returnS True) pm = (Some (Inr r), pm')"
  shows "r \<and> pm' = pm\<lparr>pm_client := (pm_client pm)\<lparr>outb := outb (pm_client pm) @ wire (pe_z env) (pm_client_threshold pm) p\<rparr>\<rparr>"
  using assms
  by (auto simp: send_client_def bindS_def ignoreS_def write_client_def on_client_def write_packet_accepting wire_def flush_def
      returnS_def split: sum.splits)

lemma send_backend_runs:
  assumes "pm_backend pm = Some b" "wfate b = []" and "bindS (send_backend env p) (\<lambda>_. returnS True) pm = (Some (Inr r), pm')"
  shows "r \<and> pm' = pm\<lparr>pm_backend := Some (b\<lparr>outb := outb b @ wire (pe_z env) (pm_backend_threshold pm) p\<rparr>)\<rparr>"
  using assms
  by (auto simp: send_backend_def bindS_def ignoreS_def write_packet_accepting wire_def flush_def returnS_def split: sum.splits)

lemma backend_packet_pipes:
  assumes "pm_backend pm = Some b" "wfate (pm_client pm) = []" "\<not> is_protected_plugin_channel p" "\<not> is_play_disconnect p"
    and "handle_backend_packet env p pm = (Some (Inr r), pm')"
  shows "pipes env [p] [] pm pm'"
proof -
  let ?pm = "track p pm" and ?sent = "\<lambda>q pm. pm\<lparr>pm_client := (pm_client pm)\<lparr>outb := outb (pm_client pm) @ wire (pe_z env) (pm_client_threshold pm) q\<rparr>\<rparr>"
  have w: "wfate (pm_client ?pm) = []" "wfate (pm_client (?pm\<lparr>pm_server_transferred := False\<rparr>)) = []" using assms(2) by simp_all
  have i: "with_proxy_commands env ?pm = with_proxy_commands env pm" by (rule with_proxy_commands_cong) simp_all
  consider (login) "is_login_play_packet (rp_id p) (pm_version pm)" "pm' = (if pm_server_transferred pm
        then ?sent (transfer_respawn (pm_version pm) p) (?pm\<lparr>pm_server_transferred := False\<rparr>) else ?sent p ?pm)"
    | (declare_commands) "\<not> is_login_play_packet (rp_id p) (pm_version pm)" "is_declare_commands_packet (rp_id p) (pm_version pm)"
        "pm' = ?sent (with_proxy_commands env pm p) ?pm"
    | (other) "\<not> is_login_play_packet (rp_id p) (pm_version pm)" "\<not> is_declare_commands_packet (rp_id p) (pm_version pm)" "pm' = ?sent p ?pm"
    using assms(3-5) send_client_runs [OF w(1), of env _ r pm'] send_client_runs [OF w(2), of env _ r pm']
    by (auto simp: handle_backend_packet_def handle_login_play_def Let_def i split: if_splits)
  then show ?thesis using assms(1-3) by cases (auto simp: pipes_def)
qed

lemma client_packet_pipes:
  assumes "pm_backend pm = Some b" "wfate b = []" "\<not> is_protected_plugin_channel p" "intercepted_command (pm_version pm) p = None"
    "intercepted_completion (pm_version pm) p = None" and "handle_client_packet env p pm = (Some (Inr r), pm')"
  shows "pipes env [] [p] pm pm'"
proof -
  let ?pm = "if is_serverbound_close_container_packet (rp_id p) (pm_version pm) then pm\<lparr>pm_open_container_id := None\<rparr> else pm"
  have "bindS (send_backend env p) (\<lambda>_. returnS True) ?pm = (Some (Inr r), pm')"
    using assms(3-6) by (simp add: handle_client_packet_def bindS_def returnS_def)
  from send_backend_runs [OF _ assms(2) this] assms(1,3) show ?thesis by (auto simp: pipes_def split: if_splits)
qed

text \<open>Reading, arriving bytes and closing ends write nothing.\<close>

lemma pipes_input:
  assumes "pm_backend pm = Some b" "outb c = outb (pm_client pm)" "wfate c = wfate (pm_client pm)" "outb b' = outb b" "wfate b' = wfate b"
  shows "pipes env [] [] pm (pm\<lparr>pm_client := c, pm_backend := Some b'\<rparr>)"
    "pipes env [] [] pm (pm\<lparr>pm_backend := Some b', pm_client := c\<rparr>)"
    "pipes env [] [] pm (pm\<lparr>pm_client := c\<rparr>)" "pipes env [] [] pm (pm\<lparr>pm_backend := Some b'\<rparr>)" "pipes env [] [] pm pm"
  using assms by (simp_all add: pipes_def)

lemma after_handler_running: "after_handler x = (Running, pm') \<Longrightarrow> x = (Some (Inr True), pm')"
  by (auto simp: after_handler_def leave_loop_def Let_def split: prod.splits option.splits sum.splits if_splits)

lemma leave_loop_not_running: "leave_loop pm \<noteq> (Running, pm')"
  by (simp add: leave_loop_def Let_def)

lemma pipes_protected:
  "is_protected_plugin_channel p \<Longrightarrow> pipes env fb fc pm pm' \<Longrightarrow> pipes env (p # fb) fc pm pm' \<and> pipes env fb (p # fc) pm pm'"
  by (simp add: pipes_def)

lemma backend_turn_pipes:
  assumes b: "pm_backend pm = Some b" and w: "wfate (pm_client pm) = []" and t: "backend_turn env polled b pm = (Running, pm')"
    and calm: "calm (pm_version pm) (backend_reads env (BackendTurn polled) pm) []"
  shows "pipes env (packets (backend_reads env (BackendTurn polled) pm)) [] pm pm'"
proof -
  obtain x b1 where rd: "read_packet_with_compression (pe_z env) DEFAULT_MAX_PACKET_SIZE (pm_backend_threshold pm) b = (x, b1)"
    by (cases "read_packet_with_compression (pe_z env) DEFAULT_MAX_PACKET_SIZE (pm_backend_threshold pm) b")
  let ?c = "dropped_read (pe_z env) (pm_client_threshold pm) polled (pm_client pm)"
  let ?pm = "pm\<lparr>pm_backend := Some b1, pm_client := ?c\<rparr>"
  have p0: "pipes env [] [] pm ?pm" "pipes env [] [] pm pm"
    using b read_packet_same [OF rd] by (intro pipes_input; simp add: dropped_read_same)+
  show ?thesis
  proof (cases x)
    case None
    with rd t b p0 show ?thesis by (simp add: backend_turn_def backend_reads_def)
  next
    case (Some r)
    with rd b calm obtain p where p: "r = Inr p" "is_protected_plugin_channel p \<or> \<not> is_play_disconnect p"
      by (cases r) (auto simp: calm_def backend_reads_def)
    show ?thesis
    proof (cases "is_protected_plugin_channel p")
      case True
      with rd t b p p0 Some pipes_protected [OF True p0(1)] show ?thesis by (simp add: backend_turn_def backend_reads_def Let_def)
    next
      case False
      with rd t p Some have "after_handler (handle_backend_packet env p ?pm) = (Running, pm')" by (simp add: backend_turn_def Let_def)
      from backend_packet_pipes [OF _ _ False _ after_handler_running [OF this]] False p w
      have "pipes env [p] [] ?pm pm'" by (simp add: dropped_read_same)
      from pipes_trans [OF p0(1) this] rd b p Some show ?thesis by (simp add: backend_reads_def)
    qed
  qed
qed

lemma client_turn_pipes:
  assumes b: "pm_backend pm = Some b" and w: "wfate b = []" and t: "client_turn env polled b pm = (Running, pm')"
    and calm: "calm (pm_version pm) [] (client_reads env (ClientTurn polled) pm)"
  shows "pipes env [] (packets (client_reads env (ClientTurn polled) pm)) pm pm'"
proof -
  obtain x c where rd: "read_packet_with_compression (pe_z env) DEFAULT_MAX_PACKET_SIZE (pm_client_threshold pm) (pm_client pm) = (x, c)"
    by (cases "read_packet_with_compression (pe_z env) DEFAULT_MAX_PACKET_SIZE (pm_client_threshold pm) (pm_client pm)")
  let ?b = "dropped_read (pe_z env) (pm_backend_threshold pm) polled b"
  let ?pm = "pm\<lparr>pm_client := c, pm_backend := Some ?b\<rparr>"
  have p0: "pipes env [] [] pm ?pm" "pipes env [] [] pm pm"
    using b read_packet_same [OF rd] by (intro pipes_input; simp add: dropped_read_same)+
  show ?thesis
  proof (cases x)
    case None
    with rd t b p0 show ?thesis by (simp add: client_turn_def client_reads_def)
  next
    case (Some r)
    with rd t obtain p where r: "r = Inr p" and "after_handler (handle_client_packet env p ?pm) = (Running, pm')"
      by (cases r) (auto simp: client_turn_def Let_def leave_loop_not_running)
    then have h: "handle_client_packet env p ?pm = (Some (Inr True), pm')" by (intro after_handler_running)
    show ?thesis
    proof (cases "is_protected_plugin_channel p")
      case True
      with h have "pm' = ?pm" by (simp add: handle_client_packet_def returnS_def)
      with rd b r Some pipes_protected [OF True p0(1)] show ?thesis by (simp add: client_reads_def)
    next
      case False
      with calm rd b r Some have "intercepted_command (pm_version ?pm) p = None" "intercepted_completion (pm_version ?pm) p = None"
        by (simp_all add: calm_def client_reads_def)
      from client_packet_pipes [OF _ _ False this h] w have "pipes env [] [p] ?pm pm'" by (simp add: dropped_read_same)
      from pipes_trans [OF p0(1) this] rd b r Some show ?thesis by (simp add: client_reads_def)
    qed
  qed
qed

lemma run_turn_pipes:
  assumes b: "pm_backend pm = Some b" and w: "wfate b = []" "wfate (pm_client pm) = []" and t: "run_turn env ev pm = (Running, pm')"
    and calm: "calm (pm_version pm) (backend_reads env ev pm) (client_reads env ev pm)"
  shows "pipes env (packets (backend_reads env ev pm)) (packets (client_reads env ev pm)) pm pm'"
proof (cases ev)
  case (BackendTurn polled)
  have "client_reads env ev pm = []" using BackendTurn by (simp add: client_reads_def)
  with backend_turn_pipes [OF b w(2)] BackendTurn t b calm show ?thesis by (simp add: run_turn_def)
next
  case (ClientTurn polled)
  have "backend_reads env ev pm = []" using ClientTurn by (simp add: backend_reads_def)
  with client_turn_pipes [OF b w(1)] ClientTurn t b calm show ?thesis by (simp add: run_turn_def)
next
  case (ShutdownTurn cp bp)
  with t b show ?thesis
    by (auto simp: run_turn_def shutdown_turn_def Let_def bindS_def returnS_def dest!: after_handler_running
        split: prod.splits option.splits sum.splits)
qed (use b t in \<open>auto simp: run_turn_def backend_reads_def client_reads_def intro: pipes_input\<close>)

text \<open>C3. Between two transfers the proxy is a pipe. However bytes arrive and the branches of \<^verbatim>\<open>select!\<close> complete, as long as no
  packet asks the proxy to act on its own, the backend is written exactly the packets read from the client, in order and
  unchanged, less those on protected channels, and the client exactly those read from the backend, in order, less those
  on protected channels and with the proxy's changes: its commands added to the command graph, and after a transfer a
  respawn for the next join game packet. Neither side gets anything else, no script runs, and the server stays the same.\<close>

theorem routing_is_transparent:
  assumes "pm_backend pm = Some b" and "wfate b = []" and "wfate (pm_client pm) = []"
    and "run env evs pm = (Running, pm')" and "reads env evs pm = (fb, fc)" and "calm (pm_version pm) fb fc"
  shows "outb (pm_client pm') = outb (pm_client pm) @ concat (map (wire (pe_z env) (pm_client_threshold pm))
       (delivered (with_proxy_commands env pm) (pm_version pm) (pm_server_transferred pm) (packets fb)))
    \<and> (\<exists>b'. pm_backend pm' = Some b'
         \<and> outb b' = outb b @ concat (map (wire (pe_z env) (pm_backend_threshold pm)) (unprotected (packets fc))))
    \<and> pm_server pm' = pm_server pm \<and> pm_script_host pm' = pm_script_host pm"
proof -
  have "pipes env (packets fb) (packets fc) pm pm'"
    using assms
  proof (induction evs arbitrary: pm b fb fc)
    case Nil
    then show ?case by (simp add: pipes_def)
  next
    case (Cons ev evs)
    obtain st pm1 where t: "run_turn env ev pm = (st, pm1)" by (cases "run_turn env ev pm")
    with Cons.prems(4) have st: "st = Running" and r: "run env evs pm1 = (Running, pm')" by (cases st; simp)+
    obtain fb1 fc1 where rd: "reads env evs pm1 = (fb1, fc1)" by (cases "reads env evs pm1")
    with Cons.prems(5) t have f: "fb = backend_reads env ev pm @ fb1" "fc = client_reads env ev pm @ fc1" by simp_all
    with Cons.prems(6) have "calm (pm_version pm) (backend_reads env ev pm) (client_reads env ev pm)" "calm (pm_version pm) fb1 fc1"
      by (simp_all add: calm_def)
    moreover from run_turn_pipes [OF Cons.prems(1-3) t [unfolded st] this(1)]
    have p1: "pipes env (packets (backend_reads env ev pm)) (packets (client_reads env ev pm)) pm pm1" .
    moreover from p1 Cons.prems(1-3) obtain b1 where "pm_backend pm1 = Some b1" "wfate b1 = []" "wfate (pm_client pm1) = []"
      "pm_version pm1 = pm_version pm" by (auto simp: pipes_def)
    ultimately show ?case using Cons.IH [OF _ _ _ r rd] f pipes_trans [OF p1] by simp
  qed
  with assms(1) show ?thesis by (auto simp: pipes_def)
qed

definition demo_play :: "(str \<times> dynamic) list play_machine" where
  "demo_play = (example_machine 765)\<lparr>pm_backend := Some (quiet_conn (frame (RawPacket 0x3F [])))\<rparr>"

lemma demo_play_simps [simp]:
  "pm_version demo_play = 765" "pm_client demo_play = quiet_conn []" "pm_backend demo_play = Some (quiet_conn (frame (RawPacket 0x3F [])))"
  "pm_client_threshold demo_play = None" "pm_backend_threshold demo_play = None" "pm_server_transferred demo_play = False"
  by (simp_all add: demo_play_def example_machine_def with_thresholds_def quiet_conn_def)

lemmas demo_play_read = quiet_read [of "0x3F", unfolded varint_size_def, simplified]

lemma demo_play_packet:
  "\<not> is_play_disconnect (RawPacket 0x3F [])" "\<not> is_login_play_packet 0x3F 765" "\<not> is_declare_commands_packet 0x3F 765"
  by (simp_all add: is_play_disconnect_def is_login_play_packet_def is_declare_commands_packet_def)

lemma demo_play_run: "\<exists>pm'. run example_play_env [BackendTurn False] demo_play = (Running, pm')"
proof -
  let ?p = "RawPacket 0x3F []"
  have d: "dropped_read z None False (quiet_conn []) = quiet_conn []" for z
    by (auto simp: dropped_read_def split: prod.splits option.splits)
  have w: "\<exists>pm'. bindS (send_client example_play_env ?p) (\<lambda>_. returnS True) pm = (Some (Inr True), pm')"
    if "wfate (pm_client pm) = []" "pm_client_threshold pm = None" for pm :: "(str \<times> dynamic) list play_machine"
    using that by (simp add: send_client_def bindS_def ignoreS_def write_client_def on_client_def write_packet_accepting
        encode_uncompressed flush_def returnS_def)
  let ?pm = "demo_play\<lparr>pm_backend := Some (quiet_conn []), pm_client := quiet_conn []\<rparr>"
  obtain pm' where "handle_backend_packet example_play_env ?p ?pm = (Some (Inr True), pm')"
    using w [of "track ?p ?pm"] demo_play_packet empty_not_protected [of "0x3F"] by (auto simp: handle_backend_packet_def Let_def)
  then show ?thesis
    by (simp add: run_turn_def backend_turn_def demo_play_read d after_handler_def empty_not_protected)
qed

theorem routing_is_transparent_witness:
  "\<exists>pm'. run example_play_env [BackendTurn False] demo_play = (Running, pm')
     \<and> outb (pm_client pm') = wire stored None (RawPacket 0x3F [])"
proof -
  obtain pm' where r: "run example_play_env [BackendTurn False] demo_play = (Running, pm')" using demo_play_run by blast
  have rd: "reads example_play_env [BackendTurn False] demo_play = ([Inr (RawPacket 0x3F [])], [])"
    by (simp add: backend_reads_def client_reads_def demo_play_read)
  have "calm (pm_version demo_play) [Inr (RawPacket 0x3F [])] []" by (simp add: calm_def demo_play_packet)
  from routing_is_transparent [OF demo_play_simps(3) _ _ r rd this] r demo_play_packet empty_not_protected [of "0x3F"] show ?thesis
    by (auto simp: example_play_env_def)
qed

end
