(* ===== verification/Spec2Isabelle.thy ===== *)
theory Spec2Isabelle
  imports Status_Ping Encrypted_Stream Play_Run Startup Stream_Bridge Server Play_Transparency
begin

text \<open>
  A verification development for FrameMC, a reverse proxy for Minecraft servers written in Rust (\<^verbatim>\<open>src/src\<close>).

  \<^bold>\<open>The program.\<close> \<^verbatim>\<open>main\<close> reads its arguments and the settings, loads the scripts and opens the listener. For every client
  the listener spawns one task that runs \<^verbatim>\<open>process_connection\<close>: it reads the handshake; answers a server list ping; or
  takes the client through the login (user name, RSA exchange, session server, encrypted stream), asks the scripts
  whether and where the player may join, opens a session on the backend server and forwards who the player is, passes
  the packets of the configuration phase between the two sides, and hands both streams to the \<^verbatim>\<open>PlayStateMachine\<close>. Its
  loop routes packets between client and backend, gives commands to the scripts, keeps account of what is on the
  player's screen, and moves the player to another backend without the client noticing more than a respawn.

  \<^bold>\<open>Theories and sources.\<close> Names of definitions are those of the source where that is possible; packet fields carry a prefix.
  \<^item> \<^verbatim>\<open>Prelude\<close>: integer types, \<^verbatim>\<open>error.rs\<close>, the \<^verbatim>\<open>?\<close> operator, number formats, shared lemmas and their collections.
  \<^item> \<^verbatim>\<open>Field_Codec\<close>: the contract of a field encoder and decoder as locales; loops over elements.
  \<^item> \<^verbatim>\<open>Varint\<close>, \<^verbatim>\<open>Connection\<close>: \<^verbatim>\<open>protocol/varint.rs\<close>, in memory and on a stream; the model of a stream (\<open>conn\<close>).
  \<^item> \<^verbatim>\<open>Buffers\<close>, \<^verbatim>\<open>Text\<close>, \<^verbatim>\<open>Btree\<close>: what is used of the standard library and of \<^verbatim>\<open>bytes\<close>; the contract of maps.
  \<^item> \<^verbatim>\<open>Packet\<close>, \<^verbatim>\<open>Codec\<close>: \<^verbatim>\<open>protocol/packet.rs\<close>, \<^verbatim>\<open>network/codec.rs\<close>; the contract of packet types.
  \<^item> \<^verbatim>\<open>Handshake\<close>, \<^verbatim>\<open>Login_Packets\<close>, \<^verbatim>\<open>Config_State\<close>, \<^verbatim>\<open>Forwarding\<close>, \<^verbatim>\<open>Status_Ping\<close>: the files of \<^verbatim>\<open>protocol/\<close>.
  \<^item> \<^verbatim>\<open>Auth\<close>, \<^verbatim>\<open>Encrypted_Stream\<close>: \<^verbatim>\<open>crypto/mojang_auth.rs\<close>, \<^verbatim>\<open>crypto/mod.rs\<close>, \<^verbatim>\<open>crypto/aes.rs\<close>.
  \<^item> \<^verbatim>\<open>Settings\<close>, \<^verbatim>\<open>Startup\<close>: \<^verbatim>\<open>config.rs\<close>, \<^verbatim>\<open>main.rs\<close> and the opening of the listener.
  \<^item> \<^verbatim>\<open>Scripting\<close>, \<^verbatim>\<open>Script_Events\<close>: \<^verbatim>\<open>script/engine.rs\<close>, \<^verbatim>\<open>script/events.rs\<close>.
  \<^item> \<^verbatim>\<open>Play_Packets\<close>, \<^verbatim>\<open>Screen_Packets\<close>, \<^verbatim>\<open>Declare_Commands\<close>, \<^verbatim>\<open>Backend_Connector\<close>, \<^verbatim>\<open>Play_Machine\<close>: the parts of
    \<^verbatim>\<open>routing/state_machine.rs\<close>; \<^verbatim>\<open>Play_Proofs\<close>, \<^verbatim>\<open>Play_Tracking\<close>, \<^verbatim>\<open>Play_Transfer\<close>, \<^verbatim>\<open>Play_Run\<close> hold the proofs.
  \<^item> \<^verbatim>\<open>Login_Flow\<close>, \<^verbatim>\<open>Listener\<close>: \<^verbatim>\<open>network/listener.rs\<close>; \<^verbatim>\<open>Listener_Proofs\<close> and \<^verbatim>\<open>Listener_Session\<close> hold the proofs.
  \<^item> \<^verbatim>\<open>Connection_Steps\<close>, \<^verbatim>\<open>Script_Sharing\<close>, \<^verbatim>\<open>Server\<close>: a connection one event at a time, the script host that all
    connections share, and the step relation of the whole server, with the accept loop and a task per connection.
  \<^item> \<^verbatim>\<open>Play_Transparency\<close>: the routing loop as a pipe, over whole runs.
  \<^item> \<^verbatim>\<open>Stream_Bridge\<close>: \<^verbatim>\<open>network/bridge.rs\<close>, which the proxy does not call.

  \<^bold>\<open>How code becomes definitions.\<close> A fallible function returns \<open>proxy_error + 'a\<close>. An operation on streams takes the
  state to an optional result and the new state (\<open>bindS\<close> and its companions in \<^verbatim>\<open>Connection\<close>); the result \<open>None\<close> says
  that it waits for ever, which a surrounding \<^verbatim>\<open>timeout\<close> turns into its error and a losing \<^verbatim>\<open>select!\<close> branch drops, with the
  bytes taken so far. A loop over \<^verbatim>\<open>select!\<close> is a function of the list of events (bytes that arrive, ends of streams,
  which branch is ready, which losing branches had been polled); theorems hold for every list, so for every schedule. A
  client stream is plain or encrypted: operations run on its plaintext view, and the routing loop gets that view.
  Loops over input are total functions with a measure; no fuel is used.

  \<^bold>\<open>Parameters.\<close> Code of other crates and of the operating system is an argument: zlib, JSON, TOML, UUID text, SHA-1, HMAC,
  RSA, AES-CFB8, HTTP, base64, the Rhai interpreter, Unicode lower case, \<^verbatim>\<open>tokio::io::copy\<close>, the file system, TCP connects,
  random values. Where a theorem needs more of one than its type, that is a named hypothesis (\<open>zlib_ok\<close>, \<open>uuid_ops_ok\<close>,
  \<open>copies\<close>), and a witness gives a concrete function that satisfies it.

  \<^bold>\<open>What is shown.\<close>
  \<^item> Across components (below): a player in the routing loop went through handshake, authentication and the decision of the
    scripts, and the session carries exactly this identity; the same holds for every player of the server in every
    interleaving of their tasks, with the limit of connections and the scripts as they were at the start; the shutdown
    signal ends the sessions. A connection run event by event is the connection run on all its events.
  \<^item> Login: in online mode only the full exchange authenticates, and the stream is then encrypted with the confirmed
    secret; the client hears of success only after the backend accepted; the configuration phase passes on every
    packet it reads but those on protected channels; the encrypted stream delivers what was written.
  \<^item> Wire formats: round trips, exact error conditions and bounds of VarInts, packets and packet fields for all protocol
    versions, with the versions where the source's own decoder refuses its encoder.
  \<^item> Forwarding: player data leaves only on request and signed; the payloads parse back.
  \<^item> Play: the loop passes on what it reads, in order; invariant of the loop, all-or-nothing transfer, respawn in place of
    join game, exact tracking and complete cleaning of the screen, every path of a client packet, the outcomes of the
    configuration phase, the nodes of the injected commands.
  \<^item> Scripts: which script decides, confinement of hooks, storage and registry cache as maps. The storage is a hash table: its entries
    are kept in an order that may change between any two calls.
  \<^item> Start and limits: settings survive a restart, the number of connections is bounded.
  \<^item> Some theorems pin down behaviour that is not intended: reads dropped by \<^verbatim>\<open>select!\<close> lose bytes, a silent backend blocks the
    connector (with Velocity forwarding only after its request), the configuration phase of a transfer has no bound of its own, default scripts beside the settings are not loaded, two version ranges where encoder and decoder differ.

  \<^bold>\<open>Interfaces.\<close> \<open>field_codec\<close>, \<open>progress_codec\<close> (fields), \<open>packet_family\<close>, \<open>packet_codec\<close> (packet types), \<open>map_laws\<close>,
  \<open>canonical_map\<close> (maps) and \<open>machine_invariant\<close> (predicates that the single changes of the play machine keep) are locales,
  interpreted on the definitions of every component that provides them.

  \<^bold>\<open>Not modelled.\<close> Log output, the texts of help and version, the pauses before a connection is closed, \<^verbatim>\<open>TCP_NODELAY\<close>,
  wiping of memory beyond the fields that are zeroed, and the non-Unix variants of the signal handler. Tasks interleave by turns:
  the hooks of one player run to their end before those of another start, although threads may run them side by side (they
  share only the plugin storage, which a lock guards access by access), and a login is one turn, because it shares
  nothing but the one evaluation of the join hook. What a peer sends during one call is a finite list of bytes, then an
  end, an error or silence: a peer that never stops is the family of its finite prefixes (theory
  \<^verbatim>\<open>Backend_Connector\<close> says what each prefix leads to). Memory is unbounded: the room that
  \<^verbatim>\<open>try_decode_entries\<close> reserves for the announced number of entries is not modelled. The sums of node indices in the
  injection of commands wrap, as in a release build; a debug build would panic near \<^verbatim>\<open>2^31\<close> nodes.
\<close>

section \<open>From the handshake to the routing loop\<close>

text \<open>C7. A player is in the routing loop only by the way through the whole login. When a connection has reached the loop and the loop
  runs, whatever the peers sent: the client opened with a login handshake and was authenticated under it; in online mode
  that means the full exchange with the session server, and then, and only then, its stream is encrypted; the scripts
  admitted exactly this player; and the session in the loop has this profile, protocol version, address and configuration,
  a backend of a configured server, and a well-formed note of the screen.\<close>

theorem player_in_loop_was_admitted:
  assumes "wfate c = []"
    and "process_connection env config m host ip evs shut c = (InPlay Running s pm, host')"
  shows "\<exists>handshake c1 profile s1. read_handshake env c = (Some (Inr handshake), c1) \<and> hs_next_state handshake = Login
    \<and> handle_login_auth env ip (hs_protocol_version handshake) config m (Plain c1) = (Some (Inr profile), s1)
    \<and> (pc_online_mode config \<longrightarrow> (\<exists>username. valid_username username
         \<and> authenticated env ip (hs_protocol_version handshake) config m username profile c1 s1))
    \<and> is_encrypted s = pc_online_mode config
    \<and> jr_allow (fst (eval_join (join_event_of env profile ip (hs_protocol_version handshake)) host))
    \<and> session_inv pm \<and> pm_config pm = config \<and> ps_profile (pm_session pm) = profile
    \<and> pm_version pm = hs_protocol_version handshake \<and> ps_client_ip (pm_session pm) = ip"
proof -
  from assms(2) obtain handshake c1 profile s1 d target cfg where
    hs: "read_handshake env c = (Some (Inr handshake), c1)" "hs_next_state handshake = Login"
    and auth: "handle_login_auth env ip (hs_protocol_version handshake) config m (Plain c1) = (Some (Inr profile), s1)"
    and join: "eval_join (join_event_of env profile ip (hs_protocol_version handshake)) host = (d, host')"
    and adm: "admit env config profile (hs_protocol_version handshake) d s1 = (Some (Inr (target, cfg)), s1)"
    and con: "connect_player env config host' ip (hs_protocol_version handshake) profile target cfg evs shut s1 = InPlay Running s pm"
    by (rule process_connection_goes_on) simp
  from connect_player_InPlay [OF con] obtain thr b cache rest where
    run: "run (play_env_of env) rest (play_machine_of env config host' \<lparr>en_client_ip = ip,
        en_version = hs_protocol_version handshake, en_profile = profile, en_target = target, en_threshold = thr\<rparr> s b cache)
        = (Running, pm)" and enc: "is_encrypted s = is_encrypted s1" by blast
  let ?pm0 = "play_machine_of env config host' \<lparr>en_client_ip = ip, en_version = hs_protocol_version handshake,
        en_profile = profile, en_target = target, en_threshold = thr\<rparr> s b cache"
  note ok = admit_ok [OF adm]
  have "wfate c1 = []" using read_handshake_same [OF hs(1)] assms(1) by simp
  note enc1 = login_auth_encrypts [OF this auth]
  have "target \<in> fst ` set (pc_servers config)" using ok map_of_SomeD [of "pc_servers config" target cfg] by force
  then have "session_inv ?pm0"
    by (simp add: session_inv_def play_machine_of_def PlayStateMachine_new_def with_thresholds_def tracked_wf_def)
  from session.run_keeps [OF this run] have inv: "session_inv pm" by simp
  have "fixed_settings ?pm0 ?pm0" by (simp add: fixed_settings_def)
  from settings.run_keeps [OF this run] have "fixed_settings ?pm0 pm" by simp
  then have "pm_config pm = config" "ps_profile (pm_session pm) = profile" "pm_version pm = hs_protocol_version handshake"
    "ps_client_ip (pm_session pm) = ip"
    by (simp_all add: fixed_settings_def play_machine_of_def PlayStateMachine_new_def with_thresholds_def)
  with hs auth enc enc1 join ok inv show ?thesis by auto
qed

definition demo_handshake :: raw_packet where
  "demo_handshake = handshake_encode \<lparr>hs_protocol_version = 760, hs_server_address = str ''localhost'', hs_server_port = 25565,
     hs_next_state = Login\<rparr>"

definition demo_connection :: conn where
  "demo_connection = demo_client\<lparr>inb := frame demo_handshake @ inb demo_client\<rparr>"

definition demo_scripts :: "(str \<times> dynamic) list script_host" where
  "demo_scripts = ScriptHost_new example_rhai None"

lemma demo_read_handshake:
  "\<exists>hs. read_handshake demo_listener demo_connection = (Some (Inr hs), demo_client) \<and> hs_next_state hs = Login
    \<and> hs_protocol_version hs = 760"
proof -
  have "read_packet z DEFAULT_MAX_PACKET_SIZE demo_connection = (Some (Inr demo_handshake), demo_connection\<lparr>inb := inb demo_client\<rparr>)" for z
    by (rule read_packet_default)
       (simp_all add: demo_connection_def demo_handshake_def handshake_encode_def wire_length_def put_prefixed_def str_def
        DEFAULT_MAX_PACKET_SIZE_def varint_size_def length_encode_varint usize_as_i32_def put_u16_def)
  moreover have "demo_connection\<lparr>inb := inb demo_client\<rparr> = demo_client" by (simp add: demo_connection_def)
  moreover have "handshake_decode demo_handshake = Inr \<lparr>hs_protocol_version = 760, hs_server_address = str ''localhost'',
      hs_server_port = 25565, hs_next_state = Login\<rparr>"
    unfolding demo_handshake_def
    by (rule handshake.decode_encode) (simp add: wf_handshake_def wf_string_def fits_i32_def str_def utf8_first_def of_char_def)
  ultimately show ?thesis by (simp add: read_handshake_def bindS_def timeoutS_def liftS_def)
qed

lemma demo_join: "eval_join event demo_scripts = (join_result_default, demo_scripts)"
  by (simp add: eval_join_def demo_scripts_def scripts_def ScriptHost_new_def ask_def has_fn_def example_rhai_def)

lemma demo_connects:
  assumes "takes s'" and "bc_forwarding_mode cfg = NoForwarding"
  shows "\<exists>s pm. connect_player demo_listener config host ip 760 profile target cfg [] False s' = InPlay Running s pm
    \<and> wfate (pm_client pm) = []"
proof -
  let ?b = "\<lparr>inb = frame (RawPacket 0x02 []), in_end = Silent, outb = [], wfate = []\<rparr>"
  have addr: "handshake_address (le_fwd demo_listener) cfg profile ip = Inr (bc_address cfg)"
    using assms(2) by (simp add: handshake_address_def)
  have "wfate ?b = []" by simp
  from dispatch_opening [OF this addr] assms(2) obtain out where
    "dispatch_forwarding (le_fwd demo_listener) cfg profile ip 760 ?b = (Some (Inr ()), ?b\<lparr>outb := out\<rparr>)"
    by (auto simp: returnS_def)
  then have con: "connect_and_forward (le_fwd demo_listener) cfg profile ip 760 = Some (Inr (?b\<lparr>outb := out\<rparr>))"
    by (simp add: connect_and_forward_def Let_def demo_listener_def)
  obtain s1 b1 where "finish_login demo_listener profile 760 (s', ?b\<lparr>outb := out\<rparr>) = (Some (Inr None), s1, b1)"
    "takes s1"
    using accepted_at_once [OF assms(1), of "?b\<lparr>outb := out\<rparr>" demo_listener profile 760] by auto
  with con show ?thesis
    by (simp add: connect_player_def enter_play_def start_play_def play_machine_of_def PlayStateMachine_new_def with_thresholds_def)
qed

lemma demo_connection_takes: "wfate demo_connection = []" "pc_online_mode default_proxy_config"
  by (simp_all add: demo_client_def default_proxy_config_def demo_connection_def)

lemma demo_reaches_play:
  "\<exists>s pm. process_connection demo_listener default_proxy_config demo_manager demo_scripts (str ''1.2.3.4'') [] False
        demo_connection = (InPlay Running s pm, demo_scripts) \<and> wfate (pm_client pm) = []"
proof -
  let ?p = "process_connection demo_listener default_proxy_config demo_manager demo_scripts (str ''1.2.3.4'') [] False demo_connection"
  let ?cfg = "\<lparr>bc_address = str ''127.0.0.1'', bc_port = 25566, bc_forwarding_mode = NoForwarding, bc_forwarding_secret = None\<rparr>"
  obtain hs where hs: "read_handshake demo_listener demo_connection = (Some (Inr hs), demo_client)" "hs_next_state hs = Login"
    "hs_protocol_version hs = 760" using demo_read_handshake by blast
  have w: "wfate demo_client = []" by (simp add: demo_client_def)
  from demo_run [OF refl w, of "str ''1.2.3.4''" 760] obtain s1 where
    a: "handle_login_auth demo_listener (str ''1.2.3.4'') 760 default_proxy_config demo_manager (Plain demo_client) =
      (Some (Inr example_profile), s1)" by (metis fst_conv prod.exhaust)
  from login_auth_encrypts [OF w a] w demo_connection_takes(2) have t: "takes s1" by (auto simp: authenticated_def)
  have "join_target default_proxy_config join_result_default = str ''lobby''"
    "map_of (pc_servers default_proxy_config) (str ''lobby'') = Some ?cfg"
    by (simp_all add: join_target_def join_result_default_def default_proxy_config_def)
  then have "admit demo_listener default_proxy_config example_profile 760 join_result_default s1 = (Some (Inr (str ''lobby'', ?cfg)), s1)"
    by (simp add: admit_def join_result_default_def returnS_def Let_def)
  moreover obtain s pm where "connect_player demo_listener default_proxy_config demo_scripts (str ''1.2.3.4'') 760 example_profile
      (str ''lobby'') ?cfg [] False s1 = InPlay Running s pm" "wfate (pm_client pm) = []"
    using demo_connects [OF t, where host = demo_scripts] by (metis backend_config.select_convs(3))
  ultimately show ?thesis using hs a by (simp add: process_connection_def serve_login_def demo_join)
qed

theorem player_in_loop_was_admitted_witness:
  "\<exists>s pm host'. process_connection demo_listener default_proxy_config demo_manager demo_scripts (str ''1.2.3.4'') [] False
        demo_connection = (InPlay Running s pm, host')
     \<and> is_encrypted s \<and> session_inv pm"
proof -
  obtain s pm where "process_connection demo_listener default_proxy_config demo_manager demo_scripts (str ''1.2.3.4'') [] False
      demo_connection = (InPlay Running s pm, demo_scripts)" using demo_reaches_play by blast
  with player_in_loop_was_admitted [OF demo_connection_takes(1) this] demo_connection_takes(2) show ?thesis by blast
qed

section \<open>Many players at once\<close>

text \<open>C1. However the accept loop, the players' tasks and the shutdown signal interleave: there are never more tasks than the limit,
  each with a permit of its own; scripts, script engine and list of servers are those of the start, whatever hooks of whatever player ran;
  and every player in the routing loop went through the whole login. He opened with a login handshake, was
  authenticated under it (in online mode by the full exchange with the session server, and exactly then his stream is
  encrypted), was let in by the server's scripts, and his session has this identity and address, the server's
  configuration, and a backend of a configured server.\<close>

theorem server_serves_only_admitted:
  assumes "(server_step envs config m)\<^sup>*\<^sup>* (server_start config host0) sv" and "sandboxed (sh_engine host0)"
  shows "card (dom (sv_tasks sv)) + al_permits (sv_accept sv) = max_connections config \<and> confined host0 (sv_host sv)
    \<and> (al_listening (sv_accept sv) \<or> sv_signal sv)
    \<and> (\<forall>n ip c s pm. sv_tasks sv n = Some (Serving ip c (InPlay Running s pm)) \<and> wfate c = [] \<longrightarrow>
         in_session (envs n) config m host0 ip c pm \<and> is_encrypted s = pc_online_mode config)"
proof -
  from server_inv_reachable [OF assms] have inv: "server_inv envs config m host0 sv" .
  then have "card (dom (sv_tasks sv)) = length (al_handlers (sv_accept sv))"
    using distinct_card [of "al_handlers (sv_accept sv)"] by (simp add: server_inv_def)
  moreover have "sound (envs n) config m host0 ip c (InPlay Running s pm)"
    if "sv_tasks sv n = Some (Serving ip c (InPlay Running s pm))" for n ip c s pm
    using inv that by (auto simp: server_inv_def)
  ultimately show ?thesis using inv by (auto simp: server_inv_def sound_def)
qed

text \<open>C10. When the shutdown signal has come, the session of a player whose client takes what is written to it ends with the next
  turn that sees the signal, whatever else is going on: the client is sent one disconnect packet with the reason "Server is
  shutting down" (in the form \<open>shutdown_notice\<close> spells out), both connections are closed, and the task returns and gives its
  permit back. That packet is a disconnect packet of the play state exactly before version 764; from there on it has the
  identifier of the configuration state, although the client is in the play state.\<close>

theorem shutdown_ends_sessions:
  assumes "(server_step envs config m)\<^sup>*\<^sup>* (server_start config host0) sv" and "sandboxed (sh_engine host0)"
    and "sv_signal sv" and "sv_tasks sv n = Some (Serving ip c (InPlay Running s pm))" and "wfate (pm_client pm) = []"
  shows "\<exists>pm' sv1 sv2. server_step envs config m sv sv1
    \<and> sv_tasks sv1 n = Some (Serving ip c (InPlay (Done (Inr ())) s pm'))
    \<and> pm_client_closed pm' \<and> pm_backend pm' = None
    \<and> outb (pm_client pm') = outb (pm_client pm) @ wire (le_z (envs n)) (pm_client_threshold pm)
        (shutdown_notice (le_json (envs n)) (pm_version pm))
    \<and> (is_play_disconnect (shutdown_notice (le_json (envs n)) (pm_version pm)) \<longleftrightarrow> sint (pm_version pm) < 764)
    \<and> server_step envs config m sv1 sv2 \<and> sv_tasks sv2 = (sv_tasks sv)(n := None)
    \<and> al_permits (sv_accept sv2) = Suc (al_permits (sv_accept sv))"
proof -
  from server_inv_reachable [OF assms(1,2)] have inv: "server_inv envs config m host0 sv" .
  then have "sound (envs n) config m host0 ip c (InPlay Running s pm)" using assms(4) by (simp add: server_inv_def)
  then obtain b where "pm_backend pm = Some b" by (auto simp: sound_def in_session_def session_inv_def)
  then have b: "pm_backend (pm\<lparr>pm_script_host := sv_host sv\<rparr>) = Some b" by simp
  let ?pkt = "shutdown_notice (le_json (envs n)) (pm_version pm)"
  from shutdown_turn_sends [OF b, of "play_env_of (envs n)" False False] assms(5) obtain pm' where
    t: "run_turn (play_env_of (envs n)) (ShutdownTurn False False) (pm\<lparr>pm_script_host := sv_host sv\<rparr>) = (Done (Inr ()), pm')"
    and e: "pm_client_closed pm'" "pm_backend pm' = None"
      "outb (pm_client pm') = outb (pm_client pm) @ wire (le_z (envs n)) (pm_client_threshold pm) ?pkt"
    by (auto simp: play_env_of_def shutdown_notice_sent)
  let ?sv1 = "sv\<lparr>sv_tasks := (sv_tasks sv)(n \<mapsto> Serving ip c (InPlay (Done (Inr ())) s pm')), sv_host := pm_script_host pm'\<rparr>"
  have a: "advance (envs n) config (sv_host sv) (ShutdownTurn False False) (with_host (sv_host sv) (InPlay Running s pm)) =
      InPlay (Done (Inr ())) s pm'"
    by (simp add: advance_def with_host_def t)
  have s1: "server_step envs config m sv ?sv1"
    using server_step.goes_on [where envs = envs and m = m and config = config and ev = "ShutdownTurn False False", OF assms(4) _ a [symmetric]]
      assms(3) by (simp add: host_after_def)
  have "sv_tasks ?sv1 n = Some (Serving ip c (InPlay (Done (Inr ())) s pm'))" by simp
  from server_step.returns [OF this, of envs config m]
  have s2: "server_step envs config m ?sv1 (?sv1\<lparr>sv_accept := accept_turn (HandlerDone n) (sv_accept sv), sv_tasks := (sv_tasks sv)(n := None)\<rparr>)"
    by (simp add: returned_def)
  have "n \<in> set (al_handlers (sv_accept sv))" using inv assms(4) by (auto simp: server_inv_def)
  then have "al_permits (accept_turn (HandlerDone n) (sv_accept sv)) = Suc (al_permits (sv_accept sv))"
    by (simp add: accept_turn_def)
  with s1 s2 e show ?thesis
    by (intro exI [of _ pm'] exI [of _ ?sv1]
        exI [of _ "?sv1\<lparr>sv_accept := accept_turn (HandlerDone n) (sv_accept sv), sv_tasks := (sv_tasks sv)(n := None)\<rparr>"]) (simp add: shutdown_notice_state)
qed

definition demo_envs :: "nat \<Rightarrow> (unit, u8) listener_env" where
  "demo_envs n = demo_listener"

lemma demo_sandboxed: "sandboxed (sh_engine demo_scripts)"
  by (simp add: sandboxed_def example_rhai_def demo_scripts_def ScriptHost_new_def)

text \<open>One player has come in, and the shutdown signal has been sent.\<close>

lemma demo_server:
  "\<exists>sv s pm. (server_step demo_envs default_proxy_config demo_manager)\<^sup>*\<^sup>* (server_start default_proxy_config demo_scripts) sv
    \<and> sv_signal sv \<and> sv_tasks sv 7 = Some (Serving (str ''1.2.3.4'') demo_connection (InPlay Running s pm)) \<and> wfate (pm_client pm) = []"
proof -
  let ?step = "server_step demo_envs default_proxy_config demo_manager" and ?ip = "str ''1.2.3.4''"
  let ?sv0 = "server_start default_proxy_config demo_scripts :: (u8, (str \<times> dynamic) list) server"
  let ?sv1 = "?sv0\<lparr>sv_accept := accept_turn (Incoming 7) (sv_accept ?sv0), sv_tasks := (sv_tasks ?sv0)(7 \<mapsto> Accepted ?ip demo_connection)\<rparr>"
  obtain s pm where p: "process_connection demo_listener default_proxy_config demo_manager demo_scripts ?ip [] False demo_connection
      = (InPlay Running s pm, demo_scripts)" "wfate (pm_client pm) = []" using demo_reaches_play by blast
  let ?t = "Serving ?ip demo_connection (InPlay Running s pm)"
  let ?sv2 = "?sv1\<lparr>sv_tasks := (sv_tasks ?sv1)(7 \<mapsto> ?t), sv_host := demo_scripts\<rparr>"
  have "?step ?sv0 ?sv1"
    by (rule server_step.accepts)
       (simp_all add: server_start_def start_listener_with_state_on_def max_connections_def default_proxy_config_def i32_as_usize_def)
  moreover have "?step ?sv1 ?sv2"
    by (rule server_step.begins [where n = 7 and shut = False and ip = ?ip and c = demo_connection])
       (simp_all add: handle_client_def server_start_def demo_envs_def p(1))
  moreover have "?step ?sv2 (?sv2\<lparr>sv_signal := True\<rparr>)" by (rule server_step.signalled)
  ultimately have "?step\<^sup>*\<^sup>* ?sv0 (?sv2\<lparr>sv_signal := True\<rparr>)" by (meson rtranclp.rtrancl_into_rtrancl rtranclp.rtrancl_refl)
  with p(2) show ?thesis by (intro exI [of _ "?sv2\<lparr>sv_signal := True\<rparr>"] exI [of _ s] exI [of _ pm]) simp
qed

theorem server_serves_only_admitted_witness:
  "\<exists>sv s pm. (server_step demo_envs default_proxy_config demo_manager)\<^sup>*\<^sup>* (server_start default_proxy_config demo_scripts) sv
    \<and> sv_tasks sv 7 = Some (Serving (str ''1.2.3.4'') demo_connection (InPlay Running s pm)) \<and> is_encrypted s \<and> session_inv pm"
proof -
  from demo_server obtain sv s pm where
    d: "(server_step demo_envs default_proxy_config demo_manager)\<^sup>*\<^sup>* (server_start default_proxy_config demo_scripts) sv"
    "sv_tasks sv 7 = Some (Serving (str ''1.2.3.4'') demo_connection (InPlay Running s pm))" by blast
  from server_serves_only_admitted [OF d(1) demo_sandboxed] d(2) demo_connection_takes
  have "in_session (demo_envs 7) default_proxy_config demo_manager demo_scripts (str ''1.2.3.4'') demo_connection pm \<and> is_encrypted s"
    by blast
  with d show ?thesis unfolding in_session_def by blast
qed

theorem shutdown_ends_sessions_witness:
  "\<exists>sv sv1 sv2. sv_tasks sv 7 \<noteq> None \<and> server_step demo_envs default_proxy_config demo_manager sv sv1
    \<and> server_step demo_envs default_proxy_config demo_manager sv1 (sv2 :: (u8, (str \<times> dynamic) list) server)
    \<and> sv_tasks sv2 = (sv_tasks sv)(7 := None)"
proof -
  from demo_server obtain sv s pm where
    d: "(server_step demo_envs default_proxy_config demo_manager)\<^sup>*\<^sup>* (server_start default_proxy_config demo_scripts) sv"
    "sv_signal sv" "sv_tasks sv 7 = Some (Serving (str ''1.2.3.4'') demo_connection (InPlay Running s pm))" "wfate (pm_client pm) = []"
    by blast
  from shutdown_ends_sessions [OF d(1) demo_sandboxed d(2-4)] d(3) show ?thesis by (metis option.distinct(1))
qed

end
